(* ===== verification/Prelude.thy ===== *)
theory Prelude
  imports Main "HOL-Library.Word"
begin

text \<open>
  What every component of the hub shares: bytes, exceptions as values, the sequencing of
  computations that may throw, and generic facts on lists and words.

  A C++ function that may throw is a HOL function into \<open>error + 'a\<close>. The texts of
  \<open>std::runtime_error\<close> are the source's own without quotation marks; where the source puts values
  into a text, the text without them stands for it. \<open>Undefined_behaviour\<close> is the
  result of an expression the C++ standard leaves undefined (a shift by the operand's width or
  more), and \<open>Out_of_fuel\<close> the result of a loop that was given too few iterations.
\<close>

unbundle bit_operations_syntax

type_synonym byte = "8 word"

datatype error =
    Runtime_error string
  | Invalid_argument
  | Stoul_out_of_range
  | Wrong_json_kind
  | Undefined_behaviour
  | Out_of_fuel

named_theorems codec_simps \<open>what the encoders and decoders of the wire formats compute\<close>
named_theorems step_simps \<open>what the event handlers of the components compute\<close>

section \<open>Computations that may throw\<close>

definition res_bind :: "error + 'a \<Rightarrow> ('a \<Rightarrow> error + 'b) \<Rightarrow> error + 'b" where
  "res_bind r f = (case r of Inl e \<Rightarrow> Inl e | Inr x \<Rightarrow> f x)"

lemma res_bind_Inl [simp]: "res_bind (Inl e) f = Inl e"
  by (simp add: res_bind_def)

lemma res_bind_Inr [simp]: "res_bind (Inr x) f = f x"
  by (simp add: res_bind_def)

lemma res_bind_Inr_right [simp]: "res_bind r Inr = r"
  by (cases r) auto

lemma res_bind_eq_Inr: "res_bind r f = Inr y \<longleftrightarrow> (\<exists>x. r = Inr x \<and> f x = Inr y)"
  by (cases r) auto

lemma res_bind_eq_Inl:
  "res_bind r f = Inl e \<longleftrightarrow> r = Inl e \<or> (\<exists>x. r = Inr x \<and> f x = Inl e)"
  by (cases r) auto

lemma res_bind_assoc: "res_bind (res_bind r f) g = res_bind r (\<lambda>x. res_bind (f x) g)"
  by (cases r) auto

lemma res_bind_cong [fundef_cong]:
  "r = r' \<Longrightarrow> (\<And>x. r' = Inr x \<Longrightarrow> f x = g x) \<Longrightarrow> res_bind r f = res_bind r' g"
  by (cases r') auto

lemma res_bind_split:
  "P (res_bind r f) \<longleftrightarrow> (\<forall>e. r = Inl e \<longrightarrow> P (Inl e)) \<and> (\<forall>x. r = Inr x \<longrightarrow> P (f x))"
  by (cases r) auto

section \<open>Lists\<close>

lemma append_eq_prefix_cases:
  assumes "xs @ ys = us @ vs"
  obtains zs where "us = xs @ zs" "ys = zs @ vs"
  | zs where "xs = us @ zs" "vs = zs @ ys"
  using assms by (auto simp: append_eq_append_conv2)

lemma upt_shift_Cons: "i < n \<Longrightarrow> [i..<n] = i # [Suc i..<n]"
  by (rule upt_conv_Cons)

lemma unat_byte_less: "unat (b :: byte) < 256"
proof -
  have "unat b < 2 ^ LENGTH(8)" by (rule unsigned_less)
  then show ?thesis by simp
qed

section \<open>Words as little-endian byte sequences\<close>

text \<open>
  The wire format of an \<open>n\<close>-byte integer: least significant byte first. This is the
  specification; the loops of the source are in the theory \<open>Codec\<close>.
\<close>

primrec le_bytes :: "nat \<Rightarrow> 'a::len word \<Rightarrow> byte list" where
  "le_bytes 0 w = []"
| "le_bytes (Suc n) w = ucast w # le_bytes n (drop_bit 8 w)"

primrec of_le_bytes :: "byte list \<Rightarrow> 'a::len word" where
  "of_le_bytes [] = 0"
| "of_le_bytes (b # bs) = ucast b OR push_bit 8 (of_le_bytes bs)"

lemma length_le_bytes [simp]: "length (le_bytes n w) = n"
  by (induction n arbitrary: w) auto

lemma bit_of_le_bytes_high:
  "8 * length bs \<le> k \<Longrightarrow> \<not> bit (of_le_bytes bs :: 'a::len word) k"
proof (induction bs arbitrary: k)
  case (Cons b bs)
  have "\<not> bit b k" using Cons.prems by (auto dest: bit_imp_le_length)
  moreover have "\<not> bit (of_le_bytes bs :: 'a word) (k - 8)"
    using Cons.prems by (intro Cons.IH) simp
  ultimately show ?case by (auto simp: bit_simps)
qed simp

lemma le_bytes_of_le_bytes:
  "8 * length bs \<le> LENGTH('a) \<Longrightarrow> le_bytes (length bs) (of_le_bytes bs :: 'a::len word) = bs"
proof (induction bs)
  case (Cons b bs)
  have low: "ucast (ucast b OR push_bit 8 (of_le_bytes bs :: 'a word)) = b"
  proof (rule bit_eqI)
    fix k assume "possible_bit TYPE(8 word) k"
    then have k: "k < 8" by simp
    with Cons.prems show
      "bit (ucast (ucast b OR push_bit 8 (of_le_bytes bs :: 'a word)) :: byte) k \<longleftrightarrow> bit b k"
      by (auto simp: bit_simps)
  qed
  have "drop_bit 8 (ucast b OR push_bit 8 (of_le_bytes bs :: 'a word)) = of_le_bytes bs"
  proof (rule bit_eqI)
    fix k assume "possible_bit TYPE('a word) k"
    have b: "\<not> bit b (8 + k)" by (auto dest: bit_imp_le_length)
    have "\<not> bit (of_le_bytes bs :: 'a word) k" if "\<not> 8 + k < LENGTH('a)"
      using Cons.prems that by (intro bit_of_le_bytes_high) simp
    with b show "bit (drop_bit 8 (ucast b OR push_bit 8 (of_le_bytes bs :: 'a word))) k
        \<longleftrightarrow> bit (of_le_bytes bs :: 'a word) k"
      by (auto simp: bit_simps)
  qed
  with low Cons show ?case by simp
qed simp

lemma of_le_bytes_le_bytes: "of_le_bytes (le_bytes n w) = take_bit (8 * n) (w :: 'a::len word)"
proof (induction n arbitrary: w)
  case (Suc n)
  have "ucast (ucast w :: byte) OR push_bit 8 (take_bit (8 * n) (drop_bit 8 w)) = take_bit (8 * Suc n) w"
    by (rule bit_eqI) (auto simp: bit_simps)
  with Suc show ?case by simp
qed simp

end
