(* ===== verification/Codec.thy ===== *)
theory Codec
  imports Prelude
begin

text \<open>
  The binary encoder and decoder templates of \<^verbatim>\<open>src/znp/encoding.h\<close>.

  \<open>EncodeHelper<T>\<close> is a record of three functions, one per static member function:
  \<open>GetSize\<close>, \<open>enc\<close> (\<open>Encode\<close>) and \<open>dec\<close> (\<open>Decode\<close>). The pair of
  output iterators \<open>begin, end\<close> is the space left in the target buffer: \<open>enc v sp\<close> returns
  the bytes written and the space still left, or throws. The pair of input iterators is the list
  of bytes not read yet: \<open>dec bs\<close> returns the value and the rest. A partial specialisation for
  a type constructor is a function from codecs to codecs.

  The locale \<open>codec_laws\<close> is the contract of an \<open>EncodeHelper\<close>: on the values that can be
  encoded it announces the size it writes, fails exactly when the space is too small, and its
  bytes are read back whatever follows them. \<open>canonical_codec\<close> adds that every byte sequence
  that is accepted is the encoding of the value it yields.
\<close>

record 'a codec =
  GetSize :: "'a \<Rightarrow> error + nat"
  enc :: "'a \<Rightarrow> nat \<Rightarrow> error + (byte list \<times> nat)"
  dec :: "byte list \<Rightarrow> error + ('a \<times> byte list)"

section \<open>The top-level functions\<close>

definition Encode :: "'a codec \<Rightarrow> 'a \<Rightarrow> error + byte list" where
  "Encode c v = res_bind (GetSize c v) (\<lambda>size.
     res_bind (enc c v size) (\<lambda>(target, left).
       if left \<noteq> 0 then Inl (Runtime_error ''Encoder failure: Too much data reserved'')
       else Inr target))"

definition DecodePartial :: "'a codec \<Rightarrow> byte list \<Rightarrow> error + 'a" where
  "DecodePartial c bs = res_bind (dec c bs) (\<lambda>(v, rest). Inr v)"

definition Decode :: "'a codec \<Rightarrow> byte list \<Rightarrow> error + 'a" where
  "Decode c bs = res_bind (dec c bs) (\<lambda>(v, rest).
     if rest \<noteq> [] then Inl (Runtime_error ''Decoding failure: Not all bytes parsed'')
     else Inr v)"

section \<open>The contract\<close>

locale codec_laws =
  fixes c :: "'a codec"
    and ok :: "'a \<Rightarrow> bool"
    and img :: "'a \<Rightarrow> byte list"
  assumes size_law: "ok v \<Longrightarrow> GetSize c v = Inr (length (img v))"
    and write_law: "ok v \<Longrightarrow> length (img v) \<le> sp \<Longrightarrow> enc c v sp = Inr (img v, sp - length (img v))"
    and overflow_law: "ok v \<Longrightarrow> sp < length (img v) \<Longrightarrow> \<exists>e. enc c v sp = Inl e"
    and read_law: "ok v \<Longrightarrow> dec c (img v @ rest) = Inr (v, rest)"
    and consume_law: "dec c bs = Inr (v, rest) \<Longrightarrow>
      \<exists>used. bs = used @ rest \<and> (\<forall>r. dec c (used @ r) = Inr (v, r))"
begin

lemma encode_img: "ok v \<Longrightarrow> Encode c v = Inr (img v)"
  by (simp add: Encode_def size_law write_law)

lemma decode_img: "ok v \<Longrightarrow> Decode c (img v) = Inr v"
  using read_law [of v "[]"] by (simp add: Decode_def)

lemma decode_partial_img: "ok v \<Longrightarrow> DecodePartial c (img v @ rest) = Inr v"
  by (simp add: DecodePartial_def read_law)

lemma round_trip: "ok v \<Longrightarrow> res_bind (Encode c v) (Decode c) = Inr v"
  by (simp add: encode_img decode_img)

lemma self_delimiting:
  assumes "ok v" "ok w" "img v @ r = img w @ s"
  shows "v = w \<and> r = s"
proof -
  have "dec c (img w @ s) = Inr (v, r)"
    using read_law [OF assms(1), of r] by (simp only: assms(3))
  with read_law [OF assms(2), of s] show ?thesis by simp
qed

lemma truncated_rejected:
  assumes v: "ok v" and bs: "img v = bs @ x # xs"
  shows "\<exists>e. dec c bs = Inl e"
proof (cases "dec c bs")
  case (Inr p)
  obtain w rest where p: "p = (w, rest)" by (cases p)
  with Inr consume_law [of bs w rest] obtain used where
    used: "bs = used @ rest" "\<And>r. dec c (used @ r) = Inr (w, r)" by blast
  with bs have "dec c (img v @ []) = Inr (w, rest @ x # xs)" by simp
  with read_law [OF v, of "[]"] show ?thesis by simp
qed simp

lemma distinct_encodings: "ok v \<Longrightarrow> ok w \<Longrightarrow> Encode c v = Encode c w \<longleftrightarrow> v = w"
  using self_delimiting [of v w "[]" "[]"] by (auto simp: encode_img)

end

locale canonical_codec = codec_laws +
  assumes canonical_law: "dec c bs = Inr (v, rest) \<Longrightarrow> ok v \<and> bs = img v @ rest"
begin

lemma decode_then_encode: "Decode c bs = Inr v \<Longrightarrow> Encode c v = Inr bs"
  by (auto simp: Decode_def res_bind_eq_Inr encode_img dest!: canonical_law split: if_splits)

lemma decode_eq_iff: "Decode c bs = Inr v \<longleftrightarrow> ok v \<and> bs = img v"
proof
  assume "Decode c bs = Inr v"
  then show "ok v \<and> bs = img v"
    by (auto simp: Decode_def res_bind_eq_Inr dest: canonical_law split: if_splits)
qed (auto simp: decode_img)

end

lemma codec_lawsI [intro?]:
  assumes "\<And>v. ok v \<Longrightarrow> GetSize c v = Inr (length (img v))"
    and "\<And>v sp. ok v \<Longrightarrow> length (img v) \<le> sp \<Longrightarrow> enc c v sp = Inr (img v, sp - length (img v))"
    and "\<And>v sp. ok v \<Longrightarrow> sp < length (img v) \<Longrightarrow> \<exists>e. enc c v sp = Inl e"
    and "\<And>v rest. ok v \<Longrightarrow> dec c (img v @ rest) = Inr (v, rest)"
    and "\<And>bs v rest. dec c bs = Inr (v, rest) \<Longrightarrow>
      \<exists>used. bs = used @ rest \<and> (\<forall>r. dec c (used @ r) = Inr (v, r))"
  shows "codec_laws c ok img"
  using assms by unfold_locales

lemma canonical_codecI:
  "codec_laws c ok img \<Longrightarrow>
   (\<And>bs v rest. dec c bs = Inr (v, rest) \<Longrightarrow> ok v \<and> bs = img v @ rest) \<Longrightarrow> canonical_codec c ok img"
  by (simp add: canonical_codec_def canonical_codec_axioms_def)

lemma canonical_imp_laws: "canonical_codec c ok img \<Longrightarrow> codec_laws c ok img"
  by (simp add: canonical_codec_def)

section \<open>Unsigned integers\<close>

text \<open>The values of \<open>shift\<close> in \<open>for (shift = 0; shift < bytes * 8; shift += 8)\<close>.\<close>

definition byte_shifts :: "nat \<Rightarrow> nat list" where
  "byte_shifts bytes = map (\<lambda>i. 8 * i) [0..<bytes]"

fun EncodeUnsigned_loop :: "'a::len word \<Rightarrow> nat list \<Rightarrow> nat \<Rightarrow> error + (byte list \<times> nat)" where
  "EncodeUnsigned_loop v [] sp = Inr ([], sp)"
| "EncodeUnsigned_loop v (shift # shifts) sp =
     (if sp = 0 then Inl (Runtime_error ''Not enough space to encode integer'')
      else res_bind (EncodeUnsigned_loop v shifts (sp - 1)) (\<lambda>(bs, left).
        Inr (ucast (drop_bit shift v AND 0xFF) # bs, left)))"

fun DecodeUnsigned_loop :: "nat list \<Rightarrow> 'a::len word \<Rightarrow> byte list \<Rightarrow> error + ('a word \<times> byte list)" where
  "DecodeUnsigned_loop [] v bs = Inr (v, bs)"
| "DecodeUnsigned_loop (shift # shifts) v [] =
     Inl (Runtime_error ''Not enough data to decode integer'')"
| "DecodeUnsigned_loop (shift # shifts) v (b # bs) =
     DecodeUnsigned_loop shifts (v OR push_bit shift (ucast b)) bs"

definition unsigned_codec :: "'a::len word codec" where
  "unsigned_codec = \<lparr>
     GetSize = (\<lambda>v. Inr (LENGTH('a) div 8)),
     enc = (\<lambda>v sp. EncodeUnsigned_loop v (byte_shifts (LENGTH('a) div 8)) sp),
     dec = (\<lambda>bs. DecodeUnsigned_loop (byte_shifts (LENGTH('a) div 8)) 0 bs) \<rparr>"

lemma ucast_and_FF: "(ucast (w AND 0xFF :: 'a::len word) :: byte) = ucast w"
proof -
  have "w AND 0xFF = take_bit 8 w" by (simp add: take_bit_eq_mask mask_eq_exp_minus_1)
  moreover have "(ucast (take_bit 8 w) :: byte) = ucast w"
    by (rule bit_eqI) (auto simp: bit_simps)
  ultimately show ?thesis by simp
qed

lemma EncodeUnsigned_loop_eq:
  "EncodeUnsigned_loop v (map (\<lambda>i. 8 * i) [i..<n]) sp =
     (if n - i \<le> sp then Inr (le_bytes (n - i) (drop_bit (8 * i) v), sp - (n - i))
      else Inl (Runtime_error ''Not enough space to encode integer''))"
proof (induction "n - i" arbitrary: i sp)
  case (Suc m)
  then have i: "i < n" and m: "n - Suc i = m" and n: "n - i = Suc m" by auto
  have d: "drop_bit 8 (drop_bit (8 * i) v) = drop_bit (8 * Suc i) v"
    by (simp add: drop_bit_drop_bit)
  show ?case
  proof (cases sp)
    case (Suc k)
    with Suc.hyps(1) [of "Suc i" k] m show ?thesis
      by (simp add: n upt_shift_Cons [OF i] ucast_and_FF d)
  qed (simp add: n upt_shift_Cons [OF i])
qed simp

lemma take_bit_step:
  "take_bit k w OR push_bit k (ucast (ucast (drop_bit k w) :: byte)) = take_bit (8 + k) (w :: 'a::len word)"
  by (rule bit_eqI) (auto simp: bit_simps)

lemma DecodeUnsigned_loop_le_bytes:
  "DecodeUnsigned_loop (map (\<lambda>i. 8 * i) [i..<n]) (take_bit (8 * i) w)
     (le_bytes (n - i) (drop_bit (8 * i) w) @ rest) = Inr (take_bit (8 * max i n) w, rest)"
proof (induction "n - i" arbitrary: i)
  case (Suc m)
  then have i: "i < n" and m: "n - Suc i = m" and n: "n - i = Suc m" by auto
  have d: "drop_bit 8 (drop_bit (8 * i) w) = drop_bit (8 * Suc i) w"
    by (simp add: drop_bit_drop_bit)
  have t: "take_bit (8 * i) w OR push_bit (8 * i) (ucast (ucast (drop_bit (8 * i) w) :: byte))
      = take_bit (8 * Suc i) w"
    by (simp add: take_bit_step)
  have "max (Suc i) n = max i n" using i by simp
  with Suc.hyps(1) [of "Suc i"] m show ?case
    by (simp only: n upt_shift_Cons [OF i] list.map DecodeUnsigned_loop.simps le_bytes.simps
      append_Cons t d)
qed (simp add: max_def)

lemma DecodeUnsigned_loop_short:
  "length bs < length shifts \<Longrightarrow>
   DecodeUnsigned_loop shifts v bs = Inl (Runtime_error ''Not enough data to decode integer'')"
  by (induction shifts v bs rule: DecodeUnsigned_loop.induct) auto

lemma DecodeUnsigned_loop_eq:
  assumes "8 * n \<le> LENGTH('a)"
  shows "DecodeUnsigned_loop (byte_shifts n) (0 :: 'a::len word) bs =
     (if n \<le> length bs then Inr (of_le_bytes (take n bs), drop n bs)
      else Inl (Runtime_error ''Not enough data to decode integer''))"
proof (cases "n \<le> length bs")
  case True
  define us where "us = take n bs"
  define w where "w = (of_le_bytes us :: 'a word)"
  from True assms have le: "le_bytes n w = us"
    using le_bytes_of_le_bytes [of us, where 'a = 'a] by (simp add: us_def w_def)
  have "take_bit (8 * n) w = w"
    using of_le_bytes_le_bytes [of n w] by (simp add: le) (simp add: w_def)
  with DecodeUnsigned_loop_le_bytes [of 0 n w "drop n bs"] le True show ?thesis
    by (simp add: byte_shifts_def us_def [symmetric] w_def [symmetric]) (simp add: us_def)
next
  case False
  then show ?thesis by (simp add: DecodeUnsigned_loop_short byte_shifts_def)
qed

lemma unsigned_codec_simps [codec_simps]:
  "GetSize (unsigned_codec :: 'a::len word codec) v = Inr (LENGTH('a) div 8)"
  "enc (unsigned_codec :: 'a word codec) v sp =
     (if LENGTH('a) div 8 \<le> sp then Inr (le_bytes (LENGTH('a) div 8) v, sp - LENGTH('a) div 8)
      else Inl (Runtime_error ''Not enough space to encode integer''))"
  "dec (unsigned_codec :: 'a word codec) bs =
     (if LENGTH('a) div 8 \<le> length bs
      then Inr (of_le_bytes (take (LENGTH('a) div 8) bs), drop (LENGTH('a) div 8) bs)
      else Inl (Runtime_error ''Not enough data to decode integer''))"
  using EncodeUnsigned_loop_eq [of v 0 "LENGTH('a) div 8" sp]
  by (simp_all add: unsigned_codec_def byte_shifts_def [symmetric] DecodeUnsigned_loop_eq)

lemma unsigned_codec_canonical:
  assumes "8 dvd LENGTH('a)"
  shows "canonical_codec (unsigned_codec :: 'a::len word codec) (\<lambda>_. True) (le_bytes (LENGTH('a) div 8))"
proof (rule canonical_codecI)
  let ?n = "LENGTH('a) div 8"
  have full: "take_bit (8 * ?n) w = w" for w :: "'a word" using assms by simp
  show "codec_laws (unsigned_codec :: 'a word codec) (\<lambda>_. True) (le_bytes ?n)"
  proof (rule codec_lawsI)
    fix bs rest and v :: "'a word"
    assume "dec unsigned_codec bs = Inr (v, rest)"
    then show "\<exists>used. bs = used @ rest \<and> (\<forall>r. dec unsigned_codec (used @ r) = Inr (v, r))"
      by (intro exI [of _ "take ?n bs"]) (auto simp: codec_simps split: if_splits)
  qed (simp_all add: codec_simps of_le_bytes_le_bytes full)
  fix bs rest and v :: "'a word"
  assume "dec unsigned_codec bs = Inr (v, rest)"
  then have n: "?n \<le> length bs" and v: "v = of_le_bytes (take ?n bs)" and rest: "rest = drop ?n bs"
    by (auto simp: codec_simps split: if_splits)
  from n have "le_bytes ?n v = take ?n bs"
    using le_bytes_of_le_bytes [of "take ?n bs", where 'a = 'a] assms by (simp add: v)
  then show "True \<and> bs = le_bytes ?n v @ rest" by (simp add: rest)
qed

interpretation uint8: canonical_codec "unsigned_codec :: 8 word codec" "\<lambda>_. True" "le_bytes 1"
  using unsigned_codec_canonical [where 'a = 8] by simp

interpretation uint16: canonical_codec "unsigned_codec :: 16 word codec" "\<lambda>_. True" "le_bytes 2"
  using unsigned_codec_canonical [where 'a = 16] by simp

interpretation uint32: canonical_codec "unsigned_codec :: 32 word codec" "\<lambda>_. True" "le_bytes 4"
  using unsigned_codec_canonical [where 'a = 32] by simp

interpretation uint64: canonical_codec "unsigned_codec :: 64 word codec" "\<lambda>_. True" "le_bytes 8"
  using unsigned_codec_canonical [where 'a = 64] by simp

section \<open>Enumerations, signed integers and booleans\<close>

text \<open>
  An enumeration is encoded as its underlying integer, and any value of the underlying type is
  decoded, named or not; the model represents an \<open>enum class : uintN_t\<close> by the word of that
  width. A signed integer is cast to the unsigned type of its width and back, which keeps the
  word: signedness is how the word is read (\<open>sint\<close>).
\<close>

definition enum_codec :: "'a::len word codec" where
  "enum_codec = \<lparr>
     GetSize = (\<lambda>v. GetSize unsigned_codec (ucast v :: 'a word)),
     enc = (\<lambda>v sp. enc unsigned_codec (ucast v :: 'a word) sp),
     dec = (\<lambda>bs. res_bind (dec unsigned_codec bs) (\<lambda>(temp :: 'a word, rest). Inr (ucast temp, rest))) \<rparr>"

definition signed_codec :: "'a::len word codec" where
  "signed_codec = \<lparr>
     GetSize = (\<lambda>v. GetSize unsigned_codec (ucast v :: 'a word)),
     enc = (\<lambda>v sp. enc unsigned_codec (ucast v :: 'a word) sp),
     dec = (\<lambda>bs. res_bind (dec unsigned_codec bs) (\<lambda>(unsigned_value :: 'a word, rest).
       Inr (scast unsigned_value, rest))) \<rparr>"

definition bool_codec :: "bool codec" where
  "bool_codec = \<lparr>
     GetSize = (\<lambda>v. Inr 1),
     enc = (\<lambda>v sp. enc unsigned_codec (if v then 1 else 0 :: 8 word) sp),
     dec = (\<lambda>bs. res_bind (dec unsigned_codec bs) (\<lambda>(int_value :: 8 word, rest).
       Inr (int_value > 0, rest))) \<rparr>"

definition bool_img :: "bool \<Rightarrow> byte list" where
  "bool_img v = [if v then 1 else 0]"

lemma enum_codec_eq [codec_simps]: "enum_codec = unsigned_codec"
  by (simp add: enum_codec_def)

lemma signed_codec_eq [codec_simps]: "signed_codec = unsigned_codec"
  by (simp add: signed_codec_def)

lemma bool_codec_laws: "codec_laws bool_codec (\<lambda>_. True) bool_img"
proof (rule codec_lawsI)
  fix bs v rest
  assume "dec bool_codec bs = Inr (v, rest)"
  then show "\<exists>used. bs = used @ rest \<and> (\<forall>r. dec bool_codec (used @ r) = Inr (v, r))"
    by (intro exI [of _ "take 1 bs"])
      (auto simp: bool_codec_def codec_simps Suc_le_eq split: if_splits)
qed (auto simp: bool_codec_def codec_simps bool_img_def)

interpretation bool: codec_laws bool_codec "\<lambda>_. True" bool_img
  by (rule bool_codec_laws)

section \<open>Bit sets\<close>

text \<open>
  \<open>std::bitset<N>\<close> for \<open>N\<close> a multiple of 8 up to the 64 bits of
  \<open>unsigned long long\<close>, represented by the word of its \<open>N\<close> bits. The encoder shifts
  \<open>numvalue\<close> down once per byte, the decoder shifts each byte up.
\<close>

fun bitset_encode_loop :: "nat \<Rightarrow> 64 word \<Rightarrow> nat \<Rightarrow> error + (byte list \<times> nat)" where
  "bitset_encode_loop 0 numvalue sp = Inr ([], sp)"
| "bitset_encode_loop (Suc n) numvalue sp =
     (if sp = 0 then Inl (Runtime_error ''Not enough space to encode bitset'')
      else res_bind (bitset_encode_loop n (drop_bit 8 numvalue) (sp - 1)) (\<lambda>(bs, left).
        Inr (ucast (numvalue AND 0xFF) # bs, left)))"

fun bitset_decode_loop :: "nat list \<Rightarrow> 64 word \<Rightarrow> byte list \<Rightarrow> error + (64 word \<times> byte list)" where
  "bitset_decode_loop [] numvalue bs = Inr (numvalue, bs)"
| "bitset_decode_loop (i # is) numvalue [] = Inl (Runtime_error ''Not enough data to decode bitset'')"
| "bitset_decode_loop (i # is) numvalue (b # bs) =
     bitset_decode_loop is (numvalue OR push_bit i (ucast b)) bs"

definition bitset_codec :: "'a::len word codec" where
  "bitset_codec = \<lparr>
     GetSize = (\<lambda>v. Inr (LENGTH('a) div 8)),
     enc = (\<lambda>v sp. bitset_encode_loop (LENGTH('a) div 8) (ucast v) sp),
     dec = (\<lambda>bs. res_bind (bitset_decode_loop (byte_shifts (LENGTH('a) div 8)) 0 bs) (\<lambda>(numvalue, rest).
       Inr (ucast numvalue, rest))) \<rparr>"

lemma bitset_encode_loop_eq [codec_simps]:
  "bitset_encode_loop n v sp =
     (if n \<le> sp then Inr (le_bytes n v, sp - n)
      else Inl (Runtime_error ''Not enough space to encode bitset''))"
  by (induction n arbitrary: v sp) (auto simp: ucast_and_FF)

lemma bitset_decode_loop_eq:
  "bitset_decode_loop is v bs = Inr r \<longleftrightarrow> DecodeUnsigned_loop is v bs = Inr r"
  by (induction "is" v bs rule: bitset_decode_loop.induct) auto

lemma bitset_decode_loop_short:
  "length bs < length is \<Longrightarrow> \<exists>e. bitset_decode_loop is v bs = Inl e"
  by (induction "is" v bs rule: bitset_decode_loop.induct) auto

lemma le_bytes_cong:
  "(\<And>k. k < 8 * n \<Longrightarrow> bit (v :: 'a::len word) k = bit (w :: 'b::len word) k) \<Longrightarrow> le_bytes n v = le_bytes n w"
proof (induction n arbitrary: v w)
  case (Suc n)
  have "(ucast v :: byte) = ucast w"
    by (rule bit_eqI) (auto simp: bit_simps Suc.prems)
  moreover have "le_bytes n (drop_bit 8 v) = le_bytes n (drop_bit 8 w)"
    by (rule Suc.IH) (auto simp: bit_simps Suc.prems)
  ultimately show ?case by simp
qed simp

lemma bitset_decode_eq:
  assumes "LENGTH('a) \<le> 64"
  shows "dec (bitset_codec :: 'a::len word codec) bs = Inr (v, rest) \<longleftrightarrow>
    LENGTH('a) div 8 \<le> length bs \<and> rest = drop (LENGTH('a) div 8) bs
    \<and> v = ucast (of_le_bytes (take (LENGTH('a) div 8) bs) :: 64 word)"
  using assms
  by (auto simp: bitset_codec_def res_bind_eq_Inr bitset_decode_loop_eq DecodeUnsigned_loop_eq split: if_splits)

lemma bitset_codec_canonical:
  assumes "8 dvd LENGTH('a)" and small: "LENGTH('a) \<le> 64"
  shows "canonical_codec (bitset_codec :: 'a::len word codec) (\<lambda>_. True) (le_bytes (LENGTH('a) div 8))"
proof (rule canonical_codecI)
  let ?n = "LENGTH('a) div 8"
  have n: "8 * ?n = LENGTH('a)" using assms(1) by simp
  have up: "le_bytes ?n (ucast v :: 64 word) = le_bytes ?n v" for v :: "'a word"
    by (rule le_bytes_cong) (use n small in \<open>auto simp: bit_simps\<close>)
  have down: "le_bytes ?n (ucast w :: 'a word) = le_bytes ?n (w :: 64 word)" for w
    by (rule le_bytes_cong) (use n small in \<open>auto simp: bit_simps\<close>)
  have again: "(ucast (of_le_bytes (le_bytes ?n v) :: 64 word) :: 'a word) = v" for v :: "'a word"
  proof -
    have "(of_le_bytes (le_bytes ?n v) :: 64 word) = take_bit LENGTH('a) (ucast v)"
      using of_le_bytes_le_bytes [of ?n "ucast v :: 64 word"] by (simp add: up n)
    then show ?thesis using small by (auto intro!: bit_eqI simp: bit_simps dest: bit_imp_le_length)
  qed
  show "codec_laws (bitset_codec :: 'a word codec) (\<lambda>_. True) (le_bytes ?n)"
  proof (rule codec_lawsI)
    fix bs rest and v :: "'a word"
    assume "dec bitset_codec bs = Inr (v, rest)"
    then show "\<exists>used. bs = used @ rest \<and> (\<forall>r. dec bitset_codec (used @ r) = Inr (v, r))"
      by (intro exI [of _ "take ?n bs"]) (auto simp: bitset_decode_eq [OF small])
  qed (auto simp: bitset_decode_eq [OF small] again up, auto simp: bitset_codec_def bitset_encode_loop_eq up)
  fix bs rest and v :: "'a word"
  assume "dec bitset_codec bs = Inr (v, rest)"
  then show "True \<and> bs = le_bytes ?n v @ rest"
    using le_bytes_of_le_bytes [of "take ?n bs", where 'a = 64] n small
    by (auto simp: bitset_decode_eq [OF small] down)
qed

interpretation bitset8: canonical_codec "bitset_codec :: 8 word codec" "\<lambda>_. True" "le_bytes 1"
  using bitset_codec_canonical [where 'a = 8] by simp

section \<open>Structures and empty payloads\<close>

text \<open>
  A fusion structure is decoded member by member (\<open>FusionDecodeHelper\<close> accumulates the
  input iterator over the members), which is the decoding \<open>d\<close> of the tuple of its members; \<open>build\<close>
  builds the structure. There is no encoder for structures in the source.
\<close>

definition struct_dec :: "('a \<Rightarrow> 'b) \<Rightarrow> (byte list \<Rightarrow> error + ('a \<times> byte list)) \<Rightarrow> byte list
    \<Rightarrow> error + ('b \<times> byte list)" where
  "struct_dec build d bs = res_bind (d bs) (\<lambda>(members, rest). Inr (build members, rest))"

text \<open>\<open>Decode<T>\<close> and \<open>DecodePartial<T>\<close> for a structure, given its decoder.\<close>

definition Decode_by :: "(byte list \<Rightarrow> error + ('a \<times> byte list)) \<Rightarrow> byte list \<Rightarrow> error + 'a" where
  "Decode_by d bs = res_bind (d bs) (\<lambda>(v, rest).
     if rest \<noteq> [] then Inl (Runtime_error ''Decoding failure: Not all bytes parsed'')
     else Inr v)"

lemma Decode_eq: "Decode c = Decode_by (dec c)"
  by (rule ext) (simp add: Decode_def Decode_by_def)

text \<open>\<open>Decode<void>\<close> and \<open>Encode()\<close>.\<close>

definition DecodeVoid :: "byte list \<Rightarrow> error + unit" where
  "DecodeVoid data = (if length data \<noteq> 0 then Inl (Runtime_error ''Decoding failure: Expected empty data'')
     else Inr ())"

definition EncodeVoid :: "byte list" where
  "EncodeVoid = []"

section \<open>Arrays, vectors and tuples\<close>

fun sum_sizes :: "('a \<Rightarrow> error + nat) \<Rightarrow> nat \<Rightarrow> 'a list \<Rightarrow> error + nat" where
  "sum_sizes get_size acc [] = Inr acc"
| "sum_sizes get_size acc (item # items) =
     res_bind (get_size item) (\<lambda>n. sum_sizes get_size (acc + n) items)"

fun encode_each :: "('a \<Rightarrow> nat \<Rightarrow> error + (byte list \<times> nat)) \<Rightarrow> 'a list \<Rightarrow> nat
    \<Rightarrow> error + (byte list \<times> nat)" where
  "encode_each encode [] sp = Inr ([], sp)"
| "encode_each encode (item # items) sp =
     res_bind (encode item sp) (\<lambda>(bs, left).
       res_bind (encode_each encode items left) (\<lambda>(cs, left'). Inr (bs @ cs, left')))"

fun decode_each :: "(byte list \<Rightarrow> error + ('a \<times> byte list)) \<Rightarrow> nat \<Rightarrow> byte list
    \<Rightarrow> error + ('a list \<times> byte list)" where
  "decode_each decode 0 bs = Inr ([], bs)"
| "decode_each decode (Suc n) bs =
     res_bind (decode bs) (\<lambda>(item, rest).
       res_bind (decode_each decode n rest) (\<lambda>(items, rest'). Inr (item # items, rest')))"

text \<open>\<open>std::array<T, length>\<close>: a list of exactly \<open>length\<close> values.\<close>

definition array_codec :: "nat \<Rightarrow> 'a codec \<Rightarrow> 'a list codec" where
  "array_codec n c = \<lparr>
     GetSize = sum_sizes (GetSize c) 0,
     enc = encode_each (enc c),
     dec = decode_each (dec c) n \<rparr>"

definition vector_dec :: "(byte list \<Rightarrow> error + ('a \<times> byte list)) \<Rightarrow> byte list
    \<Rightarrow> error + ('a list \<times> byte list)" where
  "vector_dec decode bs = (case bs of
       [] \<Rightarrow> Inl (Runtime_error ''Expected vector length'')
     | b # rest \<Rightarrow> decode_each decode (unat b) rest)"

definition vector_codec :: "'a codec \<Rightarrow> 'a list codec" where
  "vector_codec c = \<lparr>
     GetSize = sum_sizes (GetSize c) 1,
     enc = (\<lambda>v sp.
       if sp = 0 then Inl (Runtime_error ''Not enough space in encoding buffer to encode vector length'')
       else if length v > 255 then Inl (Runtime_error ''Unable to encode vector of size >255'')
       else res_bind (encode_each (enc c) v (sp - 1)) (\<lambda>(bs, left).
         Inr (word_of_nat (length v) # bs, left))),
     dec = vector_dec (dec c) \<rparr>"

text \<open>\<open>EncodeTupleHelper<T, pos>\<close> for \<open>pos > 0\<close>: the first component, then the rest.\<close>

definition pair_codec :: "'a codec \<Rightarrow> 'b codec \<Rightarrow> ('a \<times> 'b) codec" where
  "pair_codec a b = \<lparr>
     GetSize = (\<lambda>(x, y). res_bind (GetSize a x) (\<lambda>m. res_bind (GetSize b y) (\<lambda>n. Inr (m + n)))),
     enc = (\<lambda>(x, y) sp. res_bind (enc a x sp) (\<lambda>(bs, left).
       res_bind (enc b y left) (\<lambda>(cs, left'). Inr (bs @ cs, left')))),
     dec = (\<lambda>bs. res_bind (dec a bs) (\<lambda>(x, rest).
       res_bind (dec b rest) (\<lambda>(y, rest'). Inr ((x, y), rest')))) \<rparr>"

definition array_ok :: "nat \<Rightarrow> ('a \<Rightarrow> bool) \<Rightarrow> 'a list \<Rightarrow> bool" where
  "array_ok n ok xs \<longleftrightarrow> length xs = n \<and> list_all ok xs"

definition array_img :: "('a \<Rightarrow> byte list) \<Rightarrow> 'a list \<Rightarrow> byte list" where
  "array_img img xs = concat (map img xs)"

definition vector_ok :: "('a \<Rightarrow> bool) \<Rightarrow> 'a list \<Rightarrow> bool" where
  "vector_ok ok xs \<longleftrightarrow> length xs \<le> 255 \<and> list_all ok xs"

definition vector_img :: "('a \<Rightarrow> byte list) \<Rightarrow> 'a list \<Rightarrow> byte list" where
  "vector_img img xs = word_of_nat (length xs) # concat (map img xs)"

definition pair_ok :: "('a \<Rightarrow> bool) \<Rightarrow> ('b \<Rightarrow> bool) \<Rightarrow> 'a \<times> 'b \<Rightarrow> bool" where
  "pair_ok oka okb p \<longleftrightarrow> oka (fst p) \<and> okb (snd p)"

definition pair_img :: "('a \<Rightarrow> byte list) \<Rightarrow> ('b \<Rightarrow> byte list) \<Rightarrow> 'a \<times> 'b \<Rightarrow> byte list" where
  "pair_img imga imgb p = imga (fst p) @ imgb (snd p)"

lemmas image_defs = array_ok_def array_img_def vector_ok_def vector_img_def pair_ok_def pair_img_def

lemma unat_vector_length: "n \<le> 255 \<Longrightarrow> unat (word_of_nat n :: byte) = n"
  by (simp add: unat_of_nat)

context codec_laws begin

lemma sum_sizes_img:
  "list_all ok xs \<Longrightarrow> sum_sizes (GetSize c) n xs = Inr (n + length (concat (map img xs)))"
  by (induction xs arbitrary: n) (auto simp: size_law)

lemma encode_each_img:
  "list_all ok xs \<Longrightarrow> length (concat (map img xs)) \<le> sp \<Longrightarrow>
   encode_each (enc c) xs sp = Inr (concat (map img xs), sp - length (concat (map img xs)))"
proof (induction xs arbitrary: sp)
  case (Cons x xs)
  then have "length (img x) \<le> sp" and "length (concat (map img xs)) \<le> sp - length (img x)" by auto
  with Cons show ?case by (simp add: write_law)
qed simp

lemma encode_each_overflow:
  "list_all ok xs \<Longrightarrow> sp < length (concat (map img xs)) \<Longrightarrow> \<exists>e. encode_each (enc c) xs sp = Inl e"
proof (induction xs arbitrary: sp)
  case (Cons x xs)
  show ?case
  proof (cases "length (img x) \<le> sp")
    case True
    with Cons.prems have "sp - length (img x) < length (concat (map img xs))" by simp
    with Cons True show ?thesis by (auto simp: write_law res_bind_eq_Inl)
  next
    case False
    with Cons.prems overflow_law [of x sp] show ?thesis by (auto simp: res_bind_eq_Inl)
  qed
qed simp

lemma decode_each_img:
  "list_all ok xs \<Longrightarrow> decode_each (dec c) (length xs) (concat (map img xs) @ rest) = Inr (xs, rest)"
  by (induction xs) (auto simp: read_law)

lemma decode_each_consumes:
  "decode_each (dec c) n bs = Inr (xs, rest) \<Longrightarrow>
   length xs = n \<and> (\<exists>used. bs = used @ rest \<and> (\<forall>r. decode_each (dec c) n (used @ r) = Inr (xs, r)))"
proof (induction n arbitrary: bs xs)
  case (Suc n)
  then obtain x mid ys where x: "dec c bs = Inr (x, mid)"
    and ys: "decode_each (dec c) n mid = Inr (ys, rest)" and xs: "xs = x # ys"
    by (auto simp: res_bind_eq_Inr)
  from consume_law [OF x] obtain u where
    u: "bs = u @ mid" "\<And>r. dec c (u @ r) = Inr (x, r)" by blast
  from Suc.IH [OF ys] obtain w where
    w: "length ys = n" "mid = w @ rest" "\<And>r. decode_each (dec c) n (w @ r) = Inr (ys, r)" by blast
  show ?case using u w by (intro conjI exI [of _ "u @ w"]) (auto simp: xs)
qed simp

lemma array_codec_laws: "codec_laws (array_codec n c) (array_ok n ok) (array_img img)"
proof (rule codec_lawsI)
  fix bs xs rest
  assume "dec (array_codec n c) bs = Inr (xs, rest)"
  then show "\<exists>used. bs = used @ rest \<and> (\<forall>r. dec (array_codec n c) (used @ r) = Inr (xs, r))"
    using decode_each_consumes by (auto simp: array_codec_def)
qed (auto simp: array_codec_def image_defs sum_sizes_img encode_each_img encode_each_overflow
  decode_each_img)

lemma vector_codec_laws: "codec_laws (vector_codec c) (vector_ok ok) (vector_img img)"
proof (rule codec_lawsI)
  fix bs xs rest
  assume d: "dec (vector_codec c) bs = Inr (xs, rest)"
  then obtain b bs' where bs: "bs = b # bs'" by (cases bs) (auto simp: vector_codec_def vector_dec_def)
  with d have "decode_each (dec c) (unat b) bs' = Inr (xs, rest)" by (simp add: vector_codec_def vector_dec_def)
  from decode_each_consumes [OF this] obtain used where
    "bs' = used @ rest" "\<And>r. decode_each (dec c) (unat b) (used @ r) = Inr (xs, r)" by blast
  with bs show "\<exists>used. bs = used @ rest \<and> (\<forall>r. dec (vector_codec c) (used @ r) = Inr (xs, r))"
    by (intro exI [of _ "b # used"]) (simp add: vector_codec_def vector_dec_def)
next
  fix xs and sp :: nat
  assume ok: "vector_ok ok xs" and sp: "sp < length (vector_img img xs)"
  show "\<exists>e. enc (vector_codec c) xs sp = Inl e"
  proof (cases sp)
    case (Suc k)
    with ok sp encode_each_overflow [of xs k] show ?thesis
      by (auto simp: vector_codec_def vector_dec_def image_defs)
  qed (simp add: vector_codec_def vector_dec_def)
qed (auto simp: vector_codec_def vector_dec_def image_defs sum_sizes_img encode_each_img decode_each_img
  unat_vector_length)

lemma pair_codec_laws:
  assumes b: "codec_laws cb okb imgb"
  shows "codec_laws (pair_codec c cb) (pair_ok ok okb) (pair_img img imgb)"
proof (rule codec_lawsI)
  fix p and sp :: nat
  assume p: "pair_ok ok okb p" and sp: "sp < length (pair_img img imgb p)"
  obtain x y where xy: "p = (x, y)" by (cases p)
  show "\<exists>e. enc (pair_codec c cb) p sp = Inl e"
  proof (cases "length (img x) \<le> sp")
    case True
    with p sp xy have "sp - length (img x) < length (imgb y)" "okb y" by (auto simp: image_defs)
    with True p xy codec_laws.overflow_law [OF b, of y "sp - length (img x)"] show ?thesis
      by (auto simp: pair_codec_def image_defs write_law)
  next
    case False
    with p xy overflow_law [of x sp] show ?thesis by (auto simp: pair_codec_def image_defs)
  qed
next
  fix bs p rest
  assume "dec (pair_codec c cb) bs = Inr (p, rest)"
  then obtain x y mid where d: "dec c bs = Inr (x, mid)" "dec cb mid = Inr (y, rest)" "p = (x, y)"
    by (auto simp: pair_codec_def res_bind_eq_Inr)
  from consume_law [OF d(1)] codec_laws.consume_law [OF b d(2)] obtain u w where
    u: "bs = u @ mid" "\<And>r. dec c (u @ r) = Inr (x, r)" and
    w: "mid = w @ rest" "\<And>r. dec cb (w @ r) = Inr (y, r)" by blast
  then show "\<exists>used. bs = used @ rest \<and> (\<forall>r. dec (pair_codec c cb) (used @ r) = Inr (p, r))"
    by (intro exI [of _ "u @ w"]) (simp add: pair_codec_def d(3))
qed (auto simp: pair_codec_def image_defs size_law write_law read_law
  codec_laws.size_law [OF b] codec_laws.write_law [OF b] codec_laws.read_law [OF b])

end

context canonical_codec begin

lemma decode_each_canonical:
  "decode_each (dec c) n bs = Inr (xs, rest) \<Longrightarrow>
   length xs = n \<and> list_all ok xs \<and> bs = concat (map img xs) @ rest"
  by (induction n arbitrary: bs xs) (fastforce simp: res_bind_eq_Inr dest: canonical_law)+

lemma array_codec_canonical: "canonical_codec (array_codec n c) (array_ok n ok) (array_img img)"
  by (rule canonical_codecI [OF array_codec_laws])
    (auto simp: array_codec_def image_defs dest: decode_each_canonical)

lemma vector_codec_canonical: "canonical_codec (vector_codec c) (vector_ok ok) (vector_img img)"
proof (rule canonical_codecI [OF vector_codec_laws])
  fix bs xs rest
  assume d: "dec (vector_codec c) bs = Inr (xs, rest)"
  then obtain b bs' where bs: "bs = b # bs'" by (cases bs) (auto simp: vector_codec_def vector_dec_def)
  with d have "decode_each (dec c) (unat b) bs' = Inr (xs, rest)" by (simp add: vector_codec_def vector_dec_def)
  from decode_each_canonical [OF this] bs show "vector_ok ok xs \<and> bs = vector_img img xs @ rest"
    using unat_byte_less [of b] by (auto simp: image_defs)
qed

lemma pair_codec_canonical:
  assumes b: "canonical_codec cb okb imgb"
  shows "canonical_codec (pair_codec c cb) (pair_ok ok okb) (pair_img img imgb)"
  by (rule canonical_codecI [OF pair_codec_laws [OF canonical_imp_laws [OF b]]])
    (fastforce simp: pair_codec_def image_defs res_bind_eq_Inr
      dest: canonical_law canonical_codec.canonical_law [OF b])

end

interpretation bytes: canonical_codec "vector_codec unsigned_codec :: byte list codec"
  "vector_ok (\<lambda>_. True)" "vector_img (le_bytes 1)"
  by (rule uint8.vector_codec_canonical)

interpretation clusters: canonical_codec "vector_codec unsigned_codec :: 16 word list codec"
  "vector_ok (\<lambda>_. True)" "vector_img (le_bytes 2)"
  by (rule uint16.vector_codec_canonical)

section \<open>The wire formats\<close>

text \<open>
  An unsigned integer is encoded as its bytes, least significant first, and these bytes are
  the only ones that decode to it.
\<close>

theorem integer_format:
  assumes "8 dvd LENGTH('a)"
  shows "Encode unsigned_codec (v :: 'a::len word) = Inr (le_bytes (LENGTH('a) div 8) v)
    \<and> (Decode unsigned_codec bs = Inr v \<longleftrightarrow> bs = le_bytes (LENGTH('a) div 8) v)"
  using canonical_codec.decode_eq_iff [OF unsigned_codec_canonical [OF assms], of bs v]
    codec_laws.encode_img [OF canonical_imp_laws [OF unsigned_codec_canonical [OF assms]], of v]
  by simp

theorem integer_format_witness:
  "Encode unsigned_codec (0xFFF8 :: 16 word) = Inr (le_bytes 2 (0xFFF8 :: 16 word))"
  using integer_format [where 'a = 16] by simp

lemma concat_le_bytes_1: "concat (map (le_bytes 1) v) = (v :: byte list)"
  by (induction v) simp_all

lemma sum_sizes_bytes: "sum_sizes (GetSize unsigned_codec) n (v :: byte list) = Inr (n + length v)"
  by (induction v arbitrary: n) (simp_all add: codec_simps)

text \<open>
  A byte vector is encoded as its length in one byte and its bytes, a vector of more than 255
  bytes is refused, and a byte sequence is decoded to a vector exactly when it is the encoding.
\<close>

theorem byte_vector_format:
  "Encode (vector_codec unsigned_codec) (v :: byte list)
     = (if length v \<le> 255 then Inr (word_of_nat (length v) # v)
        else Inl (Runtime_error ''Unable to encode vector of size >255''))
   \<and> (Decode (vector_codec unsigned_codec) bs = Inr v \<longleftrightarrow> length v \<le> 255 \<and> bs = word_of_nat (length v) # v)"
proof -
  have ok: "vector_ok (\<lambda>_. True) v \<longleftrightarrow> length v \<le> 255"
    by (simp add: vector_ok_def list_all_iff)
  have img: "vector_img (le_bytes 1) v = word_of_nat (length v) # v"
    using concat_le_bytes_1 [of v] by (simp add: vector_img_def)
  have "Encode (vector_codec unsigned_codec) v = Inl (Runtime_error ''Unable to encode vector of size >255'')"
    if "\<not> length v \<le> 255"
    using that by (simp add: Encode_def vector_codec_def sum_sizes_bytes)
  with ok img bytes.encode_img [of v] bytes.decode_eq_iff [of bs v] show ?thesis by simp
qed

end
