(* ===== verification/Text.thy ===== *)
theory Text
  imports Prelude
begin

text \<open>
  The parts of the C++ library that turn numbers into text and back, as the hub uses them:
  stream output and \<open>boost::format\<close> of unsigned numbers in decimal and hexadecimal
  (\<open>%d\<close>, \<open>%X\<close>, \<open>%0nX\<close>), and \<open>std::stoul\<close> / \<open>std::stoull\<close> with the
  rules of C's \<open>strtoul\<close> (white space, sign, base prefix, position of the first character not
  used). \<open>unsigned long\<close> has 64 bits, as on the 64-bit Linux targets of the build.

  Characters are bytes. Strings are compared and copied bytewise, as \<open>std::string\<close> does.
\<close>

section \<open>Digits\<close>

fun nat_digits :: "nat \<Rightarrow> nat \<Rightarrow> nat list" where
  "nat_digits base n = (if n < base \<or> base < 2 then [n] else nat_digits base (n div base) @ [n mod base])"

declare nat_digits.simps [simp del]

definition digit_char :: "nat \<Rightarrow> char" where
  "digit_char d = (if d < 10 then char_of (48 + d) else char_of (55 + d))"

definition lower_digit_char :: "nat \<Rightarrow> char" where
  "lower_digit_char d = (if d < 10 then char_of (48 + d) else char_of (87 + d))"

definition show_dec :: "nat \<Rightarrow> string" where
  "show_dec n = map digit_char (nat_digits 10 n)"

definition show_int :: "int \<Rightarrow> string" where
  "show_int i = (if i < 0 then CHR ''-'' # show_dec (nat (- i)) else show_dec (nat i))"

definition show_hex :: "nat \<Rightarrow> string" where
  "show_hex n = map lower_digit_char (nat_digits 16 n)"

definition show_HEX :: "nat \<Rightarrow> string" where
  "show_HEX n = map digit_char (nat_digits 16 n)"

text \<open>\<open>%0wX\<close>: at least \<open>w\<close> digits, padded with zeros on the left.\<close>

definition pad_left :: "nat \<Rightarrow> string \<Rightarrow> string" where
  "pad_left w s = replicate (w - length s) (CHR ''0'') @ s"

definition show_HEX_padded :: "nat \<Rightarrow> nat \<Rightarrow> string" where
  "show_HEX_padded w n = pad_left w (show_HEX n)"

definition digit_value :: "char \<Rightarrow> nat option" where
  "digit_value c = (let k = (of_char c :: nat) in
     if 48 \<le> k \<and> k \<le> 57 then Some (k - 48)
     else if 97 \<le> k \<and> k \<le> 122 then Some (k - 87)
     else if 65 \<le> k \<and> k \<le> 90 then Some (k - 55)
     else None)"

definition is_digit_in :: "nat \<Rightarrow> char \<Rightarrow> bool" where
  "is_digit_in base c = (case digit_value c of None \<Rightarrow> False | Some d \<Rightarrow> d < base)"

definition digits_value :: "nat \<Rightarrow> nat list \<Rightarrow> nat" where
  "digits_value base ds = foldl (\<lambda>acc d. acc * base + d) 0 ds"

section \<open>\<open>std::stoul\<close>\<close>

definition is_space :: "char \<Rightarrow> bool" where
  "is_space c = (let k = (of_char c :: nat) in k = 32 \<or> (9 \<le> k \<and> k \<le> 13))"

text \<open>
  The base the digits are read in and the number of prefix characters before them. The prefix
  \<open>0x\<close> counts only when a hexadecimal digit follows it.
\<close>

definition strtoul_base :: "nat \<Rightarrow> string \<Rightarrow> nat \<times> nat" where
  "strtoul_base base s =
     (case s of
        CHR ''0'' # x # d # _ \<Rightarrow>
          if (base = 0 \<or> base = 16) \<and> (x = CHR ''x'' \<or> x = CHR ''X'') \<and> is_digit_in 16 d then (16, 2)
          else if base = 0 then (8, 0) else (base, 0)
      | CHR ''0'' # _ \<Rightarrow> if base = 0 then (8, 0) else (base, 0)
      | _ \<Rightarrow> if base = 0 then (10, 0) else (base, 0))"

definition ULONG_MAX :: nat where
  "ULONG_MAX = 2 ^ 64 - 1"

definition stoul :: "string \<Rightarrow> nat \<Rightarrow> error + (nat \<times> nat)" where
  "stoul s base =
     (let spaces = takeWhile is_space s;
          s1 = dropWhile is_space s;
          negative = (s1 \<noteq> [] \<and> hd s1 = CHR ''-'');
          signed = (s1 \<noteq> [] \<and> (hd s1 = CHR ''-'' \<or> hd s1 = CHR ''+''));
          s2 = (if signed then tl s1 else s1);
          (b, prefix) = strtoul_base base s2;
          ds = takeWhile (is_digit_in b) (drop prefix s2);
          n = digits_value b (map (the \<circ> digit_value) ds);
          end_pos = length spaces + (if signed then 1 else 0) + prefix + length ds
      in if ds = [] then Inl Invalid_argument
         else if n > ULONG_MAX then Inl Stoul_out_of_range
         else Inr (if negative then (2 ^ 64 - n) mod 2 ^ 64 else n, end_pos))"

section \<open>Printing and parsing are inverse\<close>

lemma digits_value_append: "digits_value b (xs @ [d]) = digits_value b xs * b + d"
  by (simp add: digits_value_def)

lemma digits_value_nat_digits: "2 \<le> b \<Longrightarrow> digits_value b (nat_digits b n) = n"
proof (induction b n rule: nat_digits.induct)
  case (1 b n)
  show ?case
  proof (cases "n < b")
    case True
    then show ?thesis by (simp add: nat_digits.simps [of b n] digits_value_def)
  next
    case False
    with 1 show ?thesis by (simp add: nat_digits.simps [of b n] digits_value_append)
  qed
qed

lemma nat_digits_bound: "2 \<le> b \<Longrightarrow> d \<in> set (nat_digits b n) \<Longrightarrow> d < b"
proof (induction b n rule: nat_digits.induct)
  case (1 b n)
  then show ?case by (cases "n < b") (auto simp: nat_digits.simps [of b n])
qed

lemma nat_digits_nonempty: "nat_digits b n \<noteq> []"
  by (simp add: nat_digits.simps [of b n])

lemma length_nat_digits_le: "2 \<le> b \<Longrightarrow> n < b ^ Suc k \<Longrightarrow> length (nat_digits b n) \<le> Suc k"
proof (induction k arbitrary: n)
  case 0
  then show ?case by (simp add: nat_digits.simps [of b n])
next
  case (Suc k)
  show ?case
  proof (cases "n < b")
    case True
    then show ?thesis by (simp add: nat_digits.simps [of b n])
  next
    case False
    have "n div b < b ^ Suc k"
      using Suc.prems by (simp add: less_mult_imp_div_less mult.commute)
    with Suc False show ?thesis by (simp add: nat_digits.simps [of b n])
  qed
qed

lemma of_char_digit_char:
  "d < 16 \<Longrightarrow> of_char (digit_char d) = (if d < 10 then 48 + d else 55 + d)"
  by (simp add: digit_char_def of_char_of)

lemma digit_value_digit_char: "d < 16 \<Longrightarrow> digit_value (digit_char d) = Some d"
  by (simp add: digit_value_def of_char_digit_char)

lemma digits_of_shown:
  assumes "list_all (\<lambda>d. d < b) ds" "b \<le> 16"
  shows "map (the \<circ> digit_value) (map digit_char ds) = ds"
    and "list_all (is_digit_in b) (map digit_char ds)"
  using assms
  by (induction ds) (auto simp: digit_value_digit_char is_digit_in_def)

lemma takeWhile_all: "list_all P xs \<Longrightarrow> takeWhile P xs = xs"
  by (induction xs) auto

lemma special_digit_values:
  "digit_value (CHR ''-'') = None" "digit_value (CHR ''+'') = None"
  "digit_value (CHR ''x'') = Some 33" "digit_value (CHR ''X'') = Some 33"
  by (simp_all add: digit_value_def)

lemma digit_char_not_special:
  assumes "d < 16"
  shows "\<not> is_space (digit_char d)" "digit_char d \<noteq> CHR ''-''" "digit_char d \<noteq> CHR ''+''"
    "digit_char d \<noteq> CHR ''x''" "digit_char d \<noteq> CHR ''X''"
proof -
  show "\<not> is_space (digit_char d)" using assms by (auto simp: is_space_def of_char_digit_char)
  show "digit_char d \<noteq> CHR ''-''" "digit_char d \<noteq> CHR ''+''"
    "digit_char d \<noteq> CHR ''x''" "digit_char d \<noteq> CHR ''X''"
    using digit_value_digit_char [OF assms] special_digit_values assms by auto
qed

text \<open>
  Reading digits in an explicit base gives their value: no prefix is skipped, since a digit is
  never an \<open>x\<close>.
\<close>

lemma strtoul_base_digits:
  assumes "\<forall>d \<in> set ds. d < 16" "base \<noteq> 0"
  shows "strtoul_base base (map digit_char ds) = (base, 0)"
proof (cases ds)
  case (Cons d1 ds1)
  show ?thesis
  proof (cases ds1)
    case (Cons d2 ds2)
    then have "digit_char d2 \<noteq> CHR ''x''" "digit_char d2 \<noteq> CHR ''X''"
      using assms(1) \<open>ds = d1 # ds1\<close> by (simp_all add: digit_char_not_special)
    with assms(2) show ?thesis
      by (simp add: strtoul_base_def \<open>ds = d1 # ds1\<close> Cons split: list.split char.split bool.split)
  qed (simp add: strtoul_base_def \<open>ds = d1 # ds1\<close> assms(2) split: list.split char.split bool.split)
qed (simp add: strtoul_base_def assms(2))

lemma stoul_digits:
  assumes ds: "\<forall>d \<in> set ds. d < base" "ds \<noteq> []"
    and base: "2 \<le> base" "base \<le> 16"
    and max: "digits_value base ds \<le> ULONG_MAX"
  shows "stoul (map digit_char ds) base = Inr (digits_value base ds, length ds)"
proof -
  define cs where "cs = map digit_char ds"
  obtain d ds' where ds': "ds = d # ds'" and d: "d < 16"
    using ds base by (cases ds) auto
  have "\<forall>d \<in> set ds. d < 16" using ds(1) base(2) by auto
  then have b: "strtoul_base base cs = (base, 0)"
    using base by (simp only: cs_def strtoul_base_digits)
  have sp: "takeWhile is_space cs = []" "dropWhile is_space cs = cs"
    using digit_char_not_special(1) [OF d] by (simp_all add: ds' cs_def)
  have hd: "hd cs \<noteq> CHR ''-''" "hd cs \<noteq> CHR ''+''"
    using digit_char_not_special(2,3) [OF d] by (simp_all add: ds' cs_def)
  have digits: "takeWhile (is_digit_in base) cs = cs"
    using digits_of_shown(2) [of base ds] ds(1) base(2)
    by (intro takeWhile_all) (simp add: cs_def list_all_iff)
  have val: "map (the \<circ> digit_value) cs = ds" and ne: "cs \<noteq> []" and len: "length cs = length ds"
    using digits_of_shown(1) [of base ds] ds base(2) by (simp_all add: cs_def list_all_iff)
  have "stoul cs base = Inr (digits_value base ds, length ds)"
    using hd max ne by (simp add: stoul_def sp b digits val len Let_def)
  then show ?thesis by (simp only: cs_def)
qed

lemma nat_digits_all: "2 \<le> b \<Longrightarrow> \<forall>d \<in> set (nat_digits b n). d < b"
  by (simp add: nat_digits_bound)

lemma stoul_show_dec: "n \<le> ULONG_MAX \<Longrightarrow> stoul (show_dec n) 10 = Inr (n, length (show_dec n))"
  using stoul_digits [OF nat_digits_all nat_digits_nonempty, of 10 n]
  by (simp add: show_dec_def digits_value_nat_digits)

lemma digits_value_zeros: "digits_value b (replicate k 0 @ ds) = digits_value b ds"
  by (induction k) (auto simp: digits_value_def)

lemma digit_char_0: "digit_char 0 = CHR ''0''"
  by code_simp

definition padded_digits :: "nat \<Rightarrow> nat \<Rightarrow> nat list" where
  "padded_digits w n = replicate (w - length (nat_digits 16 n)) 0 @ nat_digits 16 n"

lemma show_HEX_padded_digits: "show_HEX_padded w n = map digit_char (padded_digits w n)"
  by (simp add: show_HEX_padded_def pad_left_def show_HEX_def padded_digits_def digit_char_0)

lemma padded_digits_facts:
  "\<forall>d \<in> set (padded_digits w n). d < 16" "padded_digits w n \<noteq> []"
  "digits_value 16 (padded_digits w n) = n"
  by (auto simp: padded_digits_def nat_digits_all nat_digits_nonempty digits_value_zeros
    digits_value_nat_digits)

lemma stoul_show_HEX_padded:
  assumes "n \<le> ULONG_MAX"
  shows "stoul (show_HEX_padded w n) 16 = Inr (n, length (show_HEX_padded w n))"
  using stoul_digits [OF padded_digits_facts(1,2), of w n] assms
  by (simp add: show_HEX_padded_digits padded_digits_facts(3))

lemma length_show_HEX_padded: "n < 16 ^ Suc k \<Longrightarrow> length (show_HEX_padded (Suc k) n) = Suc k"
  using length_nat_digits_le [of 16 n k] by (simp add: show_HEX_padded_digits padded_digits_def)

end
