(* ===== verification/ZnpEnums.thy ===== *)
theory ZnpEnums
  imports Text
begin

text \<open>
  The enumerations of \<^verbatim>\<open>src/znp/znp.h\<close> and the stream operators that print them
  (\<^verbatim>\<open>src/znp/znp.cpp\<close>). An \<open>enum class E : uintN_t\<close> is the type of \<open>N\<close>-bit words: a cast
  from a byte that names no enumerator keeps the byte, as in C++. Each enumerator is an
  abbreviation for its number. An enumeration without a declared underlying type is an
  \<open>int\<close> (32 bits).
\<close>

type_synonym ZnpCommandType = "32 word"

abbreviation (input) ZnpCommandType_POLL :: ZnpCommandType where "ZnpCommandType_POLL \<equiv> 0"
abbreviation (input) ZnpCommandType_SREQ :: ZnpCommandType where "ZnpCommandType_SREQ \<equiv> 2"
abbreviation (input) ZnpCommandType_AREQ :: ZnpCommandType where "ZnpCommandType_AREQ \<equiv> 4"
abbreviation (input) ZnpCommandType_SRSP :: ZnpCommandType where "ZnpCommandType_SRSP \<equiv> 6"

type_synonym ZnpSubsystem = "32 word"

abbreviation (input) ZnpSubsystem_RPC_Error :: ZnpSubsystem where "ZnpSubsystem_RPC_Error \<equiv> 0"
abbreviation (input) ZnpSubsystem_SYS :: ZnpSubsystem where "ZnpSubsystem_SYS \<equiv> 1"
abbreviation (input) ZnpSubsystem_MAC :: ZnpSubsystem where "ZnpSubsystem_MAC \<equiv> 2"
abbreviation (input) ZnpSubsystem_NWK :: ZnpSubsystem where "ZnpSubsystem_NWK \<equiv> 3"
abbreviation (input) ZnpSubsystem_AF :: ZnpSubsystem where "ZnpSubsystem_AF \<equiv> 4"
abbreviation (input) ZnpSubsystem_ZDO :: ZnpSubsystem where "ZnpSubsystem_ZDO \<equiv> 5"
abbreviation (input) ZnpSubsystem_SAPI :: ZnpSubsystem where "ZnpSubsystem_SAPI \<equiv> 6"
abbreviation (input) ZnpSubsystem_UTIL :: ZnpSubsystem where "ZnpSubsystem_UTIL \<equiv> 7"
abbreviation (input) ZnpSubsystem_DEBUG :: ZnpSubsystem where "ZnpSubsystem_DEBUG \<equiv> 8"
abbreviation (input) ZnpSubsystem_APP :: ZnpSubsystem where "ZnpSubsystem_APP \<equiv> 9"

type_synonym ZnpStatus = "8 word"

abbreviation (input) ZnpStatus_Success :: ZnpStatus where "ZnpStatus_Success \<equiv> 0x00"
abbreviation (input) ZnpStatus_Failure :: ZnpStatus where "ZnpStatus_Failure \<equiv> 0x01"
abbreviation (input) ZnpStatus_InvalidParameter :: ZnpStatus where "ZnpStatus_InvalidParameter \<equiv> 0x02"
abbreviation (input) ZnpStatus_MemError :: ZnpStatus where "ZnpStatus_MemError \<equiv> 0x03"
abbreviation (input) ZnpStatus_BufferFull :: ZnpStatus where "ZnpStatus_BufferFull \<equiv> 0x11"

type_synonym AddrMode = "8 word"

abbreviation (input) AddrMode_NotPresent :: AddrMode where "AddrMode_NotPresent \<equiv> 0"
abbreviation (input) AddrMode_Group :: AddrMode where "AddrMode_Group \<equiv> 1"
abbreviation (input) AddrMode_ShortAddress :: AddrMode where "AddrMode_ShortAddress \<equiv> 2"
abbreviation (input) AddrMode_IEEEAddress :: AddrMode where "AddrMode_IEEEAddress \<equiv> 3"
abbreviation (input) AddrMode_Broadcast :: AddrMode where "AddrMode_Broadcast \<equiv> 0xff"

type_synonym SysCommand = "8 word"

abbreviation (input) SysCommand_RESET :: SysCommand where "SysCommand_RESET \<equiv> 0x00"
abbreviation (input) SysCommand_PING :: SysCommand where "SysCommand_PING \<equiv> 0x01"
abbreviation (input) SysCommand_VERSION :: SysCommand where "SysCommand_VERSION \<equiv> 0x02"
abbreviation (input) SysCommand_SET_EXTADDR :: SysCommand where "SysCommand_SET_EXTADDR \<equiv> 0x03"
abbreviation (input) SysCommand_GET_EXTADDR :: SysCommand where "SysCommand_GET_EXTADDR \<equiv> 0x04"
abbreviation (input) SysCommand_RAM_READ :: SysCommand where "SysCommand_RAM_READ \<equiv> 0x05"
abbreviation (input) SysCommand_RAM_WRITE :: SysCommand where "SysCommand_RAM_WRITE \<equiv> 0x06"
abbreviation (input) SysCommand_OSAL_NV_ITEM_INIT :: SysCommand where "SysCommand_OSAL_NV_ITEM_INIT \<equiv> 0x07"
abbreviation (input) SysCommand_OSAL_NV_READ :: SysCommand where "SysCommand_OSAL_NV_READ \<equiv> 0x08"
abbreviation (input) SysCommand_OSAL_NV_WRITE :: SysCommand where "SysCommand_OSAL_NV_WRITE \<equiv> 0x09"
abbreviation (input) SysCommand_OSAL_START_TIMER :: SysCommand where "SysCommand_OSAL_START_TIMER \<equiv> 0x0a"
abbreviation (input) SysCommand_OSAL_STOP_TIMER :: SysCommand where "SysCommand_OSAL_STOP_TIMER \<equiv> 0x0b"
abbreviation (input) SysCommand_RANDOM :: SysCommand where "SysCommand_RANDOM \<equiv> 0x0c"
abbreviation (input) SysCommand_ADC_READ :: SysCommand where "SysCommand_ADC_READ \<equiv> 0x0d"
abbreviation (input) SysCommand_GPIO :: SysCommand where "SysCommand_GPIO \<equiv> 0x0e"
abbreviation (input) SysCommand_STACK_TUNE :: SysCommand where "SysCommand_STACK_TUNE \<equiv> 0x0f"
abbreviation (input) SysCommand_SET_TIME :: SysCommand where "SysCommand_SET_TIME \<equiv> 0x10"
abbreviation (input) SysCommand_GET_TIME :: SysCommand where "SysCommand_GET_TIME \<equiv> 0x11"
abbreviation (input) SysCommand_OSAL_NV_DELETE :: SysCommand where "SysCommand_OSAL_NV_DELETE \<equiv> 0x12"
abbreviation (input) SysCommand_OSAL_NV_LENGTH :: SysCommand where "SysCommand_OSAL_NV_LENGTH \<equiv> 0x13"
abbreviation (input) SysCommand_TEST_RF :: SysCommand where "SysCommand_TEST_RF \<equiv> 0x40"
abbreviation (input) SysCommand_TEST_LOOPBACK :: SysCommand where "SysCommand_TEST_LOOPBACK \<equiv> 0x41"
abbreviation (input) SysCommand_RESET_IND :: SysCommand where "SysCommand_RESET_IND \<equiv> 0x80"
abbreviation (input) SysCommand_OSAL_TIMER_EXPIRED :: SysCommand where "SysCommand_OSAL_TIMER_EXPIRED \<equiv> 0x81"

type_synonym AfCommand = "8 word"

abbreviation (input) AfCommand_REGISTER :: AfCommand where "AfCommand_REGISTER \<equiv> 0x00"
abbreviation (input) AfCommand_DATA_REQUEST :: AfCommand where "AfCommand_DATA_REQUEST \<equiv> 0x01"
abbreviation (input) AfCommand_DATA_REQUEST_EXT :: AfCommand where "AfCommand_DATA_REQUEST_EXT \<equiv> 0x02"
abbreviation (input) AfCommand_DATA_REQUEST_SRC_RTG :: AfCommand where "AfCommand_DATA_REQUEST_SRC_RTG \<equiv> 0x03"
abbreviation (input) AfCommand_INTER_PAN_CTL :: AfCommand where "AfCommand_INTER_PAN_CTL \<equiv> 0x10"
abbreviation (input) AfCommand_DATA_STORE :: AfCommand where "AfCommand_DATA_STORE \<equiv> 0x11"
abbreviation (input) AfCommand_DATA_RETRIEVE :: AfCommand where "AfCommand_DATA_RETRIEVE \<equiv> 0x12"
abbreviation (input) AfCommand_APSF_CONFIG_SET :: AfCommand where "AfCommand_APSF_CONFIG_SET \<equiv> 0x13"
abbreviation (input) AfCommand_DATA_CONFIRM :: AfCommand where "AfCommand_DATA_CONFIRM \<equiv> 0x80"
abbreviation (input) AfCommand_REFLECT_ERROR :: AfCommand where "AfCommand_REFLECT_ERROR \<equiv> 0x83"
abbreviation (input) AfCommand_INCOMING_MSG :: AfCommand where "AfCommand_INCOMING_MSG \<equiv> 0x81"
abbreviation (input) AfCommand_INCOMING_MSG_EXT :: AfCommand where "AfCommand_INCOMING_MSG_EXT \<equiv> 0x82"

type_synonym ZdoCommand = "8 word"

abbreviation (input) ZdoCommand_NWK_ADDR_REQ :: ZdoCommand where "ZdoCommand_NWK_ADDR_REQ \<equiv> 0x00"
abbreviation (input) ZdoCommand_IEEE_ADDR_REQ :: ZdoCommand where "ZdoCommand_IEEE_ADDR_REQ \<equiv> 0x01"
abbreviation (input) ZdoCommand_NODE_DESC_REQ :: ZdoCommand where "ZdoCommand_NODE_DESC_REQ \<equiv> 0x02"
abbreviation (input) ZdoCommand_POWER_DESC_REQ :: ZdoCommand where "ZdoCommand_POWER_DESC_REQ \<equiv> 0x03"
abbreviation (input) ZdoCommand_SIMPLE_DESC_REQ :: ZdoCommand where "ZdoCommand_SIMPLE_DESC_REQ \<equiv> 0x04"
abbreviation (input) ZdoCommand_ACTIVE_EP_REQ :: ZdoCommand where "ZdoCommand_ACTIVE_EP_REQ \<equiv> 0x05"
abbreviation (input) ZdoCommand_MATCH_DESC_REQ :: ZdoCommand where "ZdoCommand_MATCH_DESC_REQ \<equiv> 0x06"
abbreviation (input) ZdoCommand_COMPLEX_DESC_REQ :: ZdoCommand where "ZdoCommand_COMPLEX_DESC_REQ \<equiv> 0x07"
abbreviation (input) ZdoCommand_USER_DESC_REQ :: ZdoCommand where "ZdoCommand_USER_DESC_REQ \<equiv> 0x08"
abbreviation (input) ZdoCommand_DEVICE_ANNCE :: ZdoCommand where "ZdoCommand_DEVICE_ANNCE \<equiv> 0x0a"
abbreviation (input) ZdoCommand_USER_DESC_SET :: ZdoCommand where "ZdoCommand_USER_DESC_SET \<equiv> 0x0b"
abbreviation (input) ZdoCommand_SERVER_DISC_REQ :: ZdoCommand where "ZdoCommand_SERVER_DISC_REQ \<equiv> 0x0c"
abbreviation (input) ZdoCommand_END_DEVICE_BIND_REQ :: ZdoCommand where "ZdoCommand_END_DEVICE_BIND_REQ \<equiv> 0x20"
abbreviation (input) ZdoCommand_BIND_REQ :: ZdoCommand where "ZdoCommand_BIND_REQ \<equiv> 0x21"
abbreviation (input) ZdoCommand_UNBIND_REQ :: ZdoCommand where "ZdoCommand_UNBIND_REQ \<equiv> 0x22"
abbreviation (input) ZdoCommand_SET_LINK_KEY :: ZdoCommand where "ZdoCommand_SET_LINK_KEY \<equiv> 0x23"
abbreviation (input) ZdoCommand_REMOVE_LINK_KEY :: ZdoCommand where "ZdoCommand_REMOVE_LINK_KEY \<equiv> 0x24"
abbreviation (input) ZdoCommand_GET_LINK_KEY :: ZdoCommand where "ZdoCommand_GET_LINK_KEY \<equiv> 0x25"
abbreviation (input) ZdoCommand_MGMT_NWK_DISC_REQ :: ZdoCommand where "ZdoCommand_MGMT_NWK_DISC_REQ \<equiv> 0x30"
abbreviation (input) ZdoCommand_MGMT_LQI_REQ :: ZdoCommand where "ZdoCommand_MGMT_LQI_REQ \<equiv> 0x31"
abbreviation (input) ZdoCommand_MGMT_RTQ_REQ :: ZdoCommand where "ZdoCommand_MGMT_RTQ_REQ \<equiv> 0x32"
abbreviation (input) ZdoCommand_MGMT_BIND_REQ :: ZdoCommand where "ZdoCommand_MGMT_BIND_REQ \<equiv> 0x33"
abbreviation (input) ZdoCommand_MGMT_LEAVE_REQ :: ZdoCommand where "ZdoCommand_MGMT_LEAVE_REQ \<equiv> 0x34"
abbreviation (input) ZdoCommand_MGMT_DIRECT_JOIN_REQ :: ZdoCommand where "ZdoCommand_MGMT_DIRECT_JOIN_REQ \<equiv> 0x35"
abbreviation (input) ZdoCommand_MGMT_PERMIT_JOIN_REQ :: ZdoCommand where "ZdoCommand_MGMT_PERMIT_JOIN_REQ \<equiv> 0x36"
abbreviation (input) ZdoCommand_MGMT_NWK_UPDATE_REQ :: ZdoCommand where "ZdoCommand_MGMT_NWK_UPDATE_REQ \<equiv> 0x37"
abbreviation (input) ZdoCommand_MSG_CB_REGISTER :: ZdoCommand where "ZdoCommand_MSG_CB_REGISTER \<equiv> 0x3e"
abbreviation (input) ZdoCommand_MGS_CB_REMOVE :: ZdoCommand where "ZdoCommand_MGS_CB_REMOVE \<equiv> 0x3f"
abbreviation (input) ZdoCommand_STARTUP_FROM_APP :: ZdoCommand where "ZdoCommand_STARTUP_FROM_APP \<equiv> 0x40"
abbreviation (input) ZdoCommand_AUTO_FIND_DESTINATION :: ZdoCommand where "ZdoCommand_AUTO_FIND_DESTINATION \<equiv> 0x41"
abbreviation (input) ZdoCommand_EXT_REMOVE_GROUP :: ZdoCommand where "ZdoCommand_EXT_REMOVE_GROUP \<equiv> 0x47"
abbreviation (input) ZdoCommand_EXT_REMOVE_ALL_GROUP :: ZdoCommand where "ZdoCommand_EXT_REMOVE_ALL_GROUP \<equiv> 0x48"
abbreviation (input) ZdoCommand_EXT_FIND_ALL_GROUPS_ENDPOINT :: ZdoCommand where "ZdoCommand_EXT_FIND_ALL_GROUPS_ENDPOINT \<equiv> 0x49"
abbreviation (input) ZdoCommand_EXT_FIND_GROUP :: ZdoCommand where "ZdoCommand_EXT_FIND_GROUP \<equiv> 0x4a"
abbreviation (input) ZdoCommand_EXT_ADD_GROUP :: ZdoCommand where "ZdoCommand_EXT_ADD_GROUP \<equiv> 0x4b"
abbreviation (input) ZdoCommand_EXT_COUNT_ALL_GROUPS :: ZdoCommand where "ZdoCommand_EXT_COUNT_ALL_GROUPS \<equiv> 0x4c"
abbreviation (input) ZdoCommand_NWK_ADDR_RSP :: ZdoCommand where "ZdoCommand_NWK_ADDR_RSP \<equiv> 0x80"
abbreviation (input) ZdoCommand_IEEE_ADDR_RSP :: ZdoCommand where "ZdoCommand_IEEE_ADDR_RSP \<equiv> 0x81"
abbreviation (input) ZdoCommand_NODE_DESC_RSP :: ZdoCommand where "ZdoCommand_NODE_DESC_RSP \<equiv> 0x82"
abbreviation (input) ZdoCommand_POWER_DESC_RSP :: ZdoCommand where "ZdoCommand_POWER_DESC_RSP \<equiv> 0x83"
abbreviation (input) ZdoCommand_SIMPLE_DESC_RSP :: ZdoCommand where "ZdoCommand_SIMPLE_DESC_RSP \<equiv> 0x84"
abbreviation (input) ZdoCommand_ACTIVE_EP_RSP :: ZdoCommand where "ZdoCommand_ACTIVE_EP_RSP \<equiv> 0x85"
abbreviation (input) ZdoCommand_MATCH_DESC_RSP :: ZdoCommand where "ZdoCommand_MATCH_DESC_RSP \<equiv> 0x86"
abbreviation (input) ZdoCommand_COMPLEX_DESC_RSP :: ZdoCommand where "ZdoCommand_COMPLEX_DESC_RSP \<equiv> 0x87"
abbreviation (input) ZdoCommand_USER_DESC_RSP :: ZdoCommand where "ZdoCommand_USER_DESC_RSP \<equiv> 0x88"
abbreviation (input) ZdoCommand_USER_DESC_CONF :: ZdoCommand where "ZdoCommand_USER_DESC_CONF \<equiv> 0x89"
abbreviation (input) ZdoCommand_SERVER_DISC_RSP :: ZdoCommand where "ZdoCommand_SERVER_DISC_RSP \<equiv> 0x8a"
abbreviation (input) ZdoCommand_END_DEVICE_BIND_RSP :: ZdoCommand where "ZdoCommand_END_DEVICE_BIND_RSP \<equiv> 0xa0"
abbreviation (input) ZdoCommand_BIND_RSP :: ZdoCommand where "ZdoCommand_BIND_RSP \<equiv> 0xa1"
abbreviation (input) ZdoCommand_UNBIND_RSP :: ZdoCommand where "ZdoCommand_UNBIND_RSP \<equiv> 0xa2"
abbreviation (input) ZdoCommand_MGMT_NWK_DISC_RSP :: ZdoCommand where "ZdoCommand_MGMT_NWK_DISC_RSP \<equiv> 0xb0"
abbreviation (input) ZdoCommand_MGMT_LQI_RSP :: ZdoCommand where "ZdoCommand_MGMT_LQI_RSP \<equiv> 0xb1"
abbreviation (input) ZdoCommand_MGMT_RTG_RSP :: ZdoCommand where "ZdoCommand_MGMT_RTG_RSP \<equiv> 0xb2"
abbreviation (input) ZdoCommand_MGMT_BIND_RSP :: ZdoCommand where "ZdoCommand_MGMT_BIND_RSP \<equiv> 0xb3"
abbreviation (input) ZdoCommand_MGMT_LEAVE_RSP :: ZdoCommand where "ZdoCommand_MGMT_LEAVE_RSP \<equiv> 0xb4"
abbreviation (input) ZdoCommand_MGMT_DIRECT_JOIN_RSP :: ZdoCommand where "ZdoCommand_MGMT_DIRECT_JOIN_RSP \<equiv> 0xb5"
abbreviation (input) ZdoCommand_MGMT_PERMIT_JOIN_RSP :: ZdoCommand where "ZdoCommand_MGMT_PERMIT_JOIN_RSP \<equiv> 0xb6"
abbreviation (input) ZdoCommand_STATE_CHANGE_IND :: ZdoCommand where "ZdoCommand_STATE_CHANGE_IND \<equiv> 0xc0"
abbreviation (input) ZdoCommand_END_DEVICE_ANNCE_IND :: ZdoCommand where "ZdoCommand_END_DEVICE_ANNCE_IND \<equiv> 0xc1"
abbreviation (input) ZdoCommand_MATCH_DESC_RSP_SENT :: ZdoCommand where "ZdoCommand_MATCH_DESC_RSP_SENT \<equiv> 0xc2"
abbreviation (input) ZdoCommand_STATUS_ERROR_RSP :: ZdoCommand where "ZdoCommand_STATUS_ERROR_RSP \<equiv> 0xc3"
abbreviation (input) ZdoCommand_SRC_RTG_IND :: ZdoCommand where "ZdoCommand_SRC_RTG_IND \<equiv> 0xc4"
abbreviation (input) ZdoCommand_LEAVE_IND :: ZdoCommand where "ZdoCommand_LEAVE_IND \<equiv> 0xc9"
abbreviation (input) ZdoCommand_TC_DEV_IND :: ZdoCommand where "ZdoCommand_TC_DEV_IND \<equiv> 0xca"
abbreviation (input) ZdoCommand_PERMIT_JOIN_IND :: ZdoCommand where "ZdoCommand_PERMIT_JOIN_IND \<equiv> 0xcb"
abbreviation (input) ZdoCommand_MSG_CB_INCOMING :: ZdoCommand where "ZdoCommand_MSG_CB_INCOMING \<equiv> 0xff"

type_synonym SapiCommand = "8 word"

abbreviation (input) SapiCommand_START_REQUEST :: SapiCommand where "SapiCommand_START_REQUEST \<equiv> 0x00"
abbreviation (input) SapiCommand_BIND_DEVICE :: SapiCommand where "SapiCommand_BIND_DEVICE \<equiv> 0x01"
abbreviation (input) SapiCommand_ALLOW_BIND :: SapiCommand where "SapiCommand_ALLOW_BIND \<equiv> 0x02"
abbreviation (input) SapiCommand_SEND_DATA_REQUEST :: SapiCommand where "SapiCommand_SEND_DATA_REQUEST \<equiv> 0x03"
abbreviation (input) SapiCommand_READ_CONFIGURATION :: SapiCommand where "SapiCommand_READ_CONFIGURATION \<equiv> 0x04"
abbreviation (input) SapiCommand_WRITE_CONFIGURATION :: SapiCommand where "SapiCommand_WRITE_CONFIGURATION \<equiv> 0x05"
abbreviation (input) SapiCommand_GET_DEVICE_INFO :: SapiCommand where "SapiCommand_GET_DEVICE_INFO \<equiv> 0x06"
abbreviation (input) SapiCommand_FIND_DEVICE_REQUEST :: SapiCommand where "SapiCommand_FIND_DEVICE_REQUEST \<equiv> 0x07"
abbreviation (input) SapiCommand_PERMIT_JOINING_REQUEST :: SapiCommand where "SapiCommand_PERMIT_JOINING_REQUEST \<equiv> 0x08"
abbreviation (input) SapiCommand_SYSTEM_RESET :: SapiCommand where "SapiCommand_SYSTEM_RESET \<equiv> 0x09"
abbreviation (input) SapiCommand_START_CONFIRM :: SapiCommand where "SapiCommand_START_CONFIRM \<equiv> 0x80"
abbreviation (input) SapiCommand_BIND_CONFIRM :: SapiCommand where "SapiCommand_BIND_CONFIRM \<equiv> 0x81"
abbreviation (input) SapiCommand_ALLOW_BIND_CONFIRM :: SapiCommand where "SapiCommand_ALLOW_BIND_CONFIRM \<equiv> 0x82"
abbreviation (input) SapiCommand_SEND_DATA_CONFIRM :: SapiCommand where "SapiCommand_SEND_DATA_CONFIRM \<equiv> 0x83"
abbreviation (input) SapiCommand_FIND_DEVICE_CONFIRM :: SapiCommand where "SapiCommand_FIND_DEVICE_CONFIRM \<equiv> 0x85"
abbreviation (input) SapiCommand_RECEIVE_DATA_INDICATION :: SapiCommand where "SapiCommand_RECEIVE_DATA_INDICATION \<equiv> 0x87"

type_synonym UtilCommand = "8 word"

abbreviation (input) UtilCommand_GET_DEVICE_INFO :: UtilCommand where "UtilCommand_GET_DEVICE_INFO \<equiv> 0x00"
abbreviation (input) UtilCommand_GET_NV_INFO :: UtilCommand where "UtilCommand_GET_NV_INFO \<equiv> 0x01"
abbreviation (input) UtilCommand_SET_PANID :: UtilCommand where "UtilCommand_SET_PANID \<equiv> 0x02"
abbreviation (input) UtilCommand_SET_CHANNELS :: UtilCommand where "UtilCommand_SET_CHANNELS \<equiv> 0x03"
abbreviation (input) UtilCommand_SET_SECLEVEL :: UtilCommand where "UtilCommand_SET_SECLEVEL \<equiv> 0x04"
abbreviation (input) UtilCommand_SET_PRECFGKEY :: UtilCommand where "UtilCommand_SET_PRECFGKEY \<equiv> 0x05"
abbreviation (input) UtilCommand_CALLBACK_SUB_CMD :: UtilCommand where "UtilCommand_CALLBACK_SUB_CMD \<equiv> 0x06"
abbreviation (input) UtilCommand_KEY_EVENT :: UtilCommand where "UtilCommand_KEY_EVENT \<equiv> 0x07"
abbreviation (input) UtilCommand_TIME_ALIVE :: UtilCommand where "UtilCommand_TIME_ALIVE \<equiv> 0x09"
abbreviation (input) UtilCommand_LED_CONTROL :: UtilCommand where "UtilCommand_LED_CONTROL \<equiv> 0x0a"
abbreviation (input) UtilCommand_TEST_LOOPBACK :: UtilCommand where "UtilCommand_TEST_LOOPBACK \<equiv> 0x10"
abbreviation (input) UtilCommand_DATA_REQ :: UtilCommand where "UtilCommand_DATA_REQ \<equiv> 0x11"
abbreviation (input) UtilCommand_SRC_MATCH_ENABLE :: UtilCommand where "UtilCommand_SRC_MATCH_ENABLE \<equiv> 0x20"
abbreviation (input) UtilCommand_SRC_MATCH_ADD_ENTRY :: UtilCommand where "UtilCommand_SRC_MATCH_ADD_ENTRY \<equiv> 0x21"
abbreviation (input) UtilCommand_SRC_MATCH_DEL_ENTRY :: UtilCommand where "UtilCommand_SRC_MATCH_DEL_ENTRY \<equiv> 0x22"
abbreviation (input) UtilCommand_SRC_MATCH_CHECK_SRC_ADDR :: UtilCommand where "UtilCommand_SRC_MATCH_CHECK_SRC_ADDR \<equiv> 0x23"
abbreviation (input) UtilCommand_SRC_MATCH_ACK_ALL_PENDING :: UtilCommand where "UtilCommand_SRC_MATCH_ACK_ALL_PENDING \<equiv> 0x24"
abbreviation (input) UtilCommand_SRC_MATCH_CHECK_ALL_PENDING :: UtilCommand where "UtilCommand_SRC_MATCH_CHECK_ALL_PENDING \<equiv> 0x25"
abbreviation (input) UtilCommand_ADDRMGR_EXT_ADDR_LOOKUP :: UtilCommand where "UtilCommand_ADDRMGR_EXT_ADDR_LOOKUP \<equiv> 0x40"
abbreviation (input) UtilCommand_ADDRMGR_NWK_ADDR_LOOKUP :: UtilCommand where "UtilCommand_ADDRMGR_NWK_ADDR_LOOKUP \<equiv> 0x41"
abbreviation (input) UtilCommand_APSME_LINK_KEY_DATA_GET :: UtilCommand where "UtilCommand_APSME_LINK_KEY_DATA_GET \<equiv> 0x44"
abbreviation (input) UtilCommand_APSME_LINK_KEY_NV_ID_GET :: UtilCommand where "UtilCommand_APSME_LINK_KEY_NV_ID_GET \<equiv> 0x45"
abbreviation (input) UtilCommand_ASSOC_COUNT :: UtilCommand where "UtilCommand_ASSOC_COUNT \<equiv> 0x48"
abbreviation (input) UtilCommand_ASSOC_FIND_DEVICE :: UtilCommand where "UtilCommand_ASSOC_FIND_DEVICE \<equiv> 0x49"
abbreviation (input) UtilCommand_ASSOC_GET_WITH_ADDRESS :: UtilCommand where "UtilCommand_ASSOC_GET_WITH_ADDRESS \<equiv> 0x4a"
abbreviation (input) UtilCommand_APSME_REQUEST_KEY_CMD :: UtilCommand where "UtilCommand_APSME_REQUEST_KEY_CMD \<equiv> 0x4b"
abbreviation (input) UtilCommand_ZCL_KEY_EST_INIT_EST :: UtilCommand where "UtilCommand_ZCL_KEY_EST_INIT_EST \<equiv> 0x80"
abbreviation (input) UtilCommand_ZCL_KEY_EST_SIGN :: UtilCommand where "UtilCommand_ZCL_KEY_EST_SIGN \<equiv> 0x81"
abbreviation (input) UtilCommand_UTIL_SYNC_REQ :: UtilCommand where "UtilCommand_UTIL_SYNC_REQ \<equiv> 0xe0"
abbreviation (input) UtilCommand_ZCL_KEY_ESTABLISH_IND :: UtilCommand where "UtilCommand_ZCL_KEY_ESTABLISH_IND \<equiv> 0xe1"

type_synonym Capability = "16 word"

abbreviation (input) Capability_SYS :: Capability where "Capability_SYS \<equiv> 0x0001"
abbreviation (input) Capability_MAC :: Capability where "Capability_MAC \<equiv> 0x0002"
abbreviation (input) Capability_NWK :: Capability where "Capability_NWK \<equiv> 0x0004"
abbreviation (input) Capability_AF :: Capability where "Capability_AF \<equiv> 0x0008"
abbreviation (input) Capability_ZDO :: Capability where "Capability_ZDO \<equiv> 0x0010"
abbreviation (input) Capability_SAPI :: Capability where "Capability_SAPI \<equiv> 0x0020"
abbreviation (input) Capability_UTIL :: Capability where "Capability_UTIL \<equiv> 0x0040"
abbreviation (input) Capability_DEBUG :: Capability where "Capability_DEBUG \<equiv> 0x0080"
abbreviation (input) Capability_APP :: Capability where "Capability_APP \<equiv> 0x0100"
abbreviation (input) Capability_ZOAD :: Capability where "Capability_ZOAD \<equiv> 0x1000"

type_synonym ResetReason = "8 word"

abbreviation (input) ResetReason_PowerUp :: ResetReason where "ResetReason_PowerUp \<equiv> 0"
abbreviation (input) ResetReason_External :: ResetReason where "ResetReason_External \<equiv> 1"
abbreviation (input) ResetReason_Watchdog :: ResetReason where "ResetReason_Watchdog \<equiv> 2"

type_synonym ConfigurationOption = "8 word"

abbreviation (input) ConfigurationOption_STARTUP_OPTION :: ConfigurationOption where "ConfigurationOption_STARTUP_OPTION \<equiv> 0x03"
abbreviation (input) ConfigurationOption_POLL_RATE :: ConfigurationOption where "ConfigurationOption_POLL_RATE \<equiv> 0x24"
abbreviation (input) ConfigurationOption_QUEUED_POLL_RATE :: ConfigurationOption where "ConfigurationOption_QUEUED_POLL_RATE \<equiv> 0x25"
abbreviation (input) ConfigurationOption_RESPONSE_POLL_RATE :: ConfigurationOption where "ConfigurationOption_RESPONSE_POLL_RATE \<equiv> 0x26"
abbreviation (input) ConfigurationOption_POLL_FAILURE_RETRIES :: ConfigurationOption where "ConfigurationOption_POLL_FAILURE_RETRIES \<equiv> 0x29"
abbreviation (input) ConfigurationOption_INDIRECT_MSG_TIMEOUT :: ConfigurationOption where "ConfigurationOption_INDIRECT_MSG_TIMEOUT \<equiv> 0x2b"
abbreviation (input) ConfigurationOption_ROUTE_EXPIRY_TIME :: ConfigurationOption where "ConfigurationOption_ROUTE_EXPIRY_TIME \<equiv> 0x2c"
abbreviation (input) ConfigurationOption_EXTENDED_PAN_ID :: ConfigurationOption where "ConfigurationOption_EXTENDED_PAN_ID \<equiv> 0x2d"
abbreviation (input) ConfigurationOption_BCAST_RETRIES :: ConfigurationOption where "ConfigurationOption_BCAST_RETRIES \<equiv> 0x2e"
abbreviation (input) ConfigurationOption_PASSIVE_ACK_TIMEOUT :: ConfigurationOption where "ConfigurationOption_PASSIVE_ACK_TIMEOUT \<equiv> 0x2f"
abbreviation (input) ConfigurationOption_BCAST_DELIVERY_TIME :: ConfigurationOption where "ConfigurationOption_BCAST_DELIVERY_TIME \<equiv> 0x30"
abbreviation (input) ConfigurationOption_APS_FRAME_RETRIES :: ConfigurationOption where "ConfigurationOption_APS_FRAME_RETRIES \<equiv> 0x43"
abbreviation (input) ConfigurationOption_APS_ACK_WAIT_DURATION :: ConfigurationOption where "ConfigurationOption_APS_ACK_WAIT_DURATION \<equiv> 0x44"
abbreviation (input) ConfigurationOption_BINDING_TIME :: ConfigurationOption where "ConfigurationOption_BINDING_TIME \<equiv> 0x46"
abbreviation (input) ConfigurationOption_PRECFGKEY :: ConfigurationOption where "ConfigurationOption_PRECFGKEY \<equiv> 0x62"
abbreviation (input) ConfigurationOption_PRECFGKEYS_ENABLE :: ConfigurationOption where "ConfigurationOption_PRECFGKEYS_ENABLE \<equiv> 0x63"
abbreviation (input) ConfigurationOption_SECURITY_MODE :: ConfigurationOption where "ConfigurationOption_SECURITY_MODE \<equiv> 0x64"
abbreviation (input) ConfigurationOption_USERDESC :: ConfigurationOption where "ConfigurationOption_USERDESC \<equiv> 0x81"
abbreviation (input) ConfigurationOption_PANID :: ConfigurationOption where "ConfigurationOption_PANID \<equiv> 0x83"
abbreviation (input) ConfigurationOption_CHANLIST :: ConfigurationOption where "ConfigurationOption_CHANLIST \<equiv> 0x84"
abbreviation (input) ConfigurationOption_LOGICAL_TYPE :: ConfigurationOption where "ConfigurationOption_LOGICAL_TYPE \<equiv> 0x87"
abbreviation (input) ConfigurationOption_ZDO_DIRECT_CB :: ConfigurationOption where "ConfigurationOption_ZDO_DIRECT_CB \<equiv> 0x8f"

type_synonym StartupOption = "8 word"

abbreviation (input) StartupOption_None :: StartupOption where "StartupOption_None \<equiv> 0"
abbreviation (input) StartupOption_ClearConfig :: StartupOption where "StartupOption_ClearConfig \<equiv> 1"
abbreviation (input) StartupOption_ClearState :: StartupOption where "StartupOption_ClearState \<equiv> 2"
abbreviation (input) StartupOption_AutoStart :: StartupOption where "StartupOption_AutoStart \<equiv> 4"

type_synonym LogicalType = "8 word"

abbreviation (input) LogicalType_Coordinator :: LogicalType where "LogicalType_Coordinator \<equiv> 0"
abbreviation (input) LogicalType_Router :: LogicalType where "LogicalType_Router \<equiv> 1"
abbreviation (input) LogicalType_EndDevice :: LogicalType where "LogicalType_EndDevice \<equiv> 2"

type_synonym DeviceInfo = "8 word"

abbreviation (input) DeviceInfo_DeviceState :: DeviceInfo where "DeviceInfo_DeviceState \<equiv> 0"
abbreviation (input) DeviceInfo_DeviceIEEEAddress :: DeviceInfo where "DeviceInfo_DeviceIEEEAddress \<equiv> 1"
abbreviation (input) DeviceInfo_DeviceShortAddress :: DeviceInfo where "DeviceInfo_DeviceShortAddress \<equiv> 2"
abbreviation (input) DeviceInfo_ParentDeviceShortAddress :: DeviceInfo where "DeviceInfo_ParentDeviceShortAddress \<equiv> 3"
abbreviation (input) DeviceInfo_ParentDeviceIEEEAddress :: DeviceInfo where "DeviceInfo_ParentDeviceIEEEAddress \<equiv> 4"
abbreviation (input) DeviceInfo_Channel :: DeviceInfo where "DeviceInfo_Channel \<equiv> 5"
abbreviation (input) DeviceInfo_PanId :: DeviceInfo where "DeviceInfo_PanId \<equiv> 6"
abbreviation (input) DeviceInfo_ExtendedPanId :: DeviceInfo where "DeviceInfo_ExtendedPanId \<equiv> 7"

type_synonym DeviceState = "8 word"

abbreviation (input) DeviceState_HOLD :: DeviceState where "DeviceState_HOLD \<equiv> 0"
abbreviation (input) DeviceState_INIT :: DeviceState where "DeviceState_INIT \<equiv> 1"
abbreviation (input) DeviceState_NWK_DISC :: DeviceState where "DeviceState_NWK_DISC \<equiv> 2"
abbreviation (input) DeviceState_NWK_JOINING :: DeviceState where "DeviceState_NWK_JOINING \<equiv> 3"
abbreviation (input) DeviceState_NWK_REJOIN :: DeviceState where "DeviceState_NWK_REJOIN \<equiv> 4"
abbreviation (input) DeviceState_END_DEVICE_UNAUTH :: DeviceState where "DeviceState_END_DEVICE_UNAUTH \<equiv> 5"
abbreviation (input) DeviceState_END_DEVICE :: DeviceState where "DeviceState_END_DEVICE \<equiv> 6"
abbreviation (input) DeviceState_ROUTER :: DeviceState where "DeviceState_ROUTER \<equiv> 7"
abbreviation (input) DeviceState_COORD_STARTING :: DeviceState where "DeviceState_COORD_STARTING \<equiv> 8"
abbreviation (input) DeviceState_ZB_COORD :: DeviceState where "DeviceState_ZB_COORD \<equiv> 9"
abbreviation (input) DeviceState_NWK_ORPHAN :: DeviceState where "DeviceState_NWK_ORPHAN \<equiv> 10"

type_synonym StartupFromAppResponse = "8 word"

abbreviation (input) StartupFromAppResponse_Restored :: StartupFromAppResponse where "StartupFromAppResponse_Restored \<equiv> 0"
abbreviation (input) StartupFromAppResponse_New :: StartupFromAppResponse where "StartupFromAppResponse_New \<equiv> 1"
abbreviation (input) StartupFromAppResponse_Leave :: StartupFromAppResponse where "StartupFromAppResponse_Leave \<equiv> 2"

type_synonym Latency = "8 word"

abbreviation (input) Latency_NoLatency :: Latency where "Latency_NoLatency \<equiv> 0"
abbreviation (input) Latency_FastBeacons :: Latency where "Latency_FastBeacons \<equiv> 1"
abbreviation (input) Latency_SlowBeacons :: Latency where "Latency_SlowBeacons \<equiv> 2"

type_synonym NvItemId = "16 word"

abbreviation (input) NvItemId_ZCD_NV_EXTADDR :: NvItemId where "NvItemId_ZCD_NV_EXTADDR \<equiv> 0x0001"
abbreviation (input) NvItemId_ZCD_NV_BOOTCOUNTER :: NvItemId where "NvItemId_ZCD_NV_BOOTCOUNTER \<equiv> 0x0002"
abbreviation (input) NvItemId_ZCD_NV_STARTUP_OPTION :: NvItemId where "NvItemId_ZCD_NV_STARTUP_OPTION \<equiv> 0x0003"
abbreviation (input) NvItemId_ZCD_NV_START_DELAY :: NvItemId where "NvItemId_ZCD_NV_START_DELAY \<equiv> 0x0004"
abbreviation (input) NvItemId_ZCD_NV_NIB :: NvItemId where "NvItemId_ZCD_NV_NIB \<equiv> 0x0021"
abbreviation (input) NvItemId_ZCD_NV_DEVICE_LIST :: NvItemId where "NvItemId_ZCD_NV_DEVICE_LIST \<equiv> 0x0022"
abbreviation (input) NvItemId_ZCD_NV_ADDRMGR :: NvItemId where "NvItemId_ZCD_NV_ADDRMGR \<equiv> 0x0023"
abbreviation (input) NvItemId_ZCD_NV_POLL_RATE :: NvItemId where "NvItemId_ZCD_NV_POLL_RATE \<equiv> 0x0024"
abbreviation (input) NvItemId_ZCD_NV_QUEUED_POLL_RATE :: NvItemId where "NvItemId_ZCD_NV_QUEUED_POLL_RATE \<equiv> 0x0025"
abbreviation (input) NvItemId_ZCD_NV_RESPONSE_POLL_RATE :: NvItemId where "NvItemId_ZCD_NV_RESPONSE_POLL_RATE \<equiv> 0x0026"
abbreviation (input) NvItemId_ZCD_NV_REJOIN_POLL_RATE :: NvItemId where "NvItemId_ZCD_NV_REJOIN_POLL_RATE \<equiv> 0x0027"
abbreviation (input) NvItemId_ZCD_NV_DATA_RETRIES :: NvItemId where "NvItemId_ZCD_NV_DATA_RETRIES \<equiv> 0x0028"
abbreviation (input) NvItemId_ZCD_NV_POLL_FAILURE_RETRIES :: NvItemId where "NvItemId_ZCD_NV_POLL_FAILURE_RETRIES \<equiv> 0x0029"
abbreviation (input) NvItemId_ZCD_NV_STACK_PROFILE :: NvItemId where "NvItemId_ZCD_NV_STACK_PROFILE \<equiv> 0x002a"
abbreviation (input) NvItemId_ZCD_NV_INDIRECT_MSG_TIMEOUT :: NvItemId where "NvItemId_ZCD_NV_INDIRECT_MSG_TIMEOUT \<equiv> 0x002b"
abbreviation (input) NvItemId_ZCD_NV_ROUTE_EXPIRY_TIME :: NvItemId where "NvItemId_ZCD_NV_ROUTE_EXPIRY_TIME \<equiv> 0x002c"
abbreviation (input) NvItemId_ZCD_NV_EXTENDED_PAN_ID :: NvItemId where "NvItemId_ZCD_NV_EXTENDED_PAN_ID \<equiv> 0x002d"
abbreviation (input) NvItemId_ZCD_NV_BCAST_RETRIES :: NvItemId where "NvItemId_ZCD_NV_BCAST_RETRIES \<equiv> 0x002e"
abbreviation (input) NvItemId_ZCD_NV_PASSIVE_ACK_TIMEOUT :: NvItemId where "NvItemId_ZCD_NV_PASSIVE_ACK_TIMEOUT \<equiv> 0x002f"
abbreviation (input) NvItemId_ZCD_NV_BCAST_DELIVERY_TIME :: NvItemId where "NvItemId_ZCD_NV_BCAST_DELIVERY_TIME \<equiv> 0x0030"
abbreviation (input) NvItemId_ZCD_NV_NWK_MODE :: NvItemId where "NvItemId_ZCD_NV_NWK_MODE \<equiv> 0x0031"
abbreviation (input) NvItemId_ZCD_NV_CONCENTRATOR_ENABLE :: NvItemId where "NvItemId_ZCD_NV_CONCENTRATOR_ENABLE \<equiv> 0x0032"
abbreviation (input) NvItemId_ZCD_NV_CONCENTRATOR_DISCOVERY :: NvItemId where "NvItemId_ZCD_NV_CONCENTRATOR_DISCOVERY \<equiv> 0x0033"
abbreviation (input) NvItemId_ZCD_NV_CONCENTRATOR_RADIUS :: NvItemId where "NvItemId_ZCD_NV_CONCENTRATOR_RADIUS \<equiv> 0x0034"
abbreviation (input) NvItemId_ZCD_NV_MAX_SOURCE_ROUTE :: NvItemId where "NvItemId_ZCD_NV_MAX_SOURCE_ROUTE \<equiv> 0x0035"
abbreviation (input) NvItemId_ZCD_NV_BINDING_TABLE :: NvItemId where "NvItemId_ZCD_NV_BINDING_TABLE \<equiv> 0x0041"
abbreviation (input) NvItemId_ZCD_NV_GROUP_TABLE :: NvItemId where "NvItemId_ZCD_NV_GROUP_TABLE \<equiv> 0x0042"
abbreviation (input) NvItemId_ZCD_NV_APS_FRAME_RETRIES :: NvItemId where "NvItemId_ZCD_NV_APS_FRAME_RETRIES \<equiv> 0x0043"
abbreviation (input) NvItemId_ZCD_NV_APS_ACK_WAIT_DURATION :: NvItemId where "NvItemId_ZCD_NV_APS_ACK_WAIT_DURATION \<equiv> 0x0044"
abbreviation (input) NvItemId_ZCD_NV_APS_ACK_WAIT_MULTIPLIER :: NvItemId where "NvItemId_ZCD_NV_APS_ACK_WAIT_MULTIPLIER \<equiv> 0x0045"
abbreviation (input) NvItemId_ZCD_NV_BINDING_TIME :: NvItemId where "NvItemId_ZCD_NV_BINDING_TIME \<equiv> 0x0046"
abbreviation (input) NvItemId_ZCD_NV_SECURITY_LEVEL :: NvItemId where "NvItemId_ZCD_NV_SECURITY_LEVEL \<equiv> 0x0061"
abbreviation (input) NvItemId_ZCD_NV_PRECFGKEY :: NvItemId where "NvItemId_ZCD_NV_PRECFGKEY \<equiv> 0x0062"
abbreviation (input) NvItemId_ZCD_NV_PRECFGKEYS_ENABLE :: NvItemId where "NvItemId_ZCD_NV_PRECFGKEYS_ENABLE \<equiv> 0x0063"
abbreviation (input) NvItemId_ZCD_NV_USE_DEFAULT_TCLK :: NvItemId where "NvItemId_ZCD_NV_USE_DEFAULT_TCLK \<equiv> 0x006d"
abbreviation (input) NvItemId_ZCD_NV_USERDESC :: NvItemId where "NvItemId_ZCD_NV_USERDESC \<equiv> 0x0081"
abbreviation (input) NvItemId_ZCD_NV_NWKKEY :: NvItemId where "NvItemId_ZCD_NV_NWKKEY \<equiv> 0x0082"
abbreviation (input) NvItemId_ZCD_NV_PANID :: NvItemId where "NvItemId_ZCD_NV_PANID \<equiv> 0x0083"
abbreviation (input) NvItemId_ZCD_NV_CHANLIST :: NvItemId where "NvItemId_ZCD_NV_CHANLIST \<equiv> 0x0084"
abbreviation (input) NvItemId_ZCD_NV_LEAVE_CTRL :: NvItemId where "NvItemId_ZCD_NV_LEAVE_CTRL \<equiv> 0x0085"
abbreviation (input) NvItemId_ZCD_NV_SCAN_DURATION :: NvItemId where "NvItemId_ZCD_NV_SCAN_DURATION \<equiv> 0x0086"
abbreviation (input) NvItemId_ZCD_NV_LOGICAL_TYPE :: NvItemId where "NvItemId_ZCD_NV_LOGICAL_TYPE \<equiv> 0x0087"
abbreviation (input) NvItemId_ZCD_NV_ZDO_DIRECT_CB :: NvItemId where "NvItemId_ZCD_NV_ZDO_DIRECT_CB \<equiv> 0x008f"
abbreviation (input) NvItemId_ZCD_NV_SCENE_TABLE :: NvItemId where "NvItemId_ZCD_NV_SCENE_TABLE \<equiv> 0x0091"
abbreviation (input) NvItemId_ZCD_NV_SAPI_ENDPOINT :: NvItemId where "NvItemId_ZCD_NV_SAPI_ENDPOINT \<equiv> 0x00a1"
abbreviation (input) NvItemId_ZCD_NV_RF_TEST_PARAMS :: NvItemId where "NvItemId_ZCD_NV_RF_TEST_PARAMS \<equiv> 0x0f07"

definition show_ZnpCommandType :: "ZnpCommandType \<Rightarrow> string" where
  "show_ZnpCommandType c = (case map_of [
     (ZnpCommandType_POLL, ''POLL''), (ZnpCommandType_SREQ, ''SREQ''),
     (ZnpCommandType_AREQ, ''AREQ''), (ZnpCommandType_SRSP, ''SRSP'')] c of
       Some s \<Rightarrow> s | None \<Rightarrow> ''UNK('' @ show_int (sint c) @ '')'')"

definition show_ZnpSubsystem :: "ZnpSubsystem \<Rightarrow> string" where
  "show_ZnpSubsystem c = (case map_of [
     (ZnpSubsystem_RPC_Error, ''RPC_Error''), (ZnpSubsystem_SYS, ''SYS''),
     (ZnpSubsystem_MAC, ''MAC''), (ZnpSubsystem_NWK, ''NWK''), (ZnpSubsystem_AF, ''AF''),
     (ZnpSubsystem_ZDO, ''ZDO''), (ZnpSubsystem_SAPI, ''SAPI''), (ZnpSubsystem_UTIL, ''UTIL''),
     (ZnpSubsystem_DEBUG, ''DEBUG''), (ZnpSubsystem_APP, ''APP'')] c of
       Some s \<Rightarrow> s | None \<Rightarrow> ''UNK('' @ show_int (sint c) @ '')'')"

definition show_SysCommand :: "SysCommand \<Rightarrow> string" where
  "show_SysCommand c = (case map_of [
     (SysCommand_RESET, ''RESET''), (SysCommand_PING, ''PING''), (SysCommand_VERSION, ''VERSION''),
     (SysCommand_SET_EXTADDR, ''SET_EXTADDR''), (SysCommand_GET_EXTADDR, ''GET_EXTADDR''),
     (SysCommand_RAM_READ, ''RAM_READ''), (SysCommand_RAM_WRITE, ''RAM_WRITE''),
     (SysCommand_OSAL_NV_ITEM_INIT, ''OSAL_NV_ITEM_INIT''),
     (SysCommand_OSAL_NV_READ, ''OSAL_NV_READ''), (SysCommand_OSAL_NV_WRITE, ''OSAL_NV_WRITE''),
     (SysCommand_OSAL_START_TIMER, ''OSAL_START_TIMER''),
     (SysCommand_OSAL_STOP_TIMER, ''OSAL_STOP_TIMER''), (SysCommand_RANDOM, ''RANDOM''),
     (SysCommand_ADC_READ, ''ADC_READ''), (SysCommand_GPIO, ''GPIO''),
     (SysCommand_STACK_TUNE, ''STACK_TUNE''), (SysCommand_SET_TIME, ''SET_TIME''),
     (SysCommand_GET_TIME, ''GET_TIME''), (SysCommand_OSAL_NV_DELETE, ''OSAL_NV_DELETE''),
     (SysCommand_OSAL_NV_LENGTH, ''OSAL_NV_LENGTH''), (SysCommand_TEST_RF, ''TEST_RF''),
     (SysCommand_TEST_LOOPBACK, ''TEST_LOOPBACK''), (SysCommand_RESET_IND, ''RESET_IND''),
     (SysCommand_OSAL_TIMER_EXPIRED, ''OSAL_TIMER_EXPIRED'')] c of
       Some s \<Rightarrow> s | None \<Rightarrow> show_hex (unat c))"

definition show_AfCommand :: "AfCommand \<Rightarrow> string" where
  "show_AfCommand c = (case map_of [
     (AfCommand_REGISTER, ''REGISTER''), (AfCommand_DATA_REQUEST, ''DATA_REQUEST''),
     (AfCommand_DATA_REQUEST_EXT, ''DATA_REQUEST_EXT''),
     (AfCommand_DATA_REQUEST_SRC_RTG, ''DATA_REQUEST_SRC_RTG''),
     (AfCommand_INTER_PAN_CTL, ''INTER_PAN_CTL''), (AfCommand_DATA_STORE, ''DATA_STORE''),
     (AfCommand_DATA_RETRIEVE, ''DATA_RETRIEVE''),
     (AfCommand_APSF_CONFIG_SET, ''APSF_CONFIG_SET''), (AfCommand_DATA_CONFIRM, ''DATA_CONFIRM''),
     (AfCommand_REFLECT_ERROR, ''REFLECT_ERROR''), (AfCommand_INCOMING_MSG, ''INCOMING_MSG''),
     (AfCommand_INCOMING_MSG_EXT, ''INCOMING_MSG_EXT'')] c of
       Some s \<Rightarrow> s | None \<Rightarrow> ''AfCommand('' @ show_dec (unat c) @ '')'')"

definition show_ZdoCommand :: "ZdoCommand \<Rightarrow> string" where
  "show_ZdoCommand c = (case map_of [
     (ZdoCommand_NWK_ADDR_REQ, ''NWK_ADDR_REQ''), (ZdoCommand_IEEE_ADDR_REQ, ''IEEE_ADDR_REQ''),
     (ZdoCommand_NODE_DESC_REQ, ''NODE_DESC_REQ''),
     (ZdoCommand_POWER_DESC_REQ, ''POWER_DESC_REQ''),
     (ZdoCommand_SIMPLE_DESC_REQ, ''SIMPLE_DESC_REQ''),
     (ZdoCommand_ACTIVE_EP_REQ, ''ACTIVE_EP_REQ''),
     (ZdoCommand_MATCH_DESC_REQ, ''MATCH_DESC_REQ''),
     (ZdoCommand_COMPLEX_DESC_REQ, ''COMPLEX_DESC_REQ''),
     (ZdoCommand_USER_DESC_REQ, ''USER_DESC_REQ''), (ZdoCommand_DEVICE_ANNCE, ''DEVICE_ANNCE''),
     (ZdoCommand_USER_DESC_SET, ''USER_DESC_SET''),
     (ZdoCommand_SERVER_DISC_REQ, ''SERVER_DISC_REQ''),
     (ZdoCommand_END_DEVICE_BIND_REQ, ''END_DEVICE_BIND_REQ''),
     (ZdoCommand_BIND_REQ, ''BIND_REQ''), (ZdoCommand_UNBIND_REQ, ''UNBIND_REQ''),
     (ZdoCommand_SET_LINK_KEY, ''SET_LINK_KEY''),
     (ZdoCommand_REMOVE_LINK_KEY, ''REMOVE_LINK_KEY''),
     (ZdoCommand_GET_LINK_KEY, ''GET_LINK_KEY''),
     (ZdoCommand_MGMT_NWK_DISC_REQ, ''MGMT_NWK_DISC_REQ''),
     (ZdoCommand_MGMT_LQI_REQ, ''MGMT_LQI_REQ''), (ZdoCommand_MGMT_RTQ_REQ, ''MGMT_RTQ_REQ''),
     (ZdoCommand_MGMT_BIND_REQ, ''MGMT_BIND_REQ''),
     (ZdoCommand_MGMT_LEAVE_REQ, ''MGMT_LEAVE_REQ''),
     (ZdoCommand_MGMT_DIRECT_JOIN_REQ, ''MGMT_DIRECT_JOIN_REQ''),
     (ZdoCommand_MGMT_PERMIT_JOIN_REQ, ''MGMT_PERMIT_JOIN_REQ''),
     (ZdoCommand_MGMT_NWK_UPDATE_REQ, ''MGMT_NWK_UPDATE_REQ''),
     (ZdoCommand_MSG_CB_REGISTER, ''MSG_CB_REGISTER''),
     (ZdoCommand_MGS_CB_REMOVE, ''MGS_CB_REMOVE''),
     (ZdoCommand_STARTUP_FROM_APP, ''STARTUP_FROM_APP''),
     (ZdoCommand_AUTO_FIND_DESTINATION, ''AUTO_FIND_DESTINATION''),
     (ZdoCommand_EXT_REMOVE_GROUP, ''EXT_REMOVE_GROUP''),
     (ZdoCommand_EXT_REMOVE_ALL_GROUP, ''EXT_REMOVE_ALL_GROUP''),
     (ZdoCommand_EXT_FIND_ALL_GROUPS_ENDPOINT, ''EXT_FIND_ALL_GROUPS_ENDPOINT''),
     (ZdoCommand_EXT_FIND_GROUP, ''EXT_FIND_GROUP''),
     (ZdoCommand_EXT_ADD_GROUP, ''EXT_ADD_GROUP''),
     (ZdoCommand_EXT_COUNT_ALL_GROUPS, ''EXT_COUNT_ALL_GROUPS''),
     (ZdoCommand_NWK_ADDR_RSP, ''NWK_ADDR_RSP''), (ZdoCommand_IEEE_ADDR_RSP, ''IEEE_ADDR_RSP''),
     (ZdoCommand_NODE_DESC_RSP, ''NODE_DESC_RSP''),
     (ZdoCommand_POWER_DESC_RSP, ''POWER_DESC_RSP''),
     (ZdoCommand_SIMPLE_DESC_RSP, ''SIMPLE_DESC_RSP''),
     (ZdoCommand_ACTIVE_EP_RSP, ''ACTIVE_EP_RSP''),
     (ZdoCommand_MATCH_DESC_RSP, ''MATCH_DESC_RSP''),
     (ZdoCommand_COMPLEX_DESC_RSP, ''COMPLEX_DESC_RSP''),
     (ZdoCommand_USER_DESC_RSP, ''USER_DESC_RSP''),
     (ZdoCommand_USER_DESC_CONF, ''USER_DESC_CONF''),
     (ZdoCommand_SERVER_DISC_RSP, ''SERVER_DISC_RSP''),
     (ZdoCommand_END_DEVICE_BIND_RSP, ''END_DEVICE_BIND_RSP''),
     (ZdoCommand_BIND_RSP, ''BIND_RSP''), (ZdoCommand_UNBIND_RSP, ''UNBIND_RSP''),
     (ZdoCommand_MGMT_NWK_DISC_RSP, ''MGMT_NWK_DISC_RSP''),
     (ZdoCommand_MGMT_LQI_RSP, ''MGMT_LQI_RSP''), (ZdoCommand_MGMT_RTG_RSP, ''MGMT_RTG_RSP''),
     (ZdoCommand_MGMT_BIND_RSP, ''MGMT_BIND_RSP''),
     (ZdoCommand_MGMT_LEAVE_RSP, ''MGMT_LEAVE_RSP''),
     (ZdoCommand_MGMT_DIRECT_JOIN_RSP, ''MGMT_DIRECT_JOIN_RSP''),
     (ZdoCommand_MGMT_PERMIT_JOIN_RSP, ''MGMT_PERMIT_JOIN_RSP''),
     (ZdoCommand_STATE_CHANGE_IND, ''STATE_CHANGE_IND''),
     (ZdoCommand_END_DEVICE_ANNCE_IND, ''END_DEVICE_ANNCE_IND''),
     (ZdoCommand_MATCH_DESC_RSP_SENT, ''MATCH_DESC_RSP_SENT''),
     (ZdoCommand_STATUS_ERROR_RSP, ''STATUS_ERROR_RSP''),
     (ZdoCommand_SRC_RTG_IND, ''SRC_RTG_IND''), (ZdoCommand_LEAVE_IND, ''LEAVE_IND''),
     (ZdoCommand_TC_DEV_IND, ''TC_DEV_IND''), (ZdoCommand_PERMIT_JOIN_IND, ''PERMIT_JOIN_IND''),
     (ZdoCommand_MSG_CB_INCOMING, ''MSG_CB_INCOMING'')] c of
       Some s \<Rightarrow> s | None \<Rightarrow> ''ZdoCommand('' @ show_dec (unat c) @ '')'')"

definition show_SapiCommand :: "SapiCommand \<Rightarrow> string" where
  "show_SapiCommand c = (case map_of [
     (SapiCommand_START_REQUEST, ''START_REQUEST''), (SapiCommand_BIND_DEVICE, ''BIND_DEVICE''),
     (SapiCommand_ALLOW_BIND, ''ALLOW_BIND''),
     (SapiCommand_SEND_DATA_REQUEST, ''SEND_DATA_REQUEST''),
     (SapiCommand_READ_CONFIGURATION, ''READ_CONFIGURATION''),
     (SapiCommand_WRITE_CONFIGURATION, ''WRITE_CONFIGURATION''),
     (SapiCommand_GET_DEVICE_INFO, ''GET_DEVICE_INFO''),
     (SapiCommand_FIND_DEVICE_REQUEST, ''FIND_DEVICE_REQUEST''),
     (SapiCommand_PERMIT_JOINING_REQUEST, ''PERMIT_JOINING_REQUEST''),
     (SapiCommand_SYSTEM_RESET, ''SYSTEM_RESET''), (SapiCommand_START_CONFIRM, ''START_CONFIRM''),
     (SapiCommand_BIND_CONFIRM, ''BIND_CONFIRM''),
     (SapiCommand_ALLOW_BIND_CONFIRM, ''ALLOW_BIND_CONFIRM''),
     (SapiCommand_SEND_DATA_CONFIRM, ''SEND_DATA_CONFIRM''),
     (SapiCommand_FIND_DEVICE_CONFIRM, ''FIND_DEVICE_CONFIRM''),
     (SapiCommand_RECEIVE_DATA_INDICATION, ''RECEIVE_DATA_INDICATION'')] c of
       Some s \<Rightarrow> s | None \<Rightarrow> ''SapiCommand('' @ show_dec (unat c) @ '')'')"

definition show_UtilCommand :: "UtilCommand \<Rightarrow> string" where
  "show_UtilCommand c = (case map_of [
     (UtilCommand_GET_DEVICE_INFO, ''GET_DEVICE_INFO''),
     (UtilCommand_GET_NV_INFO, ''GET_NV_INFO''), (UtilCommand_SET_PANID, ''SET_PANID''),
     (UtilCommand_SET_CHANNELS, ''SET_CHANNELS''), (UtilCommand_SET_SECLEVEL, ''SET_SECLEVEL''),
     (UtilCommand_SET_PRECFGKEY, ''SET_PRECFGKEY''),
     (UtilCommand_CALLBACK_SUB_CMD, ''CALLBACK_SUB_CMD''), (UtilCommand_KEY_EVENT, ''KEY_EVENT''),
     (UtilCommand_TIME_ALIVE, ''TIME_ALIVE''), (UtilCommand_LED_CONTROL, ''LED_CONTROL''),
     (UtilCommand_TEST_LOOPBACK, ''TEST_LOOPBACK''), (UtilCommand_DATA_REQ, ''DATA_REQ''),
     (UtilCommand_SRC_MATCH_ENABLE, ''SRC_MATCH_ENABLE''),
     (UtilCommand_SRC_MATCH_ADD_ENTRY, ''SRC_MATCH_ADD_ENTRY''),
     (UtilCommand_SRC_MATCH_DEL_ENTRY, ''SRC_MATCH_DEL_ENTRY''),
     (UtilCommand_SRC_MATCH_CHECK_SRC_ADDR, ''SRC_MATCH_CHECK_SRC_ADDR''),
     (UtilCommand_SRC_MATCH_ACK_ALL_PENDING, ''SRC_MATCH_ACK_ALL_PENDING''),
     (UtilCommand_SRC_MATCH_CHECK_ALL_PENDING, ''SRC_MATCH_CHECK_ALL_PENDING''),
     (UtilCommand_ADDRMGR_EXT_ADDR_LOOKUP, ''ADDRMGR_EXT_ADDR_LOOKUP''),
     (UtilCommand_ADDRMGR_NWK_ADDR_LOOKUP, ''ADDRMGR_NWK_ADDR_LOOKUP''),
     (UtilCommand_APSME_LINK_KEY_DATA_GET, ''APSME_LINK_KEY_DATA_GET''),
     (UtilCommand_APSME_LINK_KEY_NV_ID_GET, ''APSME_LINK_KEY_NV_ID_GET''),
     (UtilCommand_ASSOC_COUNT, ''ASSOC_COUNT''),
     (UtilCommand_ASSOC_FIND_DEVICE, ''ASSOC_FIND_DEVICE''),
     (UtilCommand_ASSOC_GET_WITH_ADDRESS, ''ASSOC_GET_WITH_ADDRESS''),
     (UtilCommand_APSME_REQUEST_KEY_CMD, ''APSME_REQUEST_KEY_CMD''),
     (UtilCommand_ZCL_KEY_EST_INIT_EST, ''ZCL_KEY_EST_INIT_EST''),
     (UtilCommand_ZCL_KEY_EST_SIGN, ''ZCL_KEY_EST_SIGN''),
     (UtilCommand_UTIL_SYNC_REQ, ''UTIL_SYNC_REQ''),
     (UtilCommand_ZCL_KEY_ESTABLISH_IND, ''ZCL_KEY_ESTABLISH_IND'')] c of
       Some s \<Rightarrow> s | None \<Rightarrow> ''UtilCommand('' @ show_dec (unat c) @ '')'')"

definition show_ResetReason :: "ResetReason \<Rightarrow> string" where
  "show_ResetReason c = (case map_of [
     (ResetReason_PowerUp, ''Power-up''), (ResetReason_External, ''External''),
     (ResetReason_Watchdog, ''Watch-dog'')] c of
       Some s \<Rightarrow> s | None \<Rightarrow> ''UNK('' @ show_dec (unat c) @ '')'')"

end
