(* ===== verification/ZnpTypes.thy ===== *)
theory ZnpTypes
  imports Codec ZnpEnums
begin

text \<open>
  The classes and structures of \<^verbatim>\<open>src/znp/znp.h\<close> and \<^verbatim>\<open>src/znp/znp.cpp\<close>:
  \<open>ZnpCommand\<close>, \<open>BindTarget\<close> with its codec, and the structures that arrive in frames
  with their member-by-member decoders.
\<close>

section \<open>Commands\<close>

type_synonym IEEEAddress = "64 word"
type_synonym ShortAddress = "16 word"

type_synonym ZnpCommand = "ZnpSubsystem \<times> 8 word"

definition SysCmd :: "SysCommand \<Rightarrow> ZnpCommand" where
  "SysCmd command = (ZnpSubsystem_SYS, command)"

definition AfCmd :: "AfCommand \<Rightarrow> ZnpCommand" where
  "AfCmd command = (ZnpSubsystem_AF, command)"

definition ZdoCmd :: "ZdoCommand \<Rightarrow> ZnpCommand" where
  "ZdoCmd command = (ZnpSubsystem_ZDO, command)"

definition SapiCmd :: "SapiCommand \<Rightarrow> ZnpCommand" where
  "SapiCmd command = (ZnpSubsystem_SAPI, command)"

definition UtilCmd :: "UtilCommand \<Rightarrow> ZnpCommand" where
  "UtilCmd command = (ZnpSubsystem_UTIL, command)"

lemmas command_defs = SysCmd_def AfCmd_def ZdoCmd_def SapiCmd_def UtilCmd_def

definition Subsystem :: "ZnpCommand \<Rightarrow> ZnpSubsystem" where
  "Subsystem command = fst command"

definition RawCommand :: "ZnpCommand \<Rightarrow> 8 word" where
  "RawCommand command = snd command"

text \<open>The comparison operators are those of \<open>std::pair\<close>.\<close>

definition ZnpCommand_less :: "ZnpCommand \<Rightarrow> ZnpCommand \<Rightarrow> bool" where
  "ZnpCommand_less a b \<longleftrightarrow> fst a < fst b \<or> \<not> fst b < fst a \<and> snd a < snd b"

definition ZnpCommand_less_eq :: "ZnpCommand \<Rightarrow> ZnpCommand \<Rightarrow> bool" where
  "ZnpCommand_less_eq a b \<longleftrightarrow> \<not> ZnpCommand_less b a"

lemma ZnpCommand_order:
  "\<not> ZnpCommand_less a a" "ZnpCommand_less a b \<Longrightarrow> ZnpCommand_less b c \<Longrightarrow> ZnpCommand_less a c"
  "ZnpCommand_less a b \<or> a = b \<or> ZnpCommand_less b a" "ZnpCommand_less_eq a b \<longleftrightarrow> ZnpCommand_less a b \<or> a = b"
  by (auto simp: ZnpCommand_less_def ZnpCommand_less_eq_def prod_eq_iff)

definition show_ZnpCommand :: "ZnpCommand \<Rightarrow> string" where
  "show_ZnpCommand command = show_ZnpSubsystem (fst command) @ ''_'' @
     (if fst command = ZnpSubsystem_SYS then show_SysCommand (snd command)
      else if fst command = ZnpSubsystem_AF then show_AfCommand (snd command)
      else if fst command = ZnpSubsystem_ZDO then show_ZdoCommand (snd command)
      else if fst command = ZnpSubsystem_SAPI then show_SapiCommand (snd command)
      else if fst command = ZnpSubsystem_UTIL then show_UtilCommand (snd command)
      else show_hex (unat (snd command)))"

text \<open>The table \<open>names\<close>, in the order of the \<open>std::map\<close>'s keys.\<close>

definition capability_names :: "(16 word \<times> string) list" where
  "capability_names = [(Capability_SYS, ''SYS''), (Capability_MAC, ''MAC''), (Capability_NWK, ''NWK''),
     (Capability_AF, ''AF''), (Capability_ZDO, ''ZDO''), (Capability_SAPI, ''SAPI''),
     (Capability_UTIL, ''UTIL''), (Capability_DEBUG, ''DEBUG''), (Capability_APP, ''APP''),
     (Capability_ZOAD, ''ZOAD'')]"

fun show_Capability_loop :: "(16 word \<times> string) list \<Rightarrow> 16 word \<Rightarrow> bool \<Rightarrow> string" where
  "show_Capability_loop [] unhandled first =
     (if unhandled \<noteq> 0 then (if first then '''' else ''|'') @ show_hex (unat unhandled) else '''')"
| "show_Capability_loop ((bits, name) # names) unhandled first =
     (if unhandled AND bits \<noteq> 0
      then (if first then '''' else ''|'') @ name @ show_Capability_loop names (unhandled AND NOT bits) False
      else show_Capability_loop names unhandled first)"

definition show_Capability :: "Capability \<Rightarrow> string" where
  "show_Capability cap = show_Capability_loop capability_names cap True"

definition StartupOption_or :: "StartupOption \<Rightarrow> StartupOption \<Rightarrow> StartupOption" where
  "StartupOption_or a b = a OR b"

section \<open>Binding targets\<close>

text \<open>
  The constructor \<open>BindTarget()\<close> sets the mode only: \<open>target_address\<close> and \<open>target_endpoint\<close> are
  indeterminate, so the model takes what they happen to hold, \<open>g\<close>, as an argument, and the
  theorems hold for every \<open>g\<close>. The getters hide the two fields unless the mode uses them.
\<close>

record BindTarget =
  target_mode :: AddrMode
  target_address :: "64 word"
  target_endpoint :: "8 word"

definition BindTarget_ctor :: "64 word \<times> 8 word \<Rightarrow> BindTarget" where
  "BindTarget_ctor g = \<lparr> target_mode = AddrMode_NotPresent, target_address = fst g, target_endpoint = snd g \<rparr>"

definition GetMode :: "BindTarget \<Rightarrow> AddrMode" where
  "GetMode t = target_mode t"

definition GetGroupId :: "BindTarget \<Rightarrow> 16 word" where
  "GetGroupId t = (if target_mode t \<noteq> AddrMode_Group then 0 else ucast (target_address t AND 0xFFFF))"

definition GetShortAddress :: "BindTarget \<Rightarrow> ShortAddress" where
  "GetShortAddress t = (if target_mode t \<noteq> AddrMode_ShortAddress then 0 else ucast (target_address t AND 0xFFFF))"

definition GetIEEEAddress :: "BindTarget \<Rightarrow> IEEEAddress" where
  "GetIEEEAddress t = (if target_mode t \<noteq> AddrMode_IEEEAddress then 0 else target_address t)"

definition GetEndpoint :: "BindTarget \<Rightarrow> 8 word" where
  "GetEndpoint t = (if target_mode t \<noteq> AddrMode_IEEEAddress then 0 else target_endpoint t)"

definition SetNotPresent :: "BindTarget \<Rightarrow> BindTarget" where
  "SetNotPresent t = t\<lparr> target_mode := AddrMode_NotPresent \<rparr>"

definition SetGroupId :: "16 word \<Rightarrow> BindTarget \<Rightarrow> BindTarget" where
  "SetGroupId GroupId t = t\<lparr> target_mode := AddrMode_Group, target_address := ucast GroupId \<rparr>"

definition SetShortAddress :: "ShortAddress \<Rightarrow> BindTarget \<Rightarrow> BindTarget" where
  "SetShortAddress Address t = t\<lparr> target_mode := AddrMode_ShortAddress, target_address := ucast Address \<rparr>"

definition SetIEEEAddress :: "IEEEAddress \<Rightarrow> 8 word \<Rightarrow> BindTarget \<Rightarrow> BindTarget" where
  "SetIEEEAddress Address Endpoint t =
     t\<lparr> target_mode := AddrMode_IEEEAddress, target_address := Address, target_endpoint := Endpoint \<rparr>"

definition SetBroadcast :: "BindTarget \<Rightarrow> BindTarget" where
  "SetBroadcast t = t\<lparr> target_mode := AddrMode_Broadcast \<rparr>"

lemmas BindTarget_defs = BindTarget_ctor_def GetMode_def GetGroupId_def GetShortAddress_def
  GetIEEEAddress_def GetEndpoint_def SetNotPresent_def SetGroupId_def SetShortAddress_def
  SetIEEEAddress_def SetBroadcast_def

definition show_BindTarget :: "BindTarget \<Rightarrow> string" where
  "show_BindTarget t =
     (if GetMode t = AddrMode_NotPresent then ''[NotPresent]''
      else if GetMode t = AddrMode_Group then ''[Group '' @ show_hex (unat (GetGroupId t)) @ '']''
      else if GetMode t = AddrMode_ShortAddress then ''[Short '' @ show_hex (unat (GetShortAddress t)) @ '']''
      else if GetMode t = AddrMode_IEEEAddress
        then ''[IEEE '' @ show_hex (unat (GetIEEEAddress t)) @ '' Endpoint '' @ show_dec (unat (GetEndpoint t)) @ '']''
      else if GetMode t = AddrMode_Broadcast then ''[Broadcast]''
      else ''[Unknown '' @ show_hex (unat (GetMode t)) @ '']'')"

abbreviation unsupported_target :: "error + 'a" where
  "unsupported_target \<equiv> Inl (Runtime_error ''Unsupported BindTarget'')"

definition BindTarget_GetSize :: "BindTarget \<Rightarrow> error + nat" where
  "BindTarget_GetSize value = res_bind (GetSize enum_codec (GetMode value)) (\<lambda>size.
     if GetMode value = AddrMode_NotPresent then Inr size
     else if GetMode value = AddrMode_Group
       then res_bind (GetSize unsigned_codec (GetGroupId value)) (\<lambda>n. Inr (size + n))
     else if GetMode value = AddrMode_ShortAddress
       then res_bind (GetSize unsigned_codec (GetShortAddress value)) (\<lambda>n. Inr (size + n))
     else if GetMode value = AddrMode_IEEEAddress
       then res_bind (GetSize unsigned_codec (GetIEEEAddress value)) (\<lambda>n.
         res_bind (GetSize unsigned_codec (GetEndpoint value)) (\<lambda>m. Inr (size + n + m)))
     else if GetMode value = AddrMode_Broadcast then Inr size
     else unsupported_target)"

definition BindTarget_enc :: "BindTarget \<Rightarrow> nat \<Rightarrow> error + (byte list \<times> nat)" where
  "BindTarget_enc value sp = res_bind (enc enum_codec (GetMode value) sp) (\<lambda>(bs, left).
     if GetMode value = AddrMode_NotPresent \<or> GetMode value = AddrMode_Broadcast then Inr (bs, left)
     else if GetMode value = AddrMode_Group
       then res_bind (enc unsigned_codec (GetGroupId value) left) (\<lambda>(cs, left). Inr (bs @ cs, left))
     else if GetMode value = AddrMode_ShortAddress
       then res_bind (enc unsigned_codec (GetShortAddress value) left) (\<lambda>(cs, left). Inr (bs @ cs, left))
     else if GetMode value = AddrMode_IEEEAddress
       then res_bind (enc unsigned_codec (GetIEEEAddress value) left) (\<lambda>(cs, left).
         res_bind (enc unsigned_codec (GetEndpoint value) left) (\<lambda>(ds, left). Inr (bs @ cs @ ds, left)))
     else unsupported_target)"

definition BindTarget_dec :: "BindTarget \<Rightarrow> byte list \<Rightarrow> error + (BindTarget \<times> byte list)" where
  "BindTarget_dec value bs = res_bind (dec enum_codec bs) (\<lambda>(mode, rest).
     if mode = AddrMode_NotPresent then Inr (SetNotPresent value, rest)
     else if mode = AddrMode_Broadcast then Inr (SetBroadcast value, rest)
     else if mode = AddrMode_Group
       then res_bind (dec unsigned_codec rest) (\<lambda>(GroupId, rest). Inr (SetGroupId GroupId value, rest))
     else if mode = AddrMode_ShortAddress
       then res_bind (dec unsigned_codec rest) (\<lambda>(Address, rest). Inr (SetShortAddress Address value, rest))
     else if mode = AddrMode_IEEEAddress
       then res_bind (dec unsigned_codec rest) (\<lambda>(Address, rest).
         res_bind (dec unsigned_codec rest) (\<lambda>(Endpoint, rest).
           Inr (SetIEEEAddress Address Endpoint value, rest)))
     else unsupported_target)"

definition BindTarget_codec :: "64 word \<times> 8 word \<Rightarrow> BindTarget codec" where
  "BindTarget_codec g = \<lparr>
     GetSize = BindTarget_GetSize,
     enc = BindTarget_enc,
     dec = BindTarget_dec (BindTarget_ctor g) \<rparr>"

text \<open>
  The bytes of a target, and the targets that a fresh object with indeterminate fields \<open>g\<close> can
  be turned into by one setter.
\<close>

definition BindTarget_img :: "BindTarget \<Rightarrow> byte list" where
  "BindTarget_img t = target_mode t #
     (if target_mode t = AddrMode_Group then le_bytes 2 (GetGroupId t)
      else if target_mode t = AddrMode_ShortAddress then le_bytes 2 (GetShortAddress t)
      else if target_mode t = AddrMode_IEEEAddress then le_bytes 8 (GetIEEEAddress t) @ [GetEndpoint t]
      else [])"

definition supported_mode :: "AddrMode \<Rightarrow> bool" where
  "supported_mode m \<longleftrightarrow> m \<in> {AddrMode_NotPresent, AddrMode_Group, AddrMode_ShortAddress,
     AddrMode_IEEEAddress, AddrMode_Broadcast}"

definition BindTarget_from :: "64 word \<times> 8 word \<Rightarrow> BindTarget \<Rightarrow> bool" where
  "BindTarget_from g t \<longleftrightarrow> supported_mode (target_mode t)
     \<and> (target_mode t \<in> {AddrMode_NotPresent, AddrMode_Broadcast} \<longrightarrow> target_address t = fst g)
     \<and> (target_mode t \<in> {AddrMode_Group, AddrMode_ShortAddress} \<longrightarrow> target_address t = take_bit 16 (target_address t))
     \<and> (target_mode t \<noteq> AddrMode_IEEEAddress \<longrightarrow> target_endpoint t = snd g)"

definition same_target :: "BindTarget \<Rightarrow> BindTarget \<Rightarrow> bool" where
  "same_target s t \<longleftrightarrow> GetMode s = GetMode t \<and> GetGroupId s = GetGroupId t
     \<and> GetShortAddress s = GetShortAddress t \<and> GetIEEEAddress s = GetIEEEAddress t
     \<and> GetEndpoint s = GetEndpoint t"

text \<open>The target a decoder with indeterminate fields \<open>g\<close> reads from the bytes of \<open>t\<close>.\<close>

definition BindTarget_normal :: "64 word \<times> 8 word \<Rightarrow> BindTarget \<Rightarrow> BindTarget" where
  "BindTarget_normal g t = \<lparr> target_mode = target_mode t,
     target_address = (if target_mode t \<in> {AddrMode_NotPresent, AddrMode_Broadcast} then fst g
       else if target_mode t \<in> {AddrMode_Group, AddrMode_ShortAddress} then take_bit 16 (target_address t)
       else target_address t),
     target_endpoint = (if target_mode t = AddrMode_IEEEAddress then target_endpoint t else snd g) \<rparr>"


lemmas target_simps = BindTarget_GetSize_def BindTarget_enc_def BindTarget_dec_def BindTarget_codec_def
  BindTarget_img_def

lemma AND_FFFF: "ucast (w AND 0xFFFF :: 64 word) = (ucast w :: 16 word)"
proof -
  have "w AND 0xFFFF = take_bit 16 w" by (simp add: take_bit_eq_mask mask_eq_exp_minus_1)
  then show ?thesis by (auto intro!: bit_eqI simp: bit_simps)
qed

lemma supported_modeE:
  assumes "supported_mode m"
  obtains "m = AddrMode_NotPresent" | "m = AddrMode_Group" | "m = AddrMode_ShortAddress"
    | "m = AddrMode_IEEEAddress" | "m = AddrMode_Broadcast"
  using assms by (auto simp: supported_mode_def)

lemma BindTarget_size:
  "supported_mode (target_mode t) \<Longrightarrow> BindTarget_GetSize t = Inr (length (BindTarget_img t))"
  by (erule supported_modeE) (simp_all add: target_simps BindTarget_defs codec_simps)

lemma BindTarget_write:
  "supported_mode (target_mode t) \<Longrightarrow> length (BindTarget_img t) \<le> sp \<Longrightarrow>
   BindTarget_enc t sp = Inr (BindTarget_img t, sp - length (BindTarget_img t))"
  by (erule supported_modeE) (auto simp: target_simps BindTarget_defs codec_simps)

lemma BindTarget_overflow:
  "supported_mode (target_mode t) \<Longrightarrow> sp < length (BindTarget_img t) \<Longrightarrow> \<exists>e. BindTarget_enc t sp = Inl e"
  by (erule supported_modeE) (auto simp: target_simps BindTarget_defs codec_simps)

lemma ucast_ucast_16: "ucast (ucast (w :: 64 word) :: 16 word) = take_bit 16 w"
  by (auto intro!: bit_eqI simp: bit_simps dest: bit_imp_le_length)

lemma BindTarget_read:
  "supported_mode (target_mode t) \<Longrightarrow>
   BindTarget_dec (BindTarget_ctor g) (BindTarget_img t @ rest) = Inr (BindTarget_normal g t, rest)"
  by (erule supported_modeE)
    (simp_all add: target_simps BindTarget_defs BindTarget_normal_def codec_simps
      of_le_bytes_le_bytes AND_FFFF ucast_ucast_16 take_bit_word_eq_self)

lemma BindTarget_normal_from: "BindTarget_from g t \<Longrightarrow> BindTarget_normal g t = t"
  by (cases t) (auto simp: BindTarget_from_def BindTarget_normal_def supported_mode_def)

lemma BindTarget_normal_same: "same_target (BindTarget_normal g t) t"
  by (auto simp: same_target_def BindTarget_normal_def BindTarget_defs AND_FFFF ucast_ucast_16
    intro!: bit_eqI simp: bit_simps)

lemma BindTarget_canonical:
  assumes "BindTarget_dec (BindTarget_ctor g) bs = Inr (t, rest)"
  shows "BindTarget_from g t \<and> bs = BindTarget_img t @ rest"
proof -
  from assms obtain m r where t: "dec (enum_codec :: 8 word codec) bs = Inr (m, r)"
    by (cases "dec (enum_codec :: 8 word codec) bs") (auto simp: BindTarget_dec_def)
  then have m: "bs = le_bytes 1 m @ r" by (auto simp: enum_codec_eq dest!: uint8.canonical_law)
  have group: "ucast (ucast (G :: 16 word) :: 64 word) = G"
    "take_bit 16 (ucast G :: 64 word) = ucast G" for G
    by (auto intro!: bit_eqI simp: bit_simps) (auto dest!: bit_imp_le_length)
  show ?thesis
    using assms t m
    by (auto simp: BindTarget_dec_def BindTarget_from_def BindTarget_img_def supported_mode_def
        BindTarget_defs res_bind_eq_Inr AND_FFFF group split: if_splits
        dest!: uint16.canonical_law uint64.canonical_law uint8.canonical_law)
qed

lemma BindTarget_codec_canonical: "canonical_codec (BindTarget_codec g) (BindTarget_from g) BindTarget_img"
proof (rule canonical_codecI)
  have sup: "supported_mode (target_mode t)" if "BindTarget_from g t" for t
    using that by (simp add: BindTarget_from_def)
  show "codec_laws (BindTarget_codec g) (BindTarget_from g) BindTarget_img"
  proof (rule codec_lawsI)
    fix bs t rest
    assume d: "dec (BindTarget_codec g) bs = Inr (t, rest)"
    then have "BindTarget_from g t" "bs = BindTarget_img t @ rest"
      using BindTarget_canonical by (auto simp: BindTarget_codec_def)
    then show "\<exists>used. bs = used @ rest \<and> (\<forall>r. dec (BindTarget_codec g) (used @ r) = Inr (t, r))"
      by (auto simp: BindTarget_codec_def BindTarget_read sup BindTarget_normal_from)
  qed (simp_all add: BindTarget_codec_def sup BindTarget_size BindTarget_write BindTarget_overflow
    BindTarget_read BindTarget_normal_from)
qed (simp add: BindTarget_codec_def BindTarget_canonical)

interpretation target: canonical_codec "BindTarget_codec g" "BindTarget_from g" BindTarget_img for g
  by (rule BindTarget_codec_canonical)

section \<open>Structures received in frames\<close>

text \<open>The members carry the structure's name.\<close>

record ResetInfo =
  reset_reason :: ResetReason
  reset_TransportRev :: "8 word"
  reset_ProductId :: "8 word"
  reset_MajorRel :: "8 word"
  reset_MinorRel :: "8 word"
  reset_HwRev :: "8 word"

record IncomingMsg =
  msg_GroupId :: "16 word"
  msg_ClusterId :: "16 word"
  msg_SrcAddr :: ShortAddress
  msg_SrcEndpoint :: "8 word"
  msg_DstEndpoint :: "8 word"
  msg_WasBroadcast :: "8 word"
  msg_LinkQuality :: "8 word"
  msg_SecurityUse :: "8 word"
  msg_TimeStamp :: "32 word"
  msg_TransSeqNumber :: "8 word"
  msg_Data :: "byte list"

record ZdoIEEEAddressResponse =
  rsp_IEEEAddr :: IEEEAddress
  rsp_NwkAddr :: ShortAddress
  rsp_StartIndex :: "8 word"
  rsp_AssocDevList :: "ShortAddress list"

record BindTableEntry =
  entry_SrcAddr :: IEEEAddress
  entry_SrcEndpoint :: "8 word"
  entry_ClusterId :: "16 word"
  entry_Target :: BindTarget

definition ResetInfo_members :: "(ResetReason \<times> 8 word \<times> 8 word \<times> 8 word \<times> 8 word \<times> 8 word) codec" where
  "ResetInfo_members = pair_codec enum_codec (pair_codec unsigned_codec (pair_codec unsigned_codec
     (pair_codec unsigned_codec (pair_codec unsigned_codec unsigned_codec))))"

definition ResetInfo_dec :: "byte list \<Rightarrow> error + (ResetInfo \<times> byte list)" where
  "ResetInfo_dec = struct_dec (\<lambda>(r, t, p, ma, mi, h).
     \<lparr> reset_reason = r, reset_TransportRev = t, reset_ProductId = p, reset_MajorRel = ma, reset_MinorRel = mi, reset_HwRev = h \<rparr>)
     (dec ResetInfo_members)"

definition IncomingMsg_members :: "(16 word \<times> 16 word \<times> ShortAddress \<times> 8 word \<times> 8 word \<times> 8 word
    \<times> 8 word \<times> 8 word \<times> 32 word \<times> 8 word \<times> byte list) codec" where
  "IncomingMsg_members = pair_codec unsigned_codec (pair_codec unsigned_codec (pair_codec unsigned_codec
     (pair_codec unsigned_codec (pair_codec unsigned_codec (pair_codec unsigned_codec
     (pair_codec unsigned_codec (pair_codec unsigned_codec (pair_codec unsigned_codec
     (pair_codec unsigned_codec (vector_codec unsigned_codec))))))))))"

definition IncomingMsg_dec :: "byte list \<Rightarrow> error + (IncomingMsg \<times> byte list)" where
  "IncomingMsg_dec = struct_dec (\<lambda>(g, c, a, se, de, b, q, su, ts, sn, d).
     \<lparr> msg_GroupId = g, msg_ClusterId = c, msg_SrcAddr = a, msg_SrcEndpoint = se, msg_DstEndpoint = de,
       msg_WasBroadcast = b, msg_LinkQuality = q, msg_SecurityUse = su, msg_TimeStamp = ts, msg_TransSeqNumber = sn,
       msg_Data = d \<rparr>)
     (dec IncomingMsg_members)"

definition ZdoIEEEAddressResponse_dec :: "byte list \<Rightarrow> error + (ZdoIEEEAddressResponse \<times> byte list)" where
  "ZdoIEEEAddressResponse_dec = struct_dec (\<lambda>(i, n, s, l).
     \<lparr> rsp_IEEEAddr = i, rsp_NwkAddr = n, rsp_StartIndex = s, rsp_AssocDevList = l \<rparr>)
     (dec (pair_codec unsigned_codec (pair_codec unsigned_codec
       (pair_codec unsigned_codec (vector_codec unsigned_codec)))))"

definition BindTableEntry_dec :: "64 word \<times> 8 word \<Rightarrow> byte list \<Rightarrow> error + (BindTableEntry \<times> byte list)" where
  "BindTableEntry_dec g = struct_dec (\<lambda>(a, e, c, t).
     \<lparr> entry_SrcAddr = a, entry_SrcEndpoint = e, entry_ClusterId = c, entry_Target = t \<rparr>)
     (dec (pair_codec unsigned_codec (pair_codec unsigned_codec
       (pair_codec unsigned_codec (BindTarget_codec g)))))"

definition show_ResetInfo :: "ResetInfo \<Rightarrow> string" where
  "show_ResetInfo info = ''['' @ show_ResetReason (reset_reason info) @ '' '' @ show_dec (unat (reset_TransportRev info))
     @ '' '' @ show_dec (unat (reset_ProductId info)) @ '' '' @ show_dec (unat (reset_MajorRel info)) @ ''.''
     @ show_dec (unat (reset_MinorRel info)) @ ''.'' @ show_dec (unat (reset_HwRev info)) @ '']''"

definition show_BindTableEntry :: "BindTableEntry \<Rightarrow> string" where
  "show_BindTableEntry entry = ''[Src [IEEE '' @ show_hex (unat (entry_SrcAddr entry)) @ '' Endpoint ''
     @ show_dec (unat (entry_SrcEndpoint entry)) @ ''] Cluster '' @ show_hex (unat (entry_ClusterId entry))
     @ '' Dst '' @ show_BindTarget (entry_Target entry) @ '']''"

interpretation incoming: canonical_codec IncomingMsg_members
  "pair_ok (\<lambda>_. True) (pair_ok (\<lambda>_. True) (pair_ok (\<lambda>_. True) (pair_ok (\<lambda>_. True) (pair_ok (\<lambda>_. True)
    (pair_ok (\<lambda>_. True) (pair_ok (\<lambda>_. True) (pair_ok (\<lambda>_. True) (pair_ok (\<lambda>_. True)
    (pair_ok (\<lambda>_. True) (vector_ok (\<lambda>_. True)))))))))))"
  "pair_img (le_bytes 2) (pair_img (le_bytes 2) (pair_img (le_bytes 2) (pair_img (le_bytes 1)
    (pair_img (le_bytes 1) (pair_img (le_bytes 1) (pair_img (le_bytes 1) (pair_img (le_bytes 1)
    (pair_img (le_bytes 4) (pair_img (le_bytes 1) (vector_img (le_bytes 1)))))))))))"
  unfolding IncomingMsg_members_def
  by (intro uint16.pair_codec_canonical uint8.pair_codec_canonical uint32.pair_codec_canonical
    bytes.canonical_codec_axioms)

section \<open>What the decoders guarantee\<close>

text \<open>
  C18: a binding target with a supported mode is encoded and decoded to a target that every getter
  finds equal, whatever the indeterminate fields of the decoder's object held; a target with
  another mode is refused by the encoder, and bytes that start with such a mode by the decoder.
\<close>

theorem bind_target_round_trip:
  "(if supported_mode (target_mode t)
    then \<exists>bs t'. Encode (BindTarget_codec g) t = Inr bs \<and> Decode (BindTarget_codec g) bs = Inr t' \<and> same_target t' t
    else Encode (BindTarget_codec g) t = unsupported_target \<and>
      Decode (BindTarget_codec g) (target_mode t # rest) = unsupported_target)"
proof (cases "supported_mode (target_mode t)")
  case True
  have "Encode (BindTarget_codec g) t = Inr (BindTarget_img t)"
    using BindTarget_size [OF True] BindTarget_write [OF True, of "length (BindTarget_img t)"]
    by (simp add: Encode_def BindTarget_codec_def)
  moreover have "Decode (BindTarget_codec g) (BindTarget_img t) = Inr (BindTarget_normal g t)"
    using BindTarget_read [OF True, of g "[]"] by (simp add: Decode_def BindTarget_codec_def)
  ultimately show ?thesis using True BindTarget_normal_same by auto
next
  case False
  then show ?thesis
    by (simp add: supported_mode_def Encode_def Decode_def BindTarget_codec_def BindTarget_GetSize_def
      BindTarget_dec_def GetMode_def codec_simps)
qed

definition IncomingMsg_img :: "IncomingMsg \<Rightarrow> byte list" where
  "IncomingMsg_img m =
     le_bytes 2 (msg_GroupId m) @ le_bytes 2 (msg_ClusterId m) @ le_bytes 2 (msg_SrcAddr m) @
     [msg_SrcEndpoint m, msg_DstEndpoint m, msg_WasBroadcast m, msg_LinkQuality m, msg_SecurityUse m] @
     le_bytes 4 (msg_TimeStamp m) @ [msg_TransSeqNumber m, word_of_nat (length (msg_Data m))] @ msg_Data m"

lemma IncomingMsg_dec_iff:
  "IncomingMsg_dec bs = Inr (m, rest) \<longleftrightarrow> length (msg_Data m) \<le> 255 \<and> bs = IncomingMsg_img m @ rest"
proof
  assume "IncomingMsg_dec bs = Inr (m, rest)"
  then obtain g c a se de b q su ts sn d where
    dec: "dec IncomingMsg_members bs = Inr ((g, c, a, se, de, b, q, su, ts, sn, d), rest)"
    and m: "m = \<lparr> msg_GroupId = g, msg_ClusterId = c, msg_SrcAddr = a, msg_SrcEndpoint = se,
      msg_DstEndpoint = de, msg_WasBroadcast = b, msg_LinkQuality = q, msg_SecurityUse = su,
      msg_TimeStamp = ts, msg_TransSeqNumber = sn, msg_Data = d \<rparr>"
    by (auto simp: IncomingMsg_dec_def struct_dec_def res_bind_eq_Inr)
  from incoming.canonical_law [OF dec] show "length (msg_Data m) \<le> 255 \<and> bs = IncomingMsg_img m @ rest"
    using concat_le_bytes_1 [of d] by (simp add: m image_defs IncomingMsg_img_def)
next
  assume bs: "length (msg_Data m) \<le> 255 \<and> bs = IncomingMsg_img m @ rest"
  let ?t = "(msg_GroupId m, msg_ClusterId m, msg_SrcAddr m, msg_SrcEndpoint m, msg_DstEndpoint m,
    msg_WasBroadcast m, msg_LinkQuality m, msg_SecurityUse m, msg_TimeStamp m, msg_TransSeqNumber m, msg_Data m)"
  have "dec IncomingMsg_members bs = Inr (?t, rest)"
    using incoming.read_law [of ?t rest] concat_le_bytes_1 [of "msg_Data m"] bs
    by (simp add: image_defs list_all_iff IncomingMsg_img_def)
  then show "IncomingMsg_dec bs = Inr (m, rest)"
    by (simp add: IncomingMsg_dec_def struct_dec_def)
qed

text \<open>
  An \<open>IncomingMsg\<close> is read from the bytes of its members, with exactly the announced number
  of data bytes, and whatever follows is left; no other bytes are accepted.
\<close>

theorem incoming_msg_format:
  "IncomingMsg_dec bs = Inr (m, rest) \<longleftrightarrow> length (msg_Data m) \<le> 255 \<and> bs =
     le_bytes 2 (msg_GroupId m) @ le_bytes 2 (msg_ClusterId m) @ le_bytes 2 (msg_SrcAddr m) @
     [msg_SrcEndpoint m, msg_DstEndpoint m, msg_WasBroadcast m, msg_LinkQuality m, msg_SecurityUse m] @
     le_bytes 4 (msg_TimeStamp m) @ [msg_TransSeqNumber m, word_of_nat (length (msg_Data m))] @ msg_Data m @ rest"
  by (simp add: IncomingMsg_dec_iff IncomingMsg_img_def)

end
