(* ===== verification/ZnpPort.thy ===== *)
theory ZnpPort
  imports ZnpTypes
begin

text \<open>
  The serial port of \<^verbatim>\<open>src/znp/znp_port.cpp\<close>: framing, the send queue, and the chain of
  read handlers.

  Asynchronous operations are explicit. \<open>async_write\<close> is an event of the model whose completion
  is a later call of \<open>SendHandler\<close>; an \<open>async_read\<close> is the pending \<open>read_op\<close> of the port,
  which collects bytes until its buffer is full and then calls its handler. The signals
  \<open>on_frame_\<close>, \<open>on_sent_\<close> and \<open>on_error_\<close> are events too.
\<close>

datatype read_op =
    Read_marker
  | Read_length
  | Read_frame nat

datatype port_event =
    Async_write "byte list"
  | On_sent ZnpCommandType ZnpCommand "byte list"
  | On_frame ZnpCommandType ZnpCommand "byte list"
  | On_error

record port =
  send_in_progress :: bool
  send_queue :: "byte list list"
  pending_read :: "read_op option"
  read_buffer :: "byte list"

section \<open>Sending\<close>

definition SOF :: byte where
  "SOF = 0xFE"

definition xor_bytes :: "byte \<Rightarrow> byte list \<Rightarrow> byte" where
  "xor_bytes crc bs = foldl (\<lambda>crc b. crc XOR b) crc bs"

text \<open>The buffer of one frame: marker, length, the two command bytes, payload, checksum.\<close>

definition command_byte :: "ZnpCommandType \<Rightarrow> ZnpCommand \<Rightarrow> byte" where
  "command_byte type command = ucast (push_bit 4 type OR (Subsystem command AND 0xF))"

definition frame_body :: "ZnpCommandType \<Rightarrow> ZnpCommand \<Rightarrow> byte list \<Rightarrow> byte list" where
  "frame_body type command payload =
     word_of_nat (length payload) # command_byte type command # RawCommand command # payload"

definition frame_buffer :: "ZnpCommandType \<Rightarrow> ZnpCommand \<Rightarrow> byte list \<Rightarrow> byte list" where
  "frame_buffer type command payload =
     SOF # frame_body type command payload @ [xor_bytes 0 (frame_body type command payload)]"

definition TrySend :: "port \<Rightarrow> port \<times> port_event list" where
  "TrySend s =
     (if send_in_progress s then (s, [])
      else case send_queue s of
        [] \<Rightarrow> (s, [])
      | first_in_queue # _ \<Rightarrow> (s\<lparr> send_in_progress := True \<rparr>, [Async_write first_in_queue]))"

definition SendFrame :: "ZnpCommandType \<Rightarrow> ZnpCommand \<Rightarrow> byte list \<Rightarrow> port
    \<Rightarrow> error + (port \<times> port_event list)" where
  "SendFrame type command payload s =
     (if length payload > 255
      then Inl (Runtime_error ''ZNP Command Payload size should not exceed 255 bytes'')
      else let (s', evs) = TrySend (s\<lparr> send_queue := send_queue s @ [frame_buffer type command payload] \<rparr>)
        in Inr (s', evs @ [On_sent type command payload]))"

definition SendHandler :: "bool \<Rightarrow> port \<Rightarrow> port \<times> port_event list" where
  "SendHandler error s =
     (if error then (s, [On_error])
      else TrySend (s\<lparr> send_queue := (if send_queue s \<noteq> [] then tl (send_queue s) else []),
                       send_in_progress := False \<rparr>))"

section \<open>Receiving\<close>

definition StartReceive :: "port \<Rightarrow> port" where
  "StartReceive s = s\<lparr> pending_read := Some Read_marker, read_buffer := [] \<rparr>"

definition port_ctor :: port where
  "port_ctor = StartReceive
     \<lparr> send_in_progress = False, send_queue = [], pending_read = None, read_buffer = [] \<rparr>"

text \<open>\<open>async_read\<close> of a buffer for \<open>op\<close>.\<close>

definition async_read :: "read_op \<Rightarrow> port \<Rightarrow> port" where
  "async_read op s = s\<lparr> pending_read := Some op, read_buffer := [] \<rparr>"

text \<open>
  The handlers run when their read is complete (the read is no longer pending) or has failed.
\<close>

definition StartOfFrameHandler :: "byte \<Rightarrow> bool \<Rightarrow> port \<Rightarrow> port \<times> port_event list" where
  "StartOfFrameHandler marker error s =
     (if error then (s, [On_error])
      else if marker \<noteq> 0xFE then (StartReceive s, [])
      else (async_read Read_length s, []))"

definition FrameLengthHandler :: "byte \<Rightarrow> bool \<Rightarrow> port \<Rightarrow> port \<times> port_event list" where
  "FrameLengthHandler len error s =
     (if error then (s, [On_error])
      else (async_read (Read_frame (2 + unat len + 1)) s, []))"

definition FrameHandler :: "byte list \<Rightarrow> bool \<Rightarrow> port \<Rightarrow> port \<times> port_event list" where
  "FrameHandler frame error s =
     (if error then (s, [On_error])
      else let s = StartReceive s;
               crc = xor_bytes (0 XOR word_of_nat (length frame - 3)) (take (length frame - 1) frame)
        in if crc \<noteq> frame ! (length frame - 1) then (s, [])
           else let type = ucast (drop_bit 4 (frame ! 0));
                    subsystem = ucast (frame ! 0 AND 0xF);
                    command = frame ! 1
             in (s, [On_frame type (subsystem, command) (butlast (drop 2 frame))]))"

definition read_size :: "read_op \<Rightarrow> nat" where
  "read_size op = (case op of Read_marker \<Rightarrow> 1 | Read_length \<Rightarrow> 1 | Read_frame n \<Rightarrow> n)"

definition read_handler :: "read_op \<Rightarrow> byte list \<Rightarrow> bool \<Rightarrow> port \<Rightarrow> port \<times> port_event list" where
  "read_handler op bs error s =
     (let s = s\<lparr> pending_read := None, read_buffer := [] \<rparr>
      in case op of
        Read_marker \<Rightarrow> StartOfFrameHandler (hd bs) error s
      | Read_length \<Rightarrow> FrameLengthHandler (hd bs) error s
      | Read_frame n \<Rightarrow> FrameHandler bs error s)"

text \<open>The device sends one byte, or the pending read fails.\<close>

definition receive_byte :: "byte \<Rightarrow> port \<Rightarrow> port \<times> port_event list" where
  "receive_byte b s = (case pending_read s of
       None \<Rightarrow> (s, [])
     | Some op \<Rightarrow>
         let got = read_buffer s @ [b]
         in if length got = read_size op then read_handler op got False s
            else (s\<lparr> read_buffer := got \<rparr>, []))"

fun receive :: "byte list \<Rightarrow> port \<Rightarrow> port \<times> port_event list" where
  "receive [] s = (s, [])"
| "receive (b # bs) s =
     (let (s', evs) = receive_byte b s; (s'', evs') = receive bs s' in (s'', evs @ evs'))"

definition read_error :: "port \<Rightarrow> port \<times> port_event list" where
  "read_error s = (case pending_read s of
       None \<Rightarrow> (s, [])
     | Some op \<Rightarrow> read_handler op (read_buffer s) True s)"


section \<open>What arrives is what was sent\<close>

definition idle :: "port \<Rightarrow> bool" where
  "idle s \<longleftrightarrow> pending_read s = Some Read_marker \<and> read_buffer s = []"

text \<open>The types and subsystems that fit their half of the first command byte.\<close>

definition nibbles :: "ZnpCommandType \<Rightarrow> ZnpCommand \<Rightarrow> bool" where
  "nibbles type command \<longleftrightarrow> type < 16 \<and> Subsystem command < 16"

lemma idle_StartReceive [simp]: "idle s \<Longrightarrow> StartReceive s = s"
  by (simp add: idle_def StartReceive_def)

lemma StartReceive_update [simp]:
  "StartReceive (s\<lparr> pending_read := x, read_buffer := y \<rparr>) = StartReceive s"
  by (simp add: StartReceive_def)

lemma receive_append:
  "receive (xs @ ys) s = (let (s', evs) = receive xs s; (s'', evs') = receive ys s' in (s'', evs @ evs'))"
  by (induction xs arbitrary: s) (auto simp: Let_def split: prod.splits)

lemma read_handler_buffer [simp]:
  "read_handler op bs e (s\<lparr> read_buffer := x \<rparr>) = read_handler op bs e s"
  by (simp add: read_handler_def)

lemma receive_fill:
  assumes "pending_read s = Some op" "bs \<noteq> []" "length (read_buffer s) + length bs = read_size op"
  shows "receive bs s = read_handler op (read_buffer s @ bs) False s"
  using assms
proof (induction bs arbitrary: s)
  case (Cons b bs)
  show ?case
  proof (cases "bs = []")
    case False
    then have "length (read_buffer s @ [b]) \<noteq> read_size op" using Cons.prems(3) by (cases bs) auto
    with False Cons.prems Cons.IH [of "s\<lparr> read_buffer := read_buffer s @ [b] \<rparr>"]
    show ?thesis by (simp add: receive_byte_def split: prod.splits)
  qed (use Cons.prems in \<open>simp add: receive_byte_def split: prod.splits\<close>)
qed simp

lemma receive_noise: "idle s \<Longrightarrow> b \<noteq> SOF \<Longrightarrow> receive_byte b s = (s, [])"
  by (simp add: idle_def receive_byte_def read_size_def read_handler_def StartOfFrameHandler_def
    SOF_def StartReceive_def)

lemma receive_noise_bytes: "idle s \<Longrightarrow> SOF \<notin> set noise \<Longrightarrow> receive noise s = (s, [])"
  by (induction noise) (auto simp: receive_noise)

lemma xor_bytes_append: "xor_bytes crc (xs @ ys) = xor_bytes (xor_bytes crc xs) ys"
  by (simp add: xor_bytes_def)

lemma receive_frame_bytes:
  assumes "idle s" and n: "length body = Suc (Suc (unat n))"
  shows "receive (SOF # n # body @ [crc]) s =
    (s, if xor_bytes n body = crc
        then [On_frame (ucast (drop_bit 4 (body ! 0))) (ucast (body ! 0 AND 0xF), body ! 1) (drop 2 body)]
        else [])"
proof -
  define s2 where "s2 = s\<lparr> pending_read := Some (Read_frame (2 + unat n + 1)), read_buffer := [] \<rparr>"
  have s: "s\<lparr> pending_read := Some Read_marker, read_buffer := [] \<rparr> = s"
    using assms(1) by (simp add: idle_def)
  have "receive [SOF, n] s = (s2, [])"
    using assms(1) by (simp add: idle_def receive_byte_def read_size_def read_handler_def
      StartOfFrameHandler_def FrameLengthHandler_def async_read_def SOF_def s2_def)
  moreover have "receive (body @ [crc]) s2 = read_handler (Read_frame (2 + unat n + 1)) (body @ [crc]) False s2"
    using n by (subst receive_fill [of _ "Read_frame (2 + unat n + 1)"]) (auto simp: s2_def read_size_def)
  ultimately show ?thesis
    using n receive_append [of "[SOF, n]" "body @ [crc]" s]
    by (auto simp: read_handler_def FrameHandler_def Let_def StartReceive_def s2_def s nth_append)
qed

lemma AND_F: "w AND 0xF = take_bit 4 (w :: 'a::len word)"
  by (simp add: take_bit_eq_mask mask_eq_exp_minus_1)

lemma take_bit_4_small: "w < 16 \<Longrightarrow> take_bit 4 w = (w :: 32 word)"
proof -
  assume "w < 16"
  then have "unat w < 16" by (simp add: word_less_nat_alt)
  then show ?thesis by (simp add: word_unat_eq_iff unat_mod take_bit_eq_mod)
qed

lemma command_byte_nibbles:
  assumes "nibbles type command"
  shows "ucast (drop_bit 4 (command_byte type command)) = type"
    "ucast (command_byte type command AND 0xF) = Subsystem command"
proof -
  have t: "take_bit 4 type = type" "take_bit 4 (Subsystem command) = Subsystem command"
    using assms by (simp_all add: nibbles_def take_bit_4_small)
  then have bits: "bit type n \<Longrightarrow> n < 4" "bit (Subsystem command) n \<Longrightarrow> n < 4" for n
    by (metis bit_take_bit_iff)+
  show "ucast (drop_bit 4 (command_byte type command)) = type"
    by (rule bit_eqI) (auto simp: command_byte_def AND_F bit_simps dest: bits)
  show "ucast (command_byte type command AND 0xF) = Subsystem command"
    by (rule bit_eqI) (auto simp: command_byte_def AND_F bit_simps dest: bits)
qed

lemma receive_frame_buffer:
  assumes "idle s" "nibbles type command" "length payload \<le> 255"
  shows "receive (frame_buffer type command payload) s = (s, [On_frame type command payload])"
proof -
  have "unat (word_of_nat (length payload) :: byte) = length payload"
    using assms(3) by (simp add: unat_of_nat)
  with assms(1) receive_frame_bytes [of s "command_byte type command # RawCommand command # payload"
      "word_of_nat (length payload)" "xor_bytes 0 (frame_body type command payload)"]
  show ?thesis
    by (simp add: frame_buffer_def frame_body_def xor_bytes_def command_byte_nibbles [OF assms(2)]
      Subsystem_def RawCommand_def)
qed

text \<open>A stretch of line noise followed by a frame, repeated.\<close>

type_synonym sent_frame = "ZnpCommandType \<times> ZnpCommand \<times> byte list"

fun noisy_stream :: "(byte list \<times> sent_frame) list \<Rightarrow> byte list" where
  "noisy_stream [] = []"
| "noisy_stream ((noise, type, command, payload) # rest) =
     noise @ frame_buffer type command payload @ noisy_stream rest"

fun frames_ok :: "(byte list \<times> sent_frame) list \<Rightarrow> bool" where
  "frames_ok [] \<longleftrightarrow> True"
| "frames_ok ((noise, type, command, payload) # rest) \<longleftrightarrow>
     SOF \<notin> set noise \<and> nibbles type command \<and> length payload \<le> 255 \<and> frames_ok rest"

definition received_frame :: "byte list \<times> sent_frame \<Rightarrow> port_event" where
  "received_frame f = (case f of (noise, type, command, payload) \<Rightarrow> On_frame type command payload)"

lemma receive_stream:
  "idle s \<Longrightarrow> frames_ok fs \<Longrightarrow> receive (noisy_stream fs) s = (s, map received_frame fs)"
  by (induction fs rule: noisy_stream.induct)
    (auto simp: receive_append receive_noise_bytes receive_frame_buffer received_frame_def)

lemma idle_ctor: "idle port_ctor"
  by (simp add: idle_def port_ctor_def StartReceive_def)

text \<open>
  C12: the bytes that \<open>SendFrame\<close> queues for any number of frames, with any line noise between
  them that has no start marker, are received as exactly those frames, in order, and leave the
  reader waiting for the next marker.
\<close>

theorem framing_round_trip:
  assumes "frames_ok fs"
  shows "receive (noisy_stream fs) port_ctor = (port_ctor, map received_frame fs)"
  by (rule receive_stream [OF idle_ctor assms])

text \<open>A witness: two frames behind noise, the second with a payload.\<close>

theorem framing_round_trip_witness:
  "receive (noisy_stream [([0x00, 0x12], ZnpCommandType_SREQ, SysCmd SysCommand_PING, []),
      ([], ZnpCommandType_AREQ, ZdoCmd ZdoCommand_STATE_CHANGE_IND, [9])]) port_ctor
    = (port_ctor, [On_frame ZnpCommandType_SREQ (SysCmd SysCommand_PING) [],
        On_frame ZnpCommandType_AREQ (ZdoCmd ZdoCommand_STATE_CHANGE_IND) [9]])"
  by (subst framing_round_trip)
    (simp_all add: nibbles_def Subsystem_def command_defs SOF_def received_frame_def)

section \<open>Corruption\<close>

lemma xor_bytes_start: "xor_bytes (a XOR c) bs = a XOR xor_bytes c bs"
  by (induction bs arbitrary: c) (simp_all add: xor_bytes_def xor.assoc)

lemma xor_bytes_update:
  "i < length bs \<Longrightarrow> xor_bytes c (bs[i := b]) = (bs ! i XOR b) XOR xor_bytes c bs"
proof (induction bs arbitrary: c i)
  case (Cons x bs)
  show ?case
  proof (cases i)
    case 0
    have "c XOR b = (x XOR b) XOR (c XOR x)" by (rule bit_eqI) (auto simp: bit_simps)
    then show ?thesis using 0 xor_bytes_start [of "x XOR b" "c XOR x" bs] by (simp add: xor_bytes_def)
  next
    case (Suc j)
    with Cons show ?thesis by (simp add: xor_bytes_def)
  qed
qed simp

lemma xor_eq_self: "(a XOR b) XOR c = c \<longleftrightarrow> a = (b :: byte)"
  by (metis xor.assoc xor.commute xor.right_neutral xor_self_eq xor.left_neutral)

text \<open>
  C20: if one byte behind the length byte of a frame (a command byte, a payload byte or the
  checksum) is changed on the line, the frame is dropped without an event, and the reader waits
  for the next marker.
\<close>

theorem corrupted_frame_dropped:
  assumes "length payload \<le> 255" "2 \<le> i" "i < length (frame_buffer type command payload)"
    "b \<noteq> frame_buffer type command payload ! i"
  shows "receive ((frame_buffer type command payload)[i := b]) port_ctor = (port_ctor, [])"
proof -
  let ?n = "word_of_nat (length payload) :: byte"
  let ?body = "command_byte type command # RawCommand command # payload"
  let ?crc = "xor_bytes ?n ?body"
  have n: "length ?body = Suc (Suc (unat ?n))" using assms(1) by (simp add: unat_of_nat)
  have frame: "frame_buffer type command payload = SOF # ?n # ?body @ [?crc]"
    by (simp add: frame_buffer_def frame_body_def xor_bytes_def)
  obtain k where k: "i = Suc (Suc k)" using assms(2) by (metis add_2_eq_Suc le_Suc_ex)
  show ?thesis
  proof (cases "k < length ?body")
    case True
    with assms(4) have "?body ! k \<noteq> b" by (simp only: frame k nth_Cons_Suc nth_append) simp
    moreover from True have "(frame_buffer type command payload)[i := b] = SOF # ?n # ?body[k := b] @ [?crc]"
      by (simp only: frame k list_update_code list_update_append) simp
    ultimately show ?thesis
      using True n receive_frame_bytes [OF idle_ctor, of "?body[k := b]" ?n ?crc]
      by (simp only: length_list_update xor_bytes_update xor_eq_self) simp
  next
    case False
    with assms(3) have k': "k = length ?body" by (simp only: frame k) simp
    with assms(4) have "?crc \<noteq> b" by (simp only: frame k nth_Cons_Suc nth_append) simp
    moreover from k' have "(frame_buffer type command payload)[i := b] = SOF # ?n # ?body @ [b]"
      by (simp only: frame k list_update_code list_update_append) simp
    ultimately show ?thesis using n receive_frame_bytes [OF idle_ctor, of ?body ?n b] by simp
  qed
qed

theorem corrupted_frame_dropped_witness:
  "receive ((frame_buffer ZnpCommandType_SREQ (SysCmd SysCommand_PING) [7])[4 := 8]) port_ctor = (port_ctor, [])"
  by (rule corrupted_frame_dropped) (simp_all add: frame_buffer_def frame_body_def)

section \<open>The send queue\<close>

text \<open>
  The runs of a port, with three histories: the frames accepted by \<open>SendFrame\<close>, the buffers
  handed to \<open>async_write\<close>, and whether such a write is outstanding. A completion is only called
  for an outstanding write.
\<close>

definition writes :: "port_event list \<Rightarrow> byte list list" where
  "writes evs = concat (map (\<lambda>e. case e of Async_write bs \<Rightarrow> [bs] | _ \<Rightarrow> []) evs)"

inductive port_run :: "port \<Rightarrow> byte list list \<Rightarrow> byte list list \<Rightarrow> bool \<Rightarrow> bool" where
  run_start: "port_run port_ctor [] [] False"
| run_send: "port_run s sent written outstanding \<Longrightarrow> SendFrame type command payload s = Inr (s', evs)
    \<Longrightarrow> port_run s' (sent @ [frame_buffer type command payload]) (written @ writes evs)
         (outstanding \<or> writes evs \<noteq> [])"
| run_written: "port_run s sent written True \<Longrightarrow> SendHandler False s = (s', evs)
    \<Longrightarrow> port_run s' sent (written @ writes evs) (writes evs \<noteq> [])"
| run_write_failed: "port_run s sent written True \<Longrightarrow> SendHandler True s = (s', evs)
    \<Longrightarrow> port_run s' sent (written @ writes evs) False"
| run_receive: "port_run s sent written outstanding \<Longrightarrow> receive_byte b s = (s', evs)
    \<Longrightarrow> port_run s' sent (written @ writes evs) outstanding"
| run_read_error: "port_run s sent written outstanding \<Longrightarrow> read_error s = (s', evs)
    \<Longrightarrow> port_run s' sent (written @ writes evs) outstanding"

definition queue_inv :: "port \<Rightarrow> byte list list \<Rightarrow> byte list list \<Rightarrow> bool \<Rightarrow> bool" where
  "queue_inv s sent written outstanding \<longleftrightarrow>
     (if send_in_progress s
      then \<exists>done bs queue. written = done @ [bs] \<and> send_queue s = bs # queue \<and> sent = written @ queue
      else send_queue s = [] \<and> written = sent \<and> \<not> outstanding)"

lemma queue_inv_TrySend:
  "\<not> send_in_progress s \<Longrightarrow> sent = written @ send_queue s \<Longrightarrow> TrySend s = (s', evs)
   \<Longrightarrow> queue_inv s' sent (written @ writes evs) (writes evs \<noteq> [])"
  by (auto simp: TrySend_def queue_inv_def writes_def split: list.splits)

lemma receive_keeps_queue:
  "receive_byte b s = (s', evs) \<Longrightarrow> send_queue s' = send_queue s \<and> send_in_progress s' = send_in_progress s
     \<and> writes evs = []"
  by (auto simp: receive_byte_def read_handler_def StartOfFrameHandler_def FrameLengthHandler_def
    FrameHandler_def StartReceive_def async_read_def Let_def writes_def
    split: option.splits read_op.splits if_splits)

lemma read_error_keeps_queue:
  "read_error s = (s', evs) \<Longrightarrow> send_queue s' = send_queue s \<and> send_in_progress s' = send_in_progress s
     \<and> writes evs = []"
  by (auto simp: read_error_def read_handler_def StartOfFrameHandler_def FrameLengthHandler_def
    FrameHandler_def Let_def writes_def split: option.splits read_op.splits)

lemma writes_append [simp]: "writes (xs @ ys) = writes xs @ writes ys"
  by (simp add: writes_def)

lemma writes_sent [simp]: "writes [On_sent t c p] = []"
  by (simp add: writes_def)

lemma queue_inv_send:
  assumes inv: "queue_inv s sent written outstanding"
    and send: "SendFrame type command payload s = Inr (s', evs)"
  shows "queue_inv s' (sent @ [frame_buffer type command payload]) (written @ writes evs)
    (outstanding \<or> writes evs \<noteq> [])"
proof (cases "send_in_progress s")
  case True
  with inv send show ?thesis
    by (auto simp: queue_inv_def SendFrame_def TrySend_def split: if_splits)
next
  case False
  let ?s = "s\<lparr> send_queue := send_queue s @ [frame_buffer type command payload] \<rparr>"
  from False inv have "sent = written" "send_queue s = []" "\<not> outstanding"
    by (auto simp: queue_inv_def)
  with False send queue_inv_TrySend [of ?s "sent @ [frame_buffer type command payload]" written s']
  show ?thesis by (auto simp: SendFrame_def split: if_splits prod.splits)
qed

lemma queue_inv_written:
  assumes inv: "queue_inv s sent written True" and handler: "SendHandler False s = (s', evs)"
  shows "queue_inv s' sent (written @ writes evs) (writes evs \<noteq> []) \<and> send_queue s' = tl (send_queue s)"
proof -
  from inv obtain front bs queue where q: "written = front @ [bs]" "send_queue s = bs # queue"
    "sent = written @ queue" by (auto simp: queue_inv_def split: if_splits)
  let ?s = "s\<lparr> send_queue := queue, send_in_progress := False \<rparr>"
  from q handler have h: "TrySend ?s = (s', evs)" by (simp add: SendHandler_def)
  then have "send_queue s' = queue" by (auto simp: TrySend_def split: list.splits)
  with queue_inv_TrySend [of ?s sent written s' evs] h q show ?thesis by simp
qed

lemma run_queue_inv: "port_run s sent written outstanding \<Longrightarrow> queue_inv s sent written outstanding"
proof (induction rule: port_run.induct)
  case run_start
  then show ?case by (simp add: queue_inv_def port_ctor_def StartReceive_def)
next
  case (run_send s sent written outstanding type command payload s' evs)
  then show ?case by (blast intro: queue_inv_send)
next
  case (run_written s sent written s' evs)
  with queue_inv_written show ?case by blast
next
  case (run_write_failed s sent written s' evs)
  then show ?case by (auto simp: queue_inv_def SendHandler_def writes_def split: if_splits)
next
  case (run_receive s sent written outstanding b s' evs)
  then show ?case by (auto simp: queue_inv_def dest!: receive_keeps_queue split: if_splits)
next
  case (run_read_error s sent written outstanding s' evs)
  then show ?case by (auto simp: queue_inv_def dest!: read_error_keeps_queue split: if_splits)
qed

text \<open>
  C13: in every run the buffers handed to the serial port are, in order, a prefix of the frames
  accepted by \<open>SendFrame\<close>; the rest of them is the queue behind the buffer being written, and
  nothing is left over when no write is in progress.
\<close>

theorem writes_in_order:
  assumes "port_run s sent written outstanding"
  shows "sent = written @ (if send_in_progress s then tl (send_queue s) else [])"
  using run_queue_inv [OF assms] by (auto simp: queue_inv_def split: if_splits)

text \<open>
  \<open>SendFrame\<close> starts no write while one is outstanding, so the buffers of two frames are
  never interleaved on the line.
\<close>

theorem one_write_at_a_time:
  assumes "port_run s sent written True" "SendFrame type command payload s = Inr (s', evs)"
  shows "writes evs = [] \<and> send_queue s' = send_queue s @ [frame_buffer type command payload]"
  using run_queue_inv [OF assms(1)] assms(2)
  by (auto simp: queue_inv_def SendFrame_def TrySend_def split: if_splits)

text \<open>\<open>n\<close> writes complete one after the other, as long as there is one outstanding.\<close>

fun complete_writes :: "nat \<Rightarrow> port \<Rightarrow> port \<times> port_event list" where
  "complete_writes 0 s = (s, [])"
| "complete_writes (Suc n) s =
     (let (s', evs) = SendHandler False s; (s'', evs') = complete_writes n s' in (s'', evs @ evs'))"

lemma complete_writes_drain:
  "queue_inv s sent written True \<Longrightarrow> complete_writes (length (send_queue s)) s = (s', evs)
   \<Longrightarrow> written @ writes evs = sent \<and> send_queue s' = [] \<and> \<not> send_in_progress s'"
proof (induction "length (send_queue s)" arbitrary: s written evs)
  case 0
  then show ?case by (auto simp: queue_inv_def split: if_splits)
next
  case (Suc n)
  obtain s1 evs1 where h: "SendHandler False s = (s1, evs1)" by fastforce
  obtain evs2 where rest: "complete_writes n s1 = (s', evs2)" and evs: "evs = evs1 @ evs2"
    using Suc.prems(2) h by (auto simp: Suc.hyps(2) [symmetric] split: prod.splits)
  from queue_inv_written [OF Suc.prems(1) h]
  have inv: "queue_inv s1 sent (written @ writes evs1) (writes evs1 \<noteq> [])"
    and q: "send_queue s1 = tl (send_queue s)" by blast+
  then have n: "n = length (send_queue s1)" using Suc.hyps(2) by simp
  show ?case
  proof (cases n)
    case 0
    with inv n rest evs show ?thesis by (auto simp: queue_inv_def split: if_splits)
  next
    case (Suc m)
    with inv n have "send_queue s1 \<noteq> []" by auto
    with h have "writes evs1 \<noteq> []"
      by (auto simp: SendHandler_def TrySend_def writes_def split: list.splits if_splits)
    with inv Suc.hyps(1) [OF n, of "written @ writes evs1" evs2] n rest evs show ?thesis by simp
  qed
qed

text \<open>
  C19: when no write fails, every accepted frame is written: as many completions as there are
  queued buffers hand the remaining ones to the port and leave an empty queue and an idle sender.
\<close>

theorem queue_drains:
  assumes "port_run s sent written True"
    and "complete_writes (length (send_queue s)) s = (s', evs)"
  shows "written @ writes evs = sent \<and> send_queue s' = [] \<and> \<not> send_in_progress s'"
  using complete_writes_drain [OF run_queue_inv [OF assms(1)] assms(2)] .

text \<open>A run for the witnesses: \<open>SysPing\<close> sent twice, the first write outstanding.\<close>

abbreviation ping_frame :: "byte list" where
  "ping_frame \<equiv> frame_buffer ZnpCommandType_SREQ (SysCmd SysCommand_PING) []"

abbreviation one_ping :: port where
  "one_ping \<equiv> port_ctor\<lparr> send_queue := [ping_frame], send_in_progress := True \<rparr>"

abbreviation two_pings :: port where
  "two_pings \<equiv> port_ctor\<lparr> send_queue := [ping_frame, ping_frame], send_in_progress := True \<rparr>"

lemma send_first_ping: "SendFrame ZnpCommandType_SREQ (SysCmd SysCommand_PING) [] port_ctor
    = Inr (one_ping, [Async_write ping_frame, On_sent ZnpCommandType_SREQ (SysCmd SysCommand_PING) []])"
  by (simp add: SendFrame_def TrySend_def port_ctor_def StartReceive_def)

lemma send_second_ping: "SendFrame ZnpCommandType_SREQ (SysCmd SysCommand_PING) [] one_ping
    = Inr (two_pings, [On_sent ZnpCommandType_SREQ (SysCmd SysCommand_PING) []])"
  by (simp add: SendFrame_def TrySend_def port_ctor_def StartReceive_def)

lemma one_ping_run: "port_run one_ping [ping_frame] [ping_frame] True"
  using run_send [OF run_start send_first_ping] by (simp add: writes_def)

lemma two_pings_run: "port_run two_pings [ping_frame, ping_frame] [ping_frame] True"
  using run_send [OF one_ping_run send_second_ping] by (simp add: writes_def)

theorem writes_in_order_witness:
  "[ping_frame, ping_frame] = [ping_frame] @ tl (send_queue two_pings)"
  using writes_in_order [OF two_pings_run] by simp

theorem one_write_at_a_time_witness:
  "send_queue two_pings = send_queue one_ping @ [ping_frame]"
  using one_write_at_a_time [OF one_ping_run send_second_ping] by (rule conjunct2)

theorem queue_drains_witness:
  "[ping_frame] @ writes (snd (complete_writes 2 two_pings)) = [ping_frame, ping_frame]
    \<and> send_queue (fst (complete_writes 2 two_pings)) = []"
  using queue_drains [OF two_pings_run, of "fst (complete_writes 2 two_pings)"
    "snd (complete_writes 2 two_pings)"] by (simp add: numeral_2_eq_2)

end

