(* ===== verification/ZnpApi.thy ===== *)
theory ZnpApi
  imports ZnpPort
begin

text \<open>
  The request/response layer of \<^verbatim>\<open>src/znp/znp_api.cpp\<close> and \<^verbatim>\<open>src/znp/znp_api.h\<close>.

  The list \<open>handlers_\<close> holds closures in the source; here each kind of closure is a constructor
  of \<open>frame_handler\<close> with the variables it captures. A \<open>stlab\<close> promise is a number, and calling
  it appends its result to the log \<open>settled\<close>; all futures use the immediate executor, so a
  continuation attached with \<open>then\<close> runs when the promise is called. Continuations that only
  compute are part of the \<open>future\<close>; the ones that touch the object (\<open>WaitAfter\<close>,
  \<open>WaitForState\<close>) are kept in the state. Signals append to the log \<open>emitted\<close>; the slots the
  object itself connects (\<open>SysReset\<close>, \<open>WaitForState\<close>) are kept in the state.
\<close>

section \<open>State\<close>

type_synonym promise = nat
type_synonym timer = nat

datatype signal =
    sys_on_reset
  | zdo_on_state_change
  | zdo_on_end_device_announce
  | zdo_on_trustcenter_device
  | zdo_on_permit_join
  | af_on_incoming_msg

datatype event =
    Reset ResetInfo
  | State_change DeviceState
  | End_device_announce ShortAddress ShortAddress IEEEAddress "8 word"
  | Trustcenter_device ShortAddress IEEEAddress ShortAddress
  | Permit_join "8 word"
  | Incoming_msg IncomingMsg

datatype frame_handler =
    Simple_event ZnpCommandType ZnpCommand signal bool
  | SReq "ZnpCommand list" promise
  | Wait ZnpCommandType ZnpCommand "byte list" promise
  | With_timeout timer frame_handler

record FrameHandlerAction =
  stop_processing :: bool
  remove_me :: bool

datatype 'a future = Future promise "byte list \<Rightarrow> error + 'a"

datatype continuation =
    Wait_after "byte list \<Rightarrow> error + unit" ZnpCommandType ZnpCommand int "byte list" promise
  | Wait_for_state "byte list \<Rightarrow> error + DeviceState" "DeviceState list" "DeviceState list" promise

record api =
  raw :: port
  outputs :: "port_event list"
  handlers :: "frame_handler list"
  timers :: "(timer \<times> bool \<times> promise) list"
  reset_slots :: "promise list"
  state_slots :: "(promise \<times> DeviceState list \<times> DeviceState list) list"
  continuations :: "(promise \<times> continuation) list"
  settled :: "(promise \<times> (error + byte list)) list"
  reset_settled :: "(promise \<times> ResetInfo) list"
  state_settled :: "(promise \<times> (error + DeviceState)) list"
  emitted :: "event list"
  next_promise :: promise

section \<open>Futures\<close>

definition future_then :: "'a future \<Rightarrow> ('a \<Rightarrow> error + 'b) \<Rightarrow> 'b future" where
  "future_then f g = (case f of Future p d \<Rightarrow> Future p (\<lambda>bs. res_bind (d bs) g))"

definition future_value :: "api \<Rightarrow> 'a future \<Rightarrow> (error + 'a) option" where
  "future_value s f = (case f of Future p d \<Rightarrow>
     map_option (\<lambda>r. res_bind r d) (map_of (settled s) p))"

text \<open>A call that may throw leaves the object changed and yields a future or the exception.\<close>

type_synonym 'a call = "api \<Rightarrow> api \<times> (error + 'a)"

definition call_then :: "'a future call \<Rightarrow> ('a \<Rightarrow> error + 'b) \<Rightarrow> 'b future call" where
  "call_then m g s = (let (s', r) = m s in (s', res_bind r (\<lambda>f. Inr (future_then f g))))"

definition call_with :: "(error + 'a) \<Rightarrow> ('a \<Rightarrow> 'b call) \<Rightarrow> 'b call" where
  "call_with r m s = (case r of Inl e \<Rightarrow> (s, Inl e) | Inr x \<Rightarrow> m x s)"

section \<open>Status bytes\<close>

definition CheckStatus :: "byte list \<Rightarrow> error + byte list" where
  "CheckStatus response =
     (if length response < 1 then Inl (Runtime_error ''Empty response received'')
      else if response ! 0 \<noteq> ZnpStatus_Success then Inl (Runtime_error ''ZNP Status was not success'')
      else Inr (drop 1 response))"

definition CheckOnlyStatus :: "byte list \<Rightarrow> error + unit" where
  "CheckOnlyStatus response = res_bind (CheckStatus response) (\<lambda>rest.
     if length rest \<noteq> 0 then Inl (Runtime_error ''Empty response after status expected'') else Inr ())"

section \<open>Handlers\<close>

definition event_dec :: "signal \<Rightarrow> byte list \<Rightarrow> error + (event \<times> byte list)" where
  "event_dec sig = (case sig of
     sys_on_reset \<Rightarrow> struct_dec Reset ResetInfo_dec
   | zdo_on_state_change \<Rightarrow> struct_dec State_change (dec enum_codec)
   | zdo_on_end_device_announce \<Rightarrow> struct_dec (\<lambda>(a, b, c, d). End_device_announce a b c d)
       (dec (pair_codec unsigned_codec (pair_codec unsigned_codec (pair_codec unsigned_codec unsigned_codec))))
   | zdo_on_trustcenter_device \<Rightarrow> struct_dec (\<lambda>(a, b, c). Trustcenter_device a b c)
       (dec (pair_codec unsigned_codec (pair_codec unsigned_codec unsigned_codec)))
   | zdo_on_permit_join \<Rightarrow> struct_dec Permit_join (dec unsigned_codec)
   | af_on_incoming_msg \<Rightarrow> struct_dec Incoming_msg IncomingMsg_dec)"

definition decode_event :: "bool \<Rightarrow> signal \<Rightarrow> byte list \<Rightarrow> error + event" where
  "decode_event allow_partial sig data = res_bind (event_dec sig data) (\<lambda>(ev, rest).
     if \<not> allow_partial \<and> rest \<noteq> [] then Inl (Runtime_error ''Decoding failure: Not all bytes parsed'')
     else Inr ev)"

text \<open>The slots that \<open>SysReset\<close> and \<open>WaitForState\<close> connect.\<close>

definition reset_slot :: "ResetInfo \<Rightarrow> api \<Rightarrow> api" where
  "reset_slot info s = s\<lparr> reset_slots := [],
     reset_settled := reset_settled s @ map (\<lambda>p. (p, info)) (reset_slots s) \<rparr>"

definition state_slot_result :: "DeviceState \<Rightarrow> promise \<times> DeviceState list \<times> DeviceState list
    \<Rightarrow> (promise \<times> (error + DeviceState)) option" where
  "state_slot_result state slot = (case slot of (p, end_states, allowed_states) \<Rightarrow>
     if state \<in> set end_states then Some (p, Inr state)
     else if state \<notin> set allowed_states then Some (p, Inl (Runtime_error ''Non-allowed state reached''))
     else None)"

definition state_change_slot :: "DeviceState \<Rightarrow> api \<Rightarrow> api" where
  "state_change_slot state s = s\<lparr>
     state_slots := filter (\<lambda>slot. state_slot_result state slot = None) (state_slots s),
     state_settled := state_settled s @ List.map_filter (state_slot_result state) (state_slots s) \<rparr>"

definition emit :: "event \<Rightarrow> api \<Rightarrow> api" where
  "emit ev s = (let s = s\<lparr> emitted := emitted s @ [ev] \<rparr> in case ev of
     Reset info \<Rightarrow> reset_slot info s
   | State_change state \<Rightarrow> state_change_slot state s
   | _ \<Rightarrow> s)"

text \<open>\<open>AddHandlerWithTimeout\<close>; the timeout handler of its only caller calls the promise.\<close>

definition AddHandlerWithTimeout :: "int \<Rightarrow> frame_handler \<Rightarrow> promise \<Rightarrow> api \<Rightarrow> api" where
  "AddHandlerWithTimeout timeout_in_seconds handler timeout_promise s =
     (if timeout_in_seconds \<le> 0 then s\<lparr> handlers := handlers s @ [handler] \<rparr>
      else let t = length (timers s)
        in s\<lparr> timers := timers s @ [(t, True, timeout_promise)],
              handlers := handlers s @ [With_timeout t handler] \<rparr>)"

definition WaitFor :: "ZnpCommandType \<Rightarrow> ZnpCommand \<Rightarrow> int \<Rightarrow> byte list \<Rightarrow> promise \<Rightarrow> api \<Rightarrow> api" where
  "WaitFor type command timeout_in_seconds data_prefix p s =
     AddHandlerWithTimeout timeout_in_seconds (Wait type command data_prefix p) p s"

definition log_result :: "promise \<Rightarrow> error + byte list \<Rightarrow> api \<Rightarrow> api" where
  "log_result p r s = s\<lparr> settled := settled s @ [(p, r)] \<rparr>"

definition wait_after_continuation :: "(byte list \<Rightarrow> error + unit) \<Rightarrow> ZnpCommandType \<Rightarrow> ZnpCommand \<Rightarrow> int
    \<Rightarrow> byte list \<Rightarrow> promise \<Rightarrow> error + byte list \<Rightarrow> api \<Rightarrow> api" where
  [simp]: "wait_after_continuation first type command timeout_in_seconds data_prefix q r s =
     (case res_bind r first of
        Inl e \<Rightarrow> log_result q (Inl e) s
      | Inr u \<Rightarrow> WaitFor type command timeout_in_seconds data_prefix q s)"

definition wait_for_state_continuation :: "(byte list \<Rightarrow> error + DeviceState) \<Rightarrow> DeviceState list
    \<Rightarrow> DeviceState list \<Rightarrow> promise \<Rightarrow> error + byte list \<Rightarrow> api \<Rightarrow> api" where
  [simp]: "wait_for_state_continuation first end_states allowed_states q r s =
     (case res_bind r first of
        Inl e \<Rightarrow> s\<lparr> state_settled := state_settled s @ [(q, Inl e)] \<rparr>
      | Inr state \<Rightarrow>
          if state \<in> set end_states then s\<lparr> state_settled := state_settled s @ [(q, Inr state)] \<rparr>
          else if state \<notin> set allowed_states
            then s\<lparr> state_settled := state_settled s @ [(q, Inl (Runtime_error ''Invalid state reached''))] \<rparr>
          else s\<lparr> state_slots := state_slots s @ [(q, end_states, allowed_states)] \<rparr>)"

definition continue_with :: "continuation \<Rightarrow> error + byte list \<Rightarrow> api \<Rightarrow> api" where
  "continue_with k r s = (case k of
     Wait_after first type command timeout_in_seconds data_prefix q \<Rightarrow>
       wait_after_continuation first type command timeout_in_seconds data_prefix q r s
   | Wait_for_state first end_states allowed_states q \<Rightarrow>
       wait_for_state_continuation first end_states allowed_states q r s)"

text \<open>Calling a promise: its result is stored and its continuation runs.\<close>

definition call_promise :: "promise \<Rightarrow> error + byte list \<Rightarrow> api \<Rightarrow> api" where
  "call_promise p r s = (let s = log_result p r s in
     case map_of (continuations s) p of None \<Rightarrow> s | Some k \<Rightarrow> continue_with k r s)"

definition rpc_error_for :: "ZnpCommand list \<Rightarrow> byte list \<Rightarrow> error option" where
  "rpc_error_for possible_responses data =
     (case Decode (pair_codec unsigned_codec (pair_codec unsigned_codec unsigned_codec)) data of
        Inl e \<Rightarrow> None
      | Inr (code :: 8 word, cmd0 :: 8 word, cmd1 :: 8 word) \<Rightarrow>
          if (ucast (drop_bit 4 cmd0) :: ZnpCommandType) = ZnpCommandType_SREQ
             \<and> (ucast (cmd0 AND 0xF), cmd1) \<in> set possible_responses
          then Some (Runtime_error (''RPC Error: '' @ show_dec (unat code)))
          else None)"

definition timer_active :: "timer \<Rightarrow> api \<Rightarrow> bool" where
  "timer_active t s = (case map_of (timers s) t of Some (active, _) \<Rightarrow> active | None \<Rightarrow> False)"

definition deactivate :: "timer \<Rightarrow> api \<Rightarrow> api" where
  "deactivate t s = s\<lparr> timers := map (\<lambda>(t', a, p). (t', if t' = t then False else a, p)) (timers s) \<rparr>"

text \<open>The closures, with the variables they capture as their first arguments.\<close>

definition simple_event_handler :: "ZnpCommandType \<Rightarrow> ZnpCommand \<Rightarrow> signal \<Rightarrow> bool \<Rightarrow> ZnpCommandType
    \<Rightarrow> ZnpCommand \<Rightarrow> byte list \<Rightarrow> api \<Rightarrow> api \<times> FrameHandlerAction" where
  [simp]: "simple_event_handler type command sig allow_partial recvd_type recvd_command data s =
     (if recvd_type \<noteq> type \<or> recvd_command \<noteq> command
      then (s, \<lparr> stop_processing = False, remove_me = False \<rparr>)
      else case decode_event allow_partial sig data of
        Inl e \<Rightarrow> (s, \<lparr> stop_processing = False, remove_me = False \<rparr>)
      | Inr ev \<Rightarrow> (emit ev s, \<lparr> stop_processing = True, remove_me = False \<rparr>))"

definition sreq_handler :: "ZnpCommand list \<Rightarrow> promise \<Rightarrow> ZnpCommandType \<Rightarrow> ZnpCommand \<Rightarrow> byte list
    \<Rightarrow> api \<Rightarrow> api \<times> FrameHandlerAction" where
  [simp]: "sreq_handler possible_responses p type recvd_command data s =
     (if type = ZnpCommandType_SRSP \<and> recvd_command \<in> set possible_responses
      then (call_promise p (Inr data) s, \<lparr> stop_processing = True, remove_me = True \<rparr>)
      else case (if type = ZnpCommandType_SRSP \<and> recvd_command = (ZnpSubsystem_RPC_Error, 0)
                 then rpc_error_for possible_responses data else None) of
        Some e \<Rightarrow> (call_promise p (Inl e) s, \<lparr> stop_processing = True, remove_me = True \<rparr>)
      | None \<Rightarrow> (s, \<lparr> stop_processing = False, remove_me = False \<rparr>))"

definition wait_handler :: "ZnpCommandType \<Rightarrow> ZnpCommand \<Rightarrow> byte list \<Rightarrow> promise \<Rightarrow> ZnpCommandType
    \<Rightarrow> ZnpCommand \<Rightarrow> byte list \<Rightarrow> api \<Rightarrow> api \<times> FrameHandlerAction" where
  [simp]: "wait_handler type command data_prefix p recvd_type recvd_command data s =
     (if recvd_type = type \<and> recvd_command = command \<and> length data \<ge> length data_prefix
        \<and> take (length data_prefix) data = data_prefix
      then (call_promise p (Inr (if length data_prefix = 0 then data else drop (length data_prefix) data)) s,
            \<lparr> stop_processing = True, remove_me = True \<rparr>)
      else (s, \<lparr> stop_processing = False, remove_me = False \<rparr>))"

fun call_handler :: "frame_handler \<Rightarrow> ZnpCommandType \<Rightarrow> ZnpCommand \<Rightarrow> byte list \<Rightarrow> api
    \<Rightarrow> api \<times> FrameHandlerAction" where
  "call_handler (Simple_event type command sig allow_partial) recvd_type recvd_command data s =
     simple_event_handler type command sig allow_partial recvd_type recvd_command data s"
| "call_handler (SReq possible_responses p) type recvd_command data s =
     sreq_handler possible_responses p type recvd_command data s"
| "call_handler (Wait type command data_prefix p) recvd_type recvd_command data s =
     wait_handler type command data_prefix p recvd_type recvd_command data s"
| "call_handler (With_timeout t handler) type cmd data s =
     (if \<not> timer_active t s then (s, \<lparr> stop_processing = False, remove_me = True \<rparr>)
      else let (s', action) = call_handler handler type cmd data s
        in (if remove_me action then deactivate t s' else s', action))"

lemma handlers_log_result [simp]: "handlers (log_result p r s) = handlers s"
  by (simp add: log_result_def)

lemma handlers_deactivate [simp]: "handlers (deactivate t s) = handlers s"
  by (simp add: deactivate_def)

lemma call_handler_keeps_list:
  "\<not> stop_processing (snd (call_handler h type cmd data s)) \<Longrightarrow>
   handlers (fst (call_handler h type cmd data s)) = handlers s"
  by (induction h type cmd data s rule: call_handler.induct)
    (auto simp: Let_def split: if_splits sum.splits option.splits prod.splits)

section \<open>Dispatching a frame\<close>

text \<open>
  \<open>i\<close> is the position of the iterator. A handler that appends to the list while it runs also
  stops the loop, so the list ahead of the iterator gets shorter with every round.
\<close>

function OnFrame_loop :: "nat \<Rightarrow> ZnpCommandType \<Rightarrow> ZnpCommand \<Rightarrow> byte list \<Rightarrow> api \<Rightarrow> api" where
  "OnFrame_loop i type command payload s =
     (if i \<ge> length (handlers s) then s
      else let (s', action) = call_handler (handlers s ! i) type command payload s;
               s'' = (if remove_me action
                      then s'\<lparr> handlers := take i (handlers s') @ drop (Suc i) (handlers s') \<rparr> else s');
               i' = (if remove_me action then i else Suc i)
           in if stop_processing action then s'' else OnFrame_loop i' type command payload s'')"
  by pat_completeness auto
termination
proof (relation "measure (\<lambda>(i, _, _, _, s). length (handlers s) - i)", goal_cases)
  case (2 i type command payload s x s' action s'' i')
  then have "handlers s' = handlers s" by (metis call_handler_keeps_list fst_conv snd_conv)
  with 2 show ?case by auto
qed simp

declare OnFrame_loop.simps [simp del]

definition OnFrame :: "ZnpCommandType \<Rightarrow> ZnpCommand \<Rightarrow> byte list \<Rightarrow> api \<Rightarrow> api" where
  "OnFrame type command payload s = OnFrame_loop 0 type command payload s"

definition TimerExpired :: "timer \<Rightarrow> api \<Rightarrow> api" where
  "TimerExpired t s =
     (if \<not> timer_active t s then s
      else case map_of (timers s) t of
        None \<Rightarrow> s
      | Some (_, p) \<Rightarrow> call_promise p (Inl (Runtime_error ''Timeout'')) (deactivate t s))"

section \<open>The object\<close>

definition AddSimpleEventHandler :: "ZnpCommandType \<Rightarrow> ZnpCommand \<Rightarrow> signal \<Rightarrow> bool \<Rightarrow> api \<Rightarrow> api" where
  "AddSimpleEventHandler type command sig allow_partial s =
     s\<lparr> handlers := handlers s @ [Simple_event type command sig allow_partial] \<rparr>"

definition ZnpApi_ctor :: "port \<Rightarrow> api" where
  "ZnpApi_ctor interface =
     AddSimpleEventHandler ZnpCommandType_AREQ (AfCmd AfCommand_INCOMING_MSG) af_on_incoming_msg True
     (AddSimpleEventHandler ZnpCommandType_AREQ (ZdoCmd ZdoCommand_PERMIT_JOIN_IND) zdo_on_permit_join False
     (AddSimpleEventHandler ZnpCommandType_AREQ (ZdoCmd ZdoCommand_TC_DEV_IND) zdo_on_trustcenter_device False
     (AddSimpleEventHandler ZnpCommandType_AREQ (ZdoCmd ZdoCommand_END_DEVICE_ANNCE_IND) zdo_on_end_device_announce False
     (AddSimpleEventHandler ZnpCommandType_AREQ (ZdoCmd ZdoCommand_STATE_CHANGE_IND) zdo_on_state_change False
     (AddSimpleEventHandler ZnpCommandType_AREQ (SysCmd SysCommand_RESET_IND) sys_on_reset False
        \<lparr> raw = interface, outputs = [], handlers = [], timers = [], reset_slots = [], state_slots = [],
          continuations = [], settled = [], reset_settled = [], state_settled = [], emitted = [],
          next_promise = 0 \<rparr>)))))"

definition raw_SendFrame :: "ZnpCommandType \<Rightarrow> ZnpCommand \<Rightarrow> byte list \<Rightarrow> unit call" where
  "raw_SendFrame type command payload s = (case SendFrame type command payload (raw s) of
       Inl e \<Rightarrow> (s, Inl e)
     | Inr (port, evs) \<Rightarrow> (s\<lparr> raw := port, outputs := outputs s @ evs \<rparr>, Inr ()))"

definition RawSReq_any :: "ZnpCommand \<Rightarrow> ZnpCommand list \<Rightarrow> byte list \<Rightarrow> byte list future call" where
  "RawSReq_any command possible_responses payload s =
     (let p = next_promise s;
          s = s\<lparr> next_promise := Suc p, handlers := handlers s @ [SReq possible_responses p] \<rparr>;
          (s, r) = raw_SendFrame ZnpCommandType_SREQ command payload s
      in (s, res_bind r (\<lambda>u. Inr (Future p Inr))))"

definition RawSReq :: "ZnpCommand \<Rightarrow> byte list \<Rightarrow> byte list future call" where
  "RawSReq command payload = RawSReq_any command [command] payload"

definition WaitAfter :: "unit future call \<Rightarrow> ZnpCommandType \<Rightarrow> ZnpCommand \<Rightarrow> int \<Rightarrow> byte list
    \<Rightarrow> byte list future call" where
  "WaitAfter first_request type command timeout_in_seconds data_prefix s =
     (case first_request s of
        (s, Inl e) \<Rightarrow> (s, Inl e)
      | (s, Inr (Future p first)) \<Rightarrow>
          let q = next_promise s
          in (s\<lparr> next_promise := Suc q,
                continuations := continuations s
                  @ [(p, Wait_after first type command timeout_in_seconds data_prefix q)] \<rparr>,
              Inr (Future q Inr)))"

text \<open>\<open>SysReset\<close> connects its slot before the frame is sent.\<close>

definition SysReset :: "bool \<Rightarrow> promise call" where
  "SysReset soft_reset s =
     (let p = next_promise s;
          s = s\<lparr> next_promise := Suc p, reset_slots := reset_slots s @ [p] \<rparr>
      in call_with (Encode bool_codec soft_reset)
        (\<lambda>payload s. let (s, r) = raw_SendFrame ZnpCommandType_AREQ (SysCmd SysCommand_RESET) payload s
           in (s, res_bind r (\<lambda>u. Inr p))) s)"

section \<open>Requests\<close>

text \<open>
  Each request encodes its arguments (which may throw), sends them, and decodes the response. The
  template parameter of the typed configuration and device information requests is the codec of
  the option's type.
\<close>

definition SysPing :: "Capability future call" where
  "SysPing =
     call_then (RawSReq (SysCmd SysCommand_PING) EncodeVoid) (Decode enum_codec)"

definition SysOsalNvItemInitRaw :: "NvItemId \<Rightarrow> 16 word \<Rightarrow> byte list \<Rightarrow> unit future call" where
  "SysOsalNvItemInitRaw ItemId ItemLen InitData =
     call_with (Encode (pair_codec enum_codec (pair_codec unsigned_codec (vector_codec unsigned_codec))) (ItemId, ItemLen, InitData)) (\<lambda>payload.
     call_then (RawSReq (SysCmd SysCommand_OSAL_NV_ITEM_INIT) payload) CheckOnlyStatus)"

definition SysOsalNvReadRaw :: "NvItemId \<Rightarrow> 8 word \<Rightarrow> byte list future call" where
  "SysOsalNvReadRaw ItemId Offset =
     call_with (Encode (pair_codec enum_codec unsigned_codec) (ItemId, Offset)) (\<lambda>payload.
     call_then (call_then (RawSReq (SysCmd SysCommand_OSAL_NV_READ) payload) CheckStatus)
       (Decode (vector_codec unsigned_codec)))"

definition SysOsalNvWriteRaw :: "NvItemId \<Rightarrow> 8 word \<Rightarrow> byte list \<Rightarrow> unit future call" where
  "SysOsalNvWriteRaw ItemId Offset Value =
     call_with (Encode (pair_codec enum_codec (pair_codec unsigned_codec (vector_codec unsigned_codec))) (ItemId, Offset, Value)) (\<lambda>payload.
     call_then (RawSReq (SysCmd SysCommand_OSAL_NV_WRITE) payload) CheckOnlyStatus)"

definition SysOsalNvDelete :: "NvItemId \<Rightarrow> 16 word \<Rightarrow> unit future call" where
  "SysOsalNvDelete ItemId ItemLen =
     call_with (Encode (pair_codec enum_codec unsigned_codec) (ItemId, ItemLen)) (\<lambda>payload.
     call_then (RawSReq (SysCmd SysCommand_OSAL_NV_DELETE) payload) CheckOnlyStatus)"

definition SysOsalNvLength :: "NvItemId \<Rightarrow> 16 word future call" where
  "SysOsalNvLength ItemId =
     call_with (Encode enum_codec ItemId) (\<lambda>payload.
     call_then (RawSReq (SysCmd SysCommand_OSAL_NV_LENGTH) payload) (Decode unsigned_codec))"

definition AfRegister :: "8 word \<Rightarrow> 16 word \<Rightarrow> 16 word \<Rightarrow> 8 word \<Rightarrow> Latency \<Rightarrow> 16 word list
    \<Rightarrow> 16 word list \<Rightarrow> unit future call" where
  "AfRegister endpoint profile_id device_id version latency input_clusters output_clusters =
     call_with (Encode (pair_codec unsigned_codec (pair_codec unsigned_codec (pair_codec unsigned_codec (pair_codec unsigned_codec (pair_codec enum_codec (pair_codec (vector_codec unsigned_codec) (vector_codec unsigned_codec)))))))
       (endpoint, profile_id, device_id, version, latency, input_clusters, output_clusters)) (\<lambda>payload.
     call_then (RawSReq (AfCmd AfCommand_REGISTER) payload) CheckOnlyStatus)"

definition AfDataRequest :: "ShortAddress \<Rightarrow> 8 word \<Rightarrow> 8 word \<Rightarrow> 16 word \<Rightarrow> 8 word \<Rightarrow> 8 word \<Rightarrow> 8 word
    \<Rightarrow> byte list \<Rightarrow> unit future call" where
  "AfDataRequest DstAddr DstEndpoint SrcEndpoint ClusterId TransId Options Radius Data =
     call_with (Encode (pair_codec unsigned_codec (pair_codec unsigned_codec (pair_codec unsigned_codec (pair_codec unsigned_codec (pair_codec unsigned_codec (pair_codec unsigned_codec (pair_codec unsigned_codec (vector_codec unsigned_codec))))))))
       (DstAddr, DstEndpoint, SrcEndpoint, ClusterId, TransId, Options, Radius, Data)) (\<lambda>payload.
     call_then (call_then (call_then (WaitAfter (call_then (RawSReq (AfCmd AfCommand_DATA_REQUEST) payload) CheckOnlyStatus)
       ZnpCommandType_AREQ (AfCmd AfCommand_DATA_CONFIRM) 0 [])
       CheckStatus)
       (Decode (pair_codec unsigned_codec unsigned_codec)))
       (\<lambda>response. if (DstEndpoint, TransId) \<noteq> response
         then Inl (Runtime_error ''AF_DATA_REQUEST & AF_DATA_CONFIRM synchronization mismatch!'') else Inr ()))"

definition ZdoStartupFromApp :: "16 word \<Rightarrow> StartupFromAppResponse future call" where
  "ZdoStartupFromApp start_delay_ms =
     call_with (Encode unsigned_codec start_delay_ms) (\<lambda>payload.
     call_then (RawSReq (ZdoCmd ZdoCommand_STARTUP_FROM_APP) payload) (Decode enum_codec))"

definition ZdoMgmtLeave :: "ShortAddress \<Rightarrow> IEEEAddress \<Rightarrow> 8 word \<Rightarrow> ShortAddress future call" where
  "ZdoMgmtLeave DstAddr DeviceAddr remove_rejoin =
     call_with (Encode (pair_codec unsigned_codec (pair_codec unsigned_codec unsigned_codec)) (DstAddr, DeviceAddr, remove_rejoin)) (\<lambda>payload.
     call_then (call_then (WaitAfter (call_then (RawSReq (ZdoCmd ZdoCommand_MGMT_LEAVE_REQ) payload) CheckOnlyStatus)
       ZnpCommandType_AREQ (ZdoCmd ZdoCommand_MGMT_LEAVE_RSP) 0 [])
       (Decode (pair_codec unsigned_codec enum_codec)))
       (\<lambda>(value, status). if status \<noteq> ZnpStatus_Success
         then Inl (Runtime_error ''MgmtLeave returned non-success status'') else Inr value))"

definition ZdoMgmtDirectJoin :: "16 word \<Rightarrow> IEEEAddress \<Rightarrow> 16 word future call" where
  "ZdoMgmtDirectJoin DstAddr DeviceAddress =
     call_with (Encode (pair_codec unsigned_codec unsigned_codec) (DstAddr, DeviceAddress)) (\<lambda>payload.
     call_then (call_then (WaitAfter (call_then (RawSReq (ZdoCmd ZdoCommand_MGMT_DIRECT_JOIN_REQ) payload) CheckOnlyStatus)
       ZnpCommandType_AREQ (ZdoCmd ZdoCommand_MGMT_DIRECT_JOIN_RSP) 0 [])
       (Decode (pair_codec unsigned_codec enum_codec)))
       (\<lambda>(value, status). if status \<noteq> ZnpStatus_Success
         then Inl (Runtime_error ''DirectJoin returned non-success status'') else Inr value))"

definition ZdoMgmtPermitJoin :: "AddrMode \<Rightarrow> 16 word \<Rightarrow> 8 word \<Rightarrow> 8 word \<Rightarrow> 16 word future call" where
  "ZdoMgmtPermitJoin addr_mode dst_address duration tc_significance =
     call_with (Encode (pair_codec enum_codec (pair_codec unsigned_codec (pair_codec unsigned_codec unsigned_codec))) (addr_mode, dst_address, duration, tc_significance)) (\<lambda>payload.
     call_then (call_then (WaitAfter (call_then (RawSReq (ZdoCmd ZdoCommand_MGMT_PERMIT_JOIN_REQ) payload) CheckOnlyStatus)
       ZnpCommandType_AREQ (ZdoCmd ZdoCommand_MGMT_PERMIT_JOIN_RSP) 0 [])
       (Decode (pair_codec unsigned_codec enum_codec)))
       (\<lambda>(value, status). if status \<noteq> ZnpStatus_Success
         then Inl (Runtime_error ''PermitJoin returned non-success status'') else Inr value))"

definition ZdoIEEEAddress :: "ShortAddress \<Rightarrow> 8 word option \<Rightarrow> ZdoIEEEAddressResponse future call" where
  "ZdoIEEEAddress address children_index =
     call_with (Encode (pair_codec unsigned_codec (pair_codec bool_codec unsigned_codec))
       (address, children_index \<noteq> None, case children_index of Some i \<Rightarrow> i | None \<Rightarrow> 0)) (\<lambda>payload.
     call_then (call_then (WaitAfter (call_then (RawSReq (ZdoCmd ZdoCommand_IEEE_ADDR_REQ) payload) CheckOnlyStatus)
       ZnpCommandType_AREQ (ZdoCmd ZdoCommand_IEEE_ADDR_RSP) 0 [])
       CheckStatus)
       (Decode_by ZdoIEEEAddressResponse_dec))"

definition ZdoRemoveLinkKey :: "IEEEAddress \<Rightarrow> unit future call" where
  "ZdoRemoveLinkKey IEEEAddr =
     call_with (Encode unsigned_codec IEEEAddr) (\<lambda>payload.
     call_then (RawSReq (ZdoCmd ZdoCommand_REMOVE_LINK_KEY) payload) CheckOnlyStatus)"

definition ZdoGetLinkKey :: "IEEEAddress \<Rightarrow> (IEEEAddress \<times> byte list) future call" where
  "ZdoGetLinkKey IEEEAddr =
     call_with (Encode unsigned_codec IEEEAddr) (\<lambda>payload.
     call_then (call_then (RawSReq (ZdoCmd ZdoCommand_GET_LINK_KEY) payload) CheckStatus)
       (Decode (pair_codec unsigned_codec (array_codec 16 unsigned_codec))))"

definition ZdoBind :: "64 word \<times> 8 word \<Rightarrow> ShortAddress \<Rightarrow> IEEEAddress \<Rightarrow> 8 word \<Rightarrow> 16 word \<Rightarrow> BindTarget
    \<Rightarrow> unit future call" where
  "ZdoBind g DstAddr SrcAddress SrcEndpoint ClusterId Dst =
     call_with (Encode (pair_codec unsigned_codec (pair_codec unsigned_codec (pair_codec unsigned_codec (pair_codec unsigned_codec (BindTarget_codec g)))))
       (DstAddr, SrcAddress, SrcEndpoint, ClusterId, Dst)) (\<lambda>payload.
     call_with (Encode unsigned_codec DstAddr) (\<lambda>data_prefix.
     call_then (WaitAfter (call_then (RawSReq (ZdoCmd ZdoCommand_BIND_REQ) payload) CheckOnlyStatus)
       ZnpCommandType_AREQ (ZdoCmd ZdoCommand_BIND_RSP) 15 data_prefix)
       CheckOnlyStatus))"

definition ZdoUnbind :: "64 word \<times> 8 word \<Rightarrow> ShortAddress \<Rightarrow> IEEEAddress \<Rightarrow> 8 word \<Rightarrow> 16 word \<Rightarrow> BindTarget
    \<Rightarrow> unit future call" where
  "ZdoUnbind g DstAddr SrcAddress SrcEndpoint ClusterId Dst =
     call_with (Encode (pair_codec unsigned_codec (pair_codec unsigned_codec (pair_codec unsigned_codec (pair_codec unsigned_codec (BindTarget_codec g)))))
       (DstAddr, SrcAddress, SrcEndpoint, ClusterId, Dst)) (\<lambda>payload.
     call_with (Encode unsigned_codec DstAddr) (\<lambda>data_prefix.
     call_then (WaitAfter (call_then (RawSReq (ZdoCmd ZdoCommand_UNBIND_REQ) payload) CheckOnlyStatus)
       ZnpCommandType_AREQ (ZdoCmd ZdoCommand_UNBIND_RSP) 15 data_prefix)
       CheckOnlyStatus))"

definition MgmtBind_dec :: "64 word \<times> 8 word \<Rightarrow> byte list
    \<Rightarrow> error + ((8 word \<times> 8 word \<times> BindTableEntry list) \<times> byte list)" where
  "MgmtBind_dec g bs = res_bind (dec unsigned_codec bs) (\<lambda>(total, rest).
     res_bind (dec unsigned_codec rest) (\<lambda>(start, rest).
       res_bind (vector_dec (BindTableEntry_dec g) rest) (\<lambda>(entries, rest).
         Inr ((total, start, entries), rest))))"

definition ZdoMgmtBindReq :: "64 word \<times> 8 word \<Rightarrow> ShortAddress \<Rightarrow> 8 word
    \<Rightarrow> (8 word \<times> 8 word \<times> BindTableEntry list) future call" where
  "ZdoMgmtBindReq g DstAddr StartIndex =
     call_with (Encode (pair_codec unsigned_codec unsigned_codec) (DstAddr, StartIndex)) (\<lambda>payload.
     call_with (Encode unsigned_codec DstAddr) (\<lambda>data_prefix.
     call_then (call_then (WaitAfter (call_then (RawSReq (ZdoCmd ZdoCommand_MGMT_BIND_REQ) payload) CheckOnlyStatus)
       ZnpCommandType_AREQ (ZdoCmd ZdoCommand_MGMT_BIND_RSP) 15 data_prefix)
       CheckStatus)
       (Decode_by (MgmtBind_dec g))))"

definition ZdoExtRemoveGroup :: "8 word \<Rightarrow> 16 word \<Rightarrow> unit future call" where
  "ZdoExtRemoveGroup Endpoint GroupID =
     call_with (Encode (pair_codec unsigned_codec unsigned_codec) (Endpoint, GroupID)) (\<lambda>payload.
     call_then (RawSReq (ZdoCmd ZdoCommand_EXT_REMOVE_GROUP) payload) CheckOnlyStatus)"

definition ZdoExtRemoveAllGroup :: "8 word \<Rightarrow> unit future call" where
  "ZdoExtRemoveAllGroup Endpoint =
     call_with (Encode unsigned_codec Endpoint) (\<lambda>payload.
     call_then (RawSReq_any (ZdoCmd ZdoCommand_EXT_REMOVE_ALL_GROUP)
       [ZdoCmd ZdoCommand_EXT_REMOVE_ALL_GROUP, ZdoCmd ZdoCommand_EXT_REMOVE_GROUP] payload) CheckOnlyStatus)"

definition ZdoExtFindAllGroupsEndpoint :: "8 word \<Rightarrow> 16 word list future call" where
  "ZdoExtFindAllGroupsEndpoint Endpoint =
     call_with (Encode (pair_codec unsigned_codec unsigned_codec) (Endpoint, 0 :: 8 word)) (\<lambda>payload.
     call_then (RawSReq (ZdoCmd ZdoCommand_EXT_FIND_ALL_GROUPS_ENDPOINT) payload) (Decode (vector_codec unsigned_codec)))"

definition ZdoExtFindGroup :: "8 word \<Rightarrow> 16 word \<Rightarrow> string future call" where
  "ZdoExtFindGroup Endpoint GroupID =
     call_with (Encode (pair_codec unsigned_codec unsigned_codec) (Endpoint, GroupID)) (\<lambda>payload.
     call_then (call_then (RawSReq (ZdoCmd ZdoCommand_EXT_FIND_GROUP) payload) CheckStatus)
       (\<lambda>result. res_bind (DecodePartial (pair_codec unsigned_codec (vector_codec unsigned_codec)) result)
         (\<lambda>(ReceiveGroupId, GroupName). if ReceiveGroupId \<noteq> GroupID
           then Inl (Runtime_error ''Received GroupID did not match requested GroupID'')
           else Inr (map (\<lambda>b :: byte. char_of (unat b)) GroupName))))"

definition ZdoExtAddGroup :: "8 word \<Rightarrow> 16 word \<Rightarrow> string \<Rightarrow> unit future call" where
  "ZdoExtAddGroup Endpoint GroupID GroupName =
     (let GroupNameVec = map (\<lambda>c. of_char c :: byte) GroupName in
      if length GroupNameVec > 16 then (\<lambda>s. (s, Inl (Runtime_error ''Group name is too long'')))
      else call_with (Encode (pair_codec unsigned_codec (pair_codec unsigned_codec (vector_codec unsigned_codec))) (Endpoint, GroupID, GroupNameVec)) (\<lambda>payload.
     call_then (RawSReq (ZdoCmd ZdoCommand_EXT_ADD_GROUP) payload) CheckOnlyStatus))"

definition ZdoExtCountAllGroups :: "8 word future call" where
  "ZdoExtCountAllGroups =
     call_then (RawSReq (ZdoCmd ZdoCommand_EXT_COUNT_ALL_GROUPS) []) (Decode unsigned_codec)"

definition SapiReadConfigurationRaw :: "ConfigurationOption \<Rightarrow> byte list future call" where
  "SapiReadConfigurationRaw opt =
     call_with (Encode enum_codec opt) (\<lambda>payload.
     call_then (call_then (call_then (RawSReq (SapiCmd SapiCommand_READ_CONFIGURATION) payload) CheckStatus)
       (Decode (pair_codec enum_codec (vector_codec unsigned_codec))))
       (\<lambda>(found, value). if opt \<noteq> found
         then Inl (Runtime_error ''Read configuration returned wrong option'') else Inr value))"

definition SapiReadConfiguration :: "'a codec \<Rightarrow> ConfigurationOption \<Rightarrow> 'a future call" where
  "SapiReadConfiguration c opt =
     call_then (SapiReadConfigurationRaw opt) (Decode c)"

definition SapiWriteConfigurationRaw :: "ConfigurationOption \<Rightarrow> byte list \<Rightarrow> unit future call" where
  "SapiWriteConfigurationRaw opt value =
     call_with (Encode (pair_codec enum_codec (vector_codec unsigned_codec)) (opt, value)) (\<lambda>payload.
     call_then (RawSReq (SapiCmd SapiCommand_WRITE_CONFIGURATION) payload) CheckOnlyStatus)"

definition SapiWriteConfiguration :: "'a codec \<Rightarrow> ConfigurationOption \<Rightarrow> 'a \<Rightarrow> unit future call" where
  "SapiWriteConfiguration c opt value =
     call_with (Encode c value) (SapiWriteConfigurationRaw opt)"

definition SapiGetDeviceInfoRaw :: "DeviceInfo \<Rightarrow> byte list future call" where
  "SapiGetDeviceInfoRaw info =
     call_with (Encode enum_codec info) (\<lambda>payload.
     call_then (RawSReq (SapiCmd SapiCommand_GET_DEVICE_INFO) payload)
       (\<lambda>retval. if length retval < 1
         then Inl (Runtime_error ''Expected more data from GetDeviceInfo response'')
         else if retval ! 0 \<noteq> info then Inl (Runtime_error ''Wrong DeviceInfo returned'')
         else Inr (drop 1 retval)))"

definition SapiGetDeviceInfo :: "'a codec \<Rightarrow> DeviceInfo \<Rightarrow> 'a future call" where
  "SapiGetDeviceInfo c info =
     call_then (SapiGetDeviceInfoRaw info) (DecodePartial c)"

definition UtilAddrmgrNwkAddrLookup :: "ShortAddress \<Rightarrow> IEEEAddress future call" where
  "UtilAddrmgrNwkAddrLookup address =
     call_with (Encode unsigned_codec address) (\<lambda>payload.
     call_then (RawSReq (UtilCmd UtilCommand_ADDRMGR_NWK_ADDR_LOOKUP) payload) (Decode unsigned_codec))"

definition UtilAddrmgrExtAddrLookup :: "IEEEAddress \<Rightarrow> ShortAddress future call" where
  "UtilAddrmgrExtAddrLookup address =
     call_with (Encode unsigned_codec address) (\<lambda>payload.
     call_then (RawSReq (UtilCmd UtilCommand_ADDRMGR_EXT_ADDR_LOOKUP) payload) (Decode unsigned_codec))"

definition WaitForState :: "DeviceState list \<Rightarrow> DeviceState list \<Rightarrow> promise call" where
  "WaitForState end_states allowed_states s =
     (case SapiGetDeviceInfo enum_codec DeviceInfo_DeviceState s of
        (s, Inl e) \<Rightarrow> (s, Inl e)
      | (s, Inr (Future p first)) \<Rightarrow>
          let q = next_promise s
          in (s\<lparr> next_promise := Suc q,
                continuations := continuations s @ [(p, Wait_for_state first end_states allowed_states q)] \<rparr>,
              Inr q))"

end
