(* ===== verification/ZnpDispatch.thy ===== *)
theory ZnpDispatch
  imports ZnpApi
begin

text \<open>
  Which handler of the request/response layer a frame reaches, and what the requests make of the
  responses.
\<close>

section \<open>Who handles a frame\<close>

text \<open>
  A handler awaits a frame when it would stop the dispatch loop; a handler is expired when its
  timer has been. The handlers the object creates nest at most one timeout around a \<open>Wait\<close>.
\<close>

definition awaits :: "frame_handler \<Rightarrow> ZnpCommandType \<Rightarrow> ZnpCommand \<Rightarrow> byte list \<Rightarrow> api \<Rightarrow> bool" where
  "awaits h type cmd data s \<longleftrightarrow> stop_processing (snd (call_handler h type cmd data s))"

definition expired :: "api \<Rightarrow> frame_handler \<Rightarrow> bool" where
  "expired s h = (case h of With_timeout t _ \<Rightarrow> \<not> timer_active t s | _ \<Rightarrow> False)"

fun wf_handler :: "frame_handler \<Rightarrow> bool" where
  "wf_handler (With_timeout t (Wait type command data_prefix p)) \<longleftrightarrow> True"
| "wf_handler (With_timeout t h) \<longleftrightarrow> False"
| "wf_handler h \<longleftrightarrow> True"

text \<open>No handler of the list takes the frame.\<close>

definition unclaimed :: "frame_handler list \<Rightarrow> ZnpCommandType \<Rightarrow> ZnpCommand \<Rightarrow> byte list \<Rightarrow> api \<Rightarrow> bool" where
  "unclaimed hs type cmd data s \<longleftrightarrow> list_all (\<lambda>h. wf_handler h \<and> \<not> awaits h type cmd data s) hs"

lemma timer_active_cong: "timers s = timers s' \<Longrightarrow> timer_active t s = timer_active t s'"
  by (simp add: timer_active_def)

lemma call_handler_action_cong:
  assumes "timers s = timers s'"
  shows "snd (call_handler h type cmd data s) = snd (call_handler h type cmd data s')"
proof (induction h)
  case (With_timeout t h)
  then show ?case using timer_active_cong [OF assms, of t] by (simp add: Let_def case_prod_beta)
qed (simp_all split: sum.splits option.splits)

lemma update_handlers_id: "handlers s = hs \<Longrightarrow> s\<lparr> handlers := hs \<rparr> = s"
  by auto

lemma awaits_cong: "timers s = timers s' \<Longrightarrow> awaits h type cmd data s = awaits h type cmd data s'"
  using call_handler_action_cong [of s s' h type cmd data] by (simp only: awaits_def)

lemma expired_cong:
  assumes "timers s = timers s'"
  shows "expired s = expired s'"
proof
  fix h
  show "expired s h = expired s' h"
    using timer_active_cong [OF assms] by (cases h) (simp_all add: expired_def)
qed

lemma unclaimed_cong:
  assumes "timers s = timers s'"
  shows "unclaimed hs type cmd data s = unclaimed hs type cmd data s'"
  using awaits_cong [OF assms, where type = type and cmd = cmd and data = data]
  by (simp only: unclaimed_def)

lemma not_awaiting:
  "wf_handler h \<Longrightarrow> \<not> awaits h type cmd data s \<Longrightarrow>
   call_handler h type cmd data s = (s, \<lparr> stop_processing = False, remove_me = expired s h \<rparr>)"
  by (induction h rule: wf_handler.induct)
    (auto simp: awaits_def expired_def Let_def split: if_splits sum.splits option.splits prod.splits)

lemma OnFrame_skip:
  "handlers s = kept @ pre @ post \<Longrightarrow> unclaimed pre type cmd data s \<Longrightarrow>
   OnFrame_loop (length kept) type cmd data s =
   OnFrame_loop (length (kept @ filter (\<lambda>h. \<not> expired s h) pre)) type cmd data
     (s\<lparr> handlers := kept @ filter (\<lambda>h. \<not> expired s h) pre @ post \<rparr>)"
proof (induction pre arbitrary: kept s)
  case Nil
  then show ?case by (simp add: update_handlers_id)
next
  case (Cons h pre)
  let ?s = "s\<lparr> handlers := kept @ pre @ post \<rparr>"
  have h: "call_handler h type cmd data s = (s, \<lparr> stop_processing = False, remove_me = expired s h \<rparr>)"
    using Cons.prems(2) by (simp add: unclaimed_def not_awaiting)
  have e: "expired ?s = expired s" by (rule expired_cong) simp
  have u: "unclaimed pre type cmd data ?s" "unclaimed pre type cmd data s"
    using Cons.prems(2) unclaimed_cong [of ?s s pre] by (auto simp: unclaimed_def)
  show ?case
  proof (cases "expired s h")
    case True
    then have "OnFrame_loop (length kept) type cmd data s = OnFrame_loop (length kept) type cmd data ?s"
      by (subst OnFrame_loop.simps) (simp add: Cons.prems(1) h)
    with True Cons.IH [of ?s kept] u show ?thesis by (simp add: e)
  next
    case False
    then have "OnFrame_loop (length kept) type cmd data s = OnFrame_loop (length (kept @ [h])) type cmd data s"
      by (subst OnFrame_loop.simps) (simp add: Cons.prems(1) h)
    with False Cons.IH [of s "kept @ [h]"] Cons.prems(1) u show ?thesis by simp
  qed
qed

lemma OnFrame_unclaimed:
  assumes "unclaimed (handlers s) type cmd data s"
  shows "OnFrame type cmd data s = s\<lparr> handlers := filter (\<lambda>h. \<not> expired s h) (handlers s) \<rparr>"
  using OnFrame_skip [of s "[]" "handlers s" "[]"] assms
  by (simp add: OnFrame_def OnFrame_loop.simps)

lemma OnFrame_first:
  assumes hs: "handlers s = pre @ h # post" and pre: "unclaimed pre type cmd data s"
    and h: "call_handler h type cmd data (s\<lparr> handlers := filter (\<lambda>h. \<not> expired s h) pre @ h # post \<rparr>)
      = (s', action)" "stop_processing action"
  shows "OnFrame type cmd data s = (if remove_me action
    then s'\<lparr> handlers := take (length (filter (\<lambda>h. \<not> expired s h) pre)) (handlers s')
      @ drop (Suc (length (filter (\<lambda>h. \<not> expired s h) pre))) (handlers s') \<rparr> else s')"
proof -
  let ?kept = "filter (\<lambda>h. \<not> expired s h) pre"
  have "OnFrame type cmd data s = OnFrame_loop (length ?kept) type cmd data (s\<lparr> handlers := ?kept @ h # post \<rparr>)"
    using OnFrame_skip [of s "[]" pre "h # post"] hs pre by (simp add: OnFrame_def)
  then show ?thesis using h by (simp add: OnFrame_loop.simps nth_append)
qed

text \<open>What a promise call does to the handlers: at most one is appended.\<close>

lemma call_promise_handlers:
  "\<exists>new. \<forall>hs. call_promise p r (s\<lparr> handlers := hs \<rparr>) = (call_promise p r s)\<lparr> handlers := hs @ new \<rparr>"
proof (cases "map_of (continuations s) p")
  case None
  then show ?thesis by (intro exI [of _ "[]"]) (simp add: call_promise_def log_result_def Let_def)
next
  case (Some k)
  show ?thesis
  proof (cases k)
    case (Wait_after first type command timeout data_prefix q)
    show ?thesis
    proof (cases "res_bind r first")
      case (Inl e)
      with Some Wait_after show ?thesis
        by (intro exI [of _ "[]"]) (simp add: call_promise_def continue_with_def log_result_def Let_def)
    next
      case (Inr u)
      let ?w = "Wait type command data_prefix q"
      show ?thesis using Some Wait_after Inr
        by (intro exI [of _ "[if timeout \<le> 0 then ?w else With_timeout (length (timers s)) ?w]"])
          (simp add: call_promise_def continue_with_def WaitFor_def AddHandlerWithTimeout_def
            log_result_def Let_def)
    qed
  next
    case (Wait_for_state first ends alloweds q)
    with Some show ?thesis
      by (intro exI [of _ "[]"])
        (simp add: call_promise_def continue_with_def log_result_def Let_def split: sum.splits)
  qed
qed

lemma remove_then_call:
  "(let s' = call_promise p r (s\<lparr> handlers := kept @ h # post \<rparr>)
    in s'\<lparr> handlers := take (length kept) (handlers s') @ drop (Suc (length kept)) (handlers s') \<rparr>)
   = call_promise p r (s\<lparr> handlers := kept @ post \<rparr>)"
proof -
  obtain new where "call_promise p r (s\<lparr> handlers := hs \<rparr>) = (call_promise p r s)\<lparr> handlers := hs @ new \<rparr>" for hs
    using call_promise_handlers [of p r s] by blast
  then show ?thesis by (simp add: Let_def)
qed

lemma response_settles:
  assumes "handlers s = pre @ SReq possible_responses p # post"
    and "unclaimed pre ZnpCommandType_SRSP command data s"
    and "command \<in> set possible_responses"
  shows "OnFrame ZnpCommandType_SRSP command data s
    = call_promise p (Inr data) (s\<lparr> handlers := filter (\<lambda>h. \<not> expired s h) pre @ post \<rparr>)"
  using OnFrame_first [OF assms(1,2)] assms(3) remove_then_call [where p = p and r = "Inr data" and s = s and post = post]
  by (simp add: Let_def)

text \<open>
  A response settles the oldest request that waits for it. The request's handler leaves the
  list, its promise is called with the data of the response, and every other handler stays except
  those before it whose timer has expired.
\<close>

theorem response_settles_oldest_request:
  assumes "handlers s = pre @ SReq possible_responses p # post"
    and "unclaimed pre ZnpCommandType_SRSP command data s"
    and "command \<in> set possible_responses"
  shows "OnFrame ZnpCommandType_SRSP command data s
    = call_promise p (Inr data) (s\<lparr> handlers := filter (\<lambda>h. \<not> expired s h) pre @ post \<rparr>)"
  using assms by (rule response_settles)

text \<open>
  A frame that no handler takes changes nothing but the list of handlers, which loses those
  whose timer has expired.
\<close>

theorem unclaimed_frame_ignored:
  assumes "unclaimed (handlers s) type command data s"
  shows "OnFrame type command data s = s\<lparr> handlers := filter (\<lambda>h. \<not> expired s h) (handlers s) \<rparr>"
  using assms by (rule OnFrame_unclaimed)

lemma rpc_error_for_quote:
  assumes "nibbles ZnpCommandType_SREQ command" "command \<in> set possible_responses"
  shows "rpc_error_for possible_responses [code, command_byte ZnpCommandType_SREQ command, RawCommand command]
    = Some (Runtime_error (''RPC Error: '' @ show_dec (unat code)))"
  using assms command_byte_nibbles [OF assms(1)]
  by (simp add: rpc_error_for_def Decode_def pair_codec_def codec_simps Subsystem_def RawCommand_def)

text \<open>
  An \<open>RPC_Error\<close> response that quotes a request fails the oldest request waiting for that
  command with the error code.
\<close>

theorem rpc_error_fails_request:
  assumes "handlers s = pre @ SReq possible_responses p # post"
    and "unclaimed pre ZnpCommandType_SRSP (ZnpSubsystem_RPC_Error, 0) data s"
    and "data = [code, command_byte ZnpCommandType_SREQ command, RawCommand command]"
    and "nibbles ZnpCommandType_SREQ command" "command \<in> set possible_responses"
    and "(ZnpSubsystem_RPC_Error, 0) \<notin> set possible_responses"
  shows "OnFrame ZnpCommandType_SRSP (ZnpSubsystem_RPC_Error, 0) data s
    = call_promise p (Inl (Runtime_error (''RPC Error: '' @ show_dec (unat code))))
        (s\<lparr> handlers := filter (\<lambda>h. \<not> expired s h) pre @ post \<rparr>)"
  using OnFrame_first [OF assms(1,2)] assms(6)
    remove_then_call [where p = p and s = s and post = post]
  by (simp add: Let_def assms(3) rpc_error_for_quote [OF assms(4,5)])

end
