(* ===== verification/ZnpPromises.thy ===== *)
theory ZnpPromises
  imports ZnpDispatch "HOL-Library.Multiset"
begin

text \<open>
  The runs of the request/response layer and their main invariant: whatever the order of requests,
  frames and timeouts, no promise is called twice, and none is owed from two places or owed after it
  was called.
\<close>

section \<open>Every promise is called at most once\<close>

fun handler_promise :: "frame_handler \<Rightarrow> promise" where
  "handler_promise (SReq possible_responses p) = p"
| "handler_promise (Wait type command data_prefix p) = p"
| "handler_promise (With_timeout t h) = handler_promise h"
| "handler_promise (Simple_event type command sig allow_partial) = 0"

fun handler_owes :: "frame_handler \<Rightarrow> promise list" where
  "handler_owes (SReq possible_responses p) = [p]"
| "handler_owes (Wait type command data_prefix p) = [p]"
| "handler_owes (With_timeout t h) = []"
| "handler_owes (Simple_event type command sig allow_partial) = []"

fun target :: "continuation \<Rightarrow> promise" where
  "target (Wait_after first type command timeout_in_seconds data_prefix q) = q"
| "target (Wait_for_state first end_states allowed_states q) = q"

text \<open>
  Who owes a promise its call: a handler, a running timer (for the handler inside the timeout
  too), a slot, or a continuation whose own promise has not been called. The ledger adds the
  promises already called.
\<close>

definition timers_owe :: "api \<Rightarrow> promise list" where
  "timers_owe s = map (\<lambda>(t, active, p). p) (filter (\<lambda>(t, active, p). active) (timers s))"

definition continuations_owe :: "api \<Rightarrow> promise list" where
  "continuations_owe s = map (\<lambda>e. target (snd e)) (filter (\<lambda>(p, k). p \<notin> fst ` set (settled s)) (continuations s))"

definition called :: "api \<Rightarrow> promise list" where
  "called s = map fst (settled s) @ map fst (reset_settled s) @ map fst (state_settled s)"

definition ledger :: "api \<Rightarrow> promise multiset" where
  "ledger s = mset (concat (map handler_owes (handlers s))) + mset (timers_owe s)
     + mset (continuations_owe s) + mset (reset_slots s) + mset (map fst (state_slots s)) + mset (called s)"

text \<open>The runs of the object: every operation that changes its state.\<close>

inductive api_run :: "api \<Rightarrow> bool" where
  api_start: "api_run (ZnpApi_ctor interface)"
| api_request: "api_run s \<Longrightarrow> RawSReq_any command possible_responses payload s = (s', r) \<Longrightarrow> api_run s'"
| api_request_wait: "api_run s \<Longrightarrow> WaitAfter (call_then (RawSReq command payload) first) type rsp timeout data_prefix s
    = (s', r) \<Longrightarrow> api_run s'"
| api_reset: "api_run s \<Longrightarrow> SysReset soft_reset s = (s', r) \<Longrightarrow> api_run s'"
| api_wait_for_state: "api_run s \<Longrightarrow> WaitForState end_states allowed_states s = (s', r) \<Longrightarrow> api_run s'"
| api_frame: "api_run s \<Longrightarrow> api_run (OnFrame type command data s)"
| api_timer: "api_run s \<Longrightarrow> api_run (TimerExpired t s)"
| api_port: "api_run s \<Longrightarrow> api_run (s\<lparr> raw := port, outputs := outputs s @ evs \<rparr>)"

definition api_inv :: "api \<Rightarrow> bool" where
  "api_inv s \<longleftrightarrow> list_all wf_handler (handlers s)
     \<and> (\<forall>t h. With_timeout t h \<in> set (handlers s) \<longrightarrow> (\<exists>active. (t, active, handler_promise h) \<in> set (timers s)))
     \<and> map fst (timers s) = [0..<length (timers s)]
     \<and> ledger s \<subseteq># mset [0..<next_promise s]"

lemma ledger_distinct: "ledger s \<subseteq># mset [0..<n] \<Longrightarrow> count (ledger s) p \<le> 1"
proof -
  assume "ledger s \<subseteq># mset [0..<n]"
  then have "count (ledger s) p \<le> count (mset [0..<n]) p" by (rule mset_subset_eq_count)
  also have "\<dots> \<le> 1" using distinct_count_atmost_1 [of "[0..<n]"] by auto
  finally show ?thesis .
qed

lemma filter_settled_mono:
  "A \<subseteq> B \<Longrightarrow> mset (map (\<lambda>e. target (snd e)) (filter (\<lambda>(p, k). p \<notin> B) ks))
     \<subseteq># mset (map (\<lambda>e. target (snd e)) (filter (\<lambda>(p, k). p \<notin> A) ks))"
  by (induction ks) (auto intro: subset_mset.order_trans simp: subset_mset.add_increasing2)

lemma filter_settled:
  assumes "map_of ks p = Some k" "p \<notin> A" "p \<in> B" "A \<subseteq> B"
  shows "add_mset (target k) (mset (map (\<lambda>e. target (snd e)) (filter (\<lambda>(p', k). p' \<notin> B) ks)))
     \<subseteq># mset (map (\<lambda>e. target (snd e)) (filter (\<lambda>(p', k). p' \<notin> A) ks))"
  using assms(1)
proof (induction ks)
  case (Cons entry ks)
  obtain p' k' where e: "entry = (p', k')" by (cases entry)
  show ?case
  proof (cases "p' = p")
    case True
    with Cons.prems e assms(2,3) filter_settled_mono [OF assms(4), of ks] show ?thesis
      by (simp del: mset_map mset_filter)
  next
    case False
    with Cons e have ih: "add_mset (target k) (mset (map (\<lambda>e. target (snd e)) (filter (\<lambda>(p', k). p' \<notin> B) ks)))
        \<subseteq># mset (map (\<lambda>e. target (snd e)) (filter (\<lambda>(p', k). p' \<notin> A) ks))" by simp
    then show ?thesis using e assms(4)
      by (auto simp: add_mset_commute [of "target k"] intro: subset_mset.order_trans [OF ih]
        simp del: mset_map mset_filter)
  qed
qed simp

text \<open>Moving a promise inside the ledger.\<close>

lemma ledger_move:
  assumes "add_mset q C' \<subseteq># C"
  shows "H + T + C' + R + S + D + {#q#} \<subseteq># H + T + C + R + S + (D :: promise multiset)"
proof -
  from assms obtain X where "C = add_mset q C' + X" by (auto simp: mset_subset_eq_exists_conv)
  then show ?thesis by (simp add: ac_simps)
qed

lemma call_promise_ledger:
  assumes p: "p \<notin> fst ` set (settled s)"
  shows "ledger (call_promise p r s) \<subseteq># add_mset p (ledger s)"
proof (cases "map_of (continuations s) p")
  case None
  have "filter (\<lambda>(p', k). p' \<notin> insert p (fst ` set (settled s))) (continuations s)
      = filter (\<lambda>(p', k). p' \<notin> fst ` set (settled s)) (continuations s)"
    by (rule filter_cong) (use None in \<open>force simp: map_of_eq_None_iff\<close>)+
  then have "continuations_owe (log_result p r s) = continuations_owe s"
    by (simp add: continuations_owe_def log_result_def)
  with None show ?thesis
    by (simp add: call_promise_def ledger_def timers_owe_def called_def log_result_def Let_def)
next
  case (Some k)
  have mv: "add_mset (target k) (mset (map (\<lambda>e. target (snd e)) (filter (\<lambda>(p', k). p' \<notin> B) (continuations s))))
      \<subseteq># mset (continuations_owe s)" if "p \<in> B" "fst ` set (settled s) \<subseteq> B" for B
    unfolding continuations_owe_def using filter_settled [OF Some p that] .
  note move = ledger_move [OF mv, where H = "mset (concat (map handler_owes (handlers s)))"
    and T = "mset (timers_owe s)" and R = "mset (reset_slots s)" and S = "mset (map fst (state_slots s))"
    and D = "add_mset p (mset (called s))"]
  show ?thesis
    using Some move [of "insert p (fst ` set (settled s))"]
      move [of "insert (target k) (insert p (fst ` set (settled s)))"]
    by (cases k) (auto simp: call_promise_def continue_with_def ledger_def timers_owe_def called_def
      log_result_def Let_def continuations_owe_def WaitFor_def AddHandlerWithTimeout_def ac_simps
      split: sum.splits)
qed

text \<open>The part of the invariant that is not about the ledger.\<close>

definition handlers_wf :: "api \<Rightarrow> bool" where
  "handlers_wf s \<longleftrightarrow> list_all wf_handler (handlers s)
     \<and> (\<forall>t h. With_timeout t h \<in> set (handlers s) \<longrightarrow> (\<exists>active. (t, active, handler_promise h) \<in> set (timers s)))
     \<and> map fst (timers s) = [0..<length (timers s)]"

lemma api_inv_iff: "api_inv s \<longleftrightarrow> handlers_wf s \<and> ledger s \<subseteq># mset [0..<next_promise s]"
  by (auto simp: api_inv_def handlers_wf_def)

lemma next_promise_call_promise [simp]: "next_promise (call_promise p r s) = next_promise s"
  by (auto simp: call_promise_def continue_with_def log_result_def WaitFor_def AddHandlerWithTimeout_def
    Let_def split: option.splits continuation.splits sum.splits)

lemma handlers_wf_call_promise: "handlers_wf s \<Longrightarrow> handlers_wf (call_promise p r s)"
  by (auto simp: handlers_wf_def call_promise_def continue_with_def log_result_def WaitFor_def
    AddHandlerWithTimeout_def Let_def split: option.splits continuation.splits sum.splits)

lemma api_inv_call_promise:
  assumes "handlers_wf s" "add_mset p (ledger s) \<subseteq># mset [0..<next_promise s]"
  shows "api_inv (call_promise p r s)"
proof -
  have "count (add_mset p (ledger s)) p \<le> count (mset [0..<next_promise s]) p"
    using assms(2) by (rule mset_subset_eq_count)
  also have "\<dots> \<le> 1" using distinct_count_atmost_1 [of "[0..<next_promise s]"] by auto
  finally have "p \<notin># ledger s" by (simp add: not_in_iff)
  then have "p \<notin> fst ` set (settled s)" by (auto simp: ledger_def called_def)
  from call_promise_ledger [OF this, of r] assms show ?thesis
    by (auto simp: api_inv_iff handlers_wf_call_promise intro: subset_mset.order_trans)
qed

lemma owes_kept:
  "concat (map handler_owes (filter (\<lambda>h. \<not> expired s h) hs)) = concat (map handler_owes hs)"
  by (induction hs) (auto simp: expired_def split: frame_handler.splits)

lemma ledger_handlers:
  "ledger (s\<lparr> handlers := hs \<rparr>) + mset (concat (map handler_owes (handlers s)))
     = ledger s + mset (concat (map handler_owes hs))"
  by (simp add: ledger_def timers_owe_def continuations_owe_def called_def ac_simps)

lemma ledger_drop_expired:
  "handlers s = pre @ post \<Longrightarrow>
   ledger (s\<lparr> handlers := filter (\<lambda>h. \<not> expired s h) pre @ post \<rparr>) = ledger s"
  by (simp add: ledger_def timers_owe_def continuations_owe_def called_def owes_kept)

lemma ledger_drop_handler:
  "handlers s = pre @ h # post \<Longrightarrow>
   ledger s = mset (handler_owes h) + ledger (s\<lparr> handlers := filter (\<lambda>h. \<not> expired s h) pre @ post \<rparr>)"
  by (simp add: ledger_def timers_owe_def continuations_owe_def called_def owes_kept ac_simps)

lemma handlers_wf_sub:
  "handlers_wf s \<Longrightarrow> set hs \<subseteq> set (handlers s) \<Longrightarrow> handlers_wf (s\<lparr> handlers := hs \<rparr>)"
  by (auto simp: handlers_wf_def list_all_iff)

lemma ledger_emit: "ledger (emit ev s) = ledger s"
proof -
  have state: "mset (map fst (filter (\<lambda>x. state_slot_result st x = None) xs))
      + mset (map fst (List.map_filter (state_slot_result st) xs)) = mset (map fst xs)" for st xs
    by (induction xs) (auto simp: state_slot_result_def map_filter_simps split: if_splits)
  show ?thesis
  proof (cases ev)
    case (State_change st)
    with state [of st "state_slots s"] show ?thesis
      by (simp add: emit_def state_change_slot_def ledger_def timers_owe_def continuations_owe_def called_def
        Let_def ac_simps)
  qed (simp_all add: emit_def reset_slot_def ledger_def timers_owe_def continuations_owe_def called_def
    Let_def comp_def)
qed

lemma api_inv_emit: "api_inv s \<Longrightarrow> api_inv (emit ev s)"
  by (cases ev) (simp_all add: api_inv_iff handlers_wf_def ledger_emit,
    simp_all add: emit_def reset_slot_def state_change_slot_def Let_def)

section \<open>Timers\<close>

lemma timers_owe_deactivate:
  "distinct (map fst ts) \<Longrightarrow> (t, True, p) \<in> set ts \<Longrightarrow>
   mset (map (\<lambda>(t, active, p). p) (filter (\<lambda>(t, active, p). active) ts))
     = add_mset p (mset (map (\<lambda>(t, active, p). p) (filter (\<lambda>(t, active, p). active)
         (map (\<lambda>(t', a, p). (t', if t' = t then False else a, p)) ts))))"
proof (induction ts)
  case (Cons e ts)
  obtain t' a q where e: "e = (t', a, q)" by (cases e)
  show ?case
  proof (cases "t' = t")
    case True
    with Cons.prems(1) e have "map (\<lambda>(t', a, p). (t', if t' = t then False else a, p)) ts = ts"
      by (intro map_idI) (force simp: case_prod_beta)
    moreover from True Cons.prems e have "a = True \<and> q = p" by force
    ultimately show ?thesis using True e by simp
  next
    case False
    with Cons e show ?thesis by auto
  qed
qed simp

lemma ledger_deactivate:
  "handlers_wf s \<Longrightarrow> (t, True, p) \<in> set (timers s) \<Longrightarrow> ledger s = add_mset p (ledger (deactivate t s))"
  using timers_owe_deactivate [of "timers s" t p]
  by (simp add: ledger_def timers_owe_def continuations_owe_def called_def deactivate_def handlers_wf_def)

lemma timers_deactivate:
  "timers (deactivate t s) = map (\<lambda>(t', a, p). (t', if t' = t then False else a, p)) (timers s)"
  by (simp add: deactivate_def)

lemma handlers_wf_deactivate: "handlers_wf s \<Longrightarrow> handlers_wf (deactivate t s)"
proof -
  assume wf: "handlers_wf s"
  have "map fst (timers (deactivate t s)) = map fst (timers s)"
    by (auto simp: deactivate_def)
  moreover have "\<exists>active. (t', active, q) \<in> set (timers (deactivate t s))"
    if "(t', active, q) \<in> set (timers s)" for t' active q
    using imageI [OF that, of "\<lambda>(t', a, p). (t', if t' = t then False else a, p)"]
    unfolding timers_deactivate list.set_map prod.case by (rule exI)
  moreover have "length (timers (deactivate t s)) = length (timers s)"
    by (simp add: deactivate_def)
  moreover have "handlers (deactivate t s) = handlers s" by simp
  ultimately show ?thesis using wf unfolding handlers_wf_def by metis
qed

lemma next_promise_deactivate [simp]: "next_promise (deactivate t s) = next_promise s"
  by (simp add: deactivate_def)

lemma timer_activeD:
  "timer_active t s \<Longrightarrow> \<exists>p. (t, True, p) \<in> set (timers s) \<and> map_of (timers s) t = Some (True, p)"
  by (auto simp: timer_active_def dest: map_of_SomeD split: option.splits)

lemma timer_promise_unique:
  "handlers_wf s \<Longrightarrow> (t, a, p) \<in> set (timers s) \<Longrightarrow> (t, b, q) \<in> set (timers s) \<Longrightarrow> p = q"
  using eq_key_imp_eq_value [of "timers s" t "(a, p)" "(b, q)"] by (simp add: handlers_wf_def)

lemma deactivate_call_promise:
  assumes "handlers_wf s" "(t, a, p) \<in> set (timers s)"
  shows "deactivate t (call_promise q r s) = call_promise q r (deactivate t s)"
proof -
  have "t \<in> fst ` set (timers s)" using assms(2) by force
  also have "fst ` set (timers s) = {0..<length (timers s)}"
    using assms(1) by (metis atLeastLessThan_upt handlers_wf_def list.set_map)
  finally have "t \<noteq> length (timers s)" by simp
  then show ?thesis
    by (auto simp: call_promise_def continue_with_def log_result_def WaitFor_def AddHandlerWithTimeout_def
      deactivate_def Let_def split: option.splits continuation.splits sum.splits)
qed

lemma api_inv_timer: "api_inv s \<Longrightarrow> api_inv (TimerExpired t s)"
proof (cases "timer_active t s")
  case True
  assume inv: "api_inv s"
  from timer_activeD [OF True] obtain p where
    p: "(t, True, p) \<in> set (timers s)" "map_of (timers s) t = Some (True, p)" by blast
  have "api_inv (call_promise p (Inl (Runtime_error ''Timeout'')) (deactivate t s))"
    by (rule api_inv_call_promise)
      (use inv ledger_deactivate [OF _ p(1)] in \<open>simp_all add: api_inv_iff handlers_wf_deactivate\<close>)
  with True p show ?thesis by (simp add: TimerExpired_def)
qed (simp add: TimerExpired_def)

section \<open>Frames\<close>

lemma first_awaiting:
  assumes "list_all wf_handler (handlers s)"
  obtains "unclaimed (handlers s) type cmd data s"
  | pre h post where "handlers s = pre @ h # post" "unclaimed pre type cmd data s" "awaits h type cmd data s"
proof (cases "\<exists>h \<in> set (handlers s). awaits h type cmd data s")
  case True
  from split_list_first_prop [OF this] assms that(2) show ?thesis
    by (force simp: unclaimed_def list_all_iff)
next
  case False
  with assms that(1) show ?thesis by (auto simp: unclaimed_def list_all_iff)
qed

lemma awaiting_call:
  assumes "wf_handler h" "awaits h type cmd data s"
  obtains ev where "call_handler h type cmd data s = (emit ev s, \<lparr> stop_processing = True, remove_me = False \<rparr>)"
  | p r where "handler_owes h = [p]"
      "call_handler h type cmd data s = (call_promise p r s, \<lparr> stop_processing = True, remove_me = True \<rparr>)"
  | t w r where "h = With_timeout t w" "timer_active t s"
      "call_handler h type cmd data s
        = (deactivate t (call_promise (handler_promise w) r s), \<lparr> stop_processing = True, remove_me = True \<rparr>)"
  using assms
  by (induction h rule: wf_handler.induct)
    (auto simp: awaits_def Let_def split: if_splits sum.splits option.splits)

lemma OnFrame_remove:
  assumes "handlers s = pre @ h # post" "unclaimed pre type cmd data s"
    and "call_handler h type cmd data (s\<lparr> handlers := filter (\<lambda>h. \<not> expired s h) pre @ h # post \<rparr>)
      = (f (call_promise p r (s\<lparr> handlers := filter (\<lambda>h. \<not> expired s h) pre @ h # post \<rparr>)),
         \<lparr> stop_processing = True, remove_me = True \<rparr>)"
    and f: "\<And>x. handlers (f x) = handlers x" "\<And>x hs. (f x)\<lparr> handlers := hs \<rparr> = f (x\<lparr> handlers := hs \<rparr>)"
  shows "OnFrame type cmd data s
    = f (call_promise p r (s\<lparr> handlers := filter (\<lambda>h. \<not> expired s h) pre @ post \<rparr>))"
  using OnFrame_first [OF assms(1,2,3)] remove_then_call [where p = p and r = r and s = s and post = post]
  by (simp add: Let_def f)

lemma api_inv_OnFrame_first:
  assumes inv: "api_inv s" and hs: "handlers s = pre @ h # post"
    and pre: "unclaimed pre type cmd data s" and h: "awaits h type cmd data s"
  shows "api_inv (OnFrame type cmd data s)"
proof -
  let ?kept = "filter (\<lambda>h. \<not> expired s h) pre"
  let ?s = "s\<lparr> handlers := ?kept @ h # post \<rparr>"
  let ?s' = "s\<lparr> handlers := ?kept @ post \<rparr>"
  have aw: "awaits h type cmd data ?s" using h awaits_cong [of ?s s h] by simp
  have wfh: "wf_handler h" using inv hs by (simp add: api_inv_def)
  have wf': "handlers_wf ?s'" using inv hs by (intro handlers_wf_sub) (auto simp: api_inv_iff)
  have wf: "handlers_wf ?s" using inv hs by (intro handlers_wf_sub) (auto simp: api_inv_iff)
  have led: "ledger ?s = ledger s" using ledger_drop_expired [OF hs] .
  have led': "ledger s = mset (handler_owes h) + ledger ?s'" using ledger_drop_handler [OF hs] .
  from wfh aw show ?thesis
  proof (cases rule: awaiting_call)
    case (1 ev)
    with OnFrame_first [OF hs pre 1] have "OnFrame type cmd data s = emit ev ?s" by simp
    moreover have "api_inv ?s" using inv wf led by (simp add: api_inv_iff)
    ultimately show ?thesis by (simp add: api_inv_emit)
  next
    case (2 p r)
    with OnFrame_remove [OF hs pre, where f = "\<lambda>x. x"]
    have "OnFrame type cmd data s = call_promise p r ?s'" by simp
    moreover have "api_inv (call_promise p r ?s')"
      by (rule api_inv_call_promise [OF wf']) (use inv led' 2(1) in \<open>simp add: api_inv_iff\<close>)
    ultimately show ?thesis by simp
  next
    case (3 t w r)
    let ?p = "handler_promise w"
    from timer_activeD [OF 3(2)] obtain q where q: "(t, True, q) \<in> set (timers ?s')" by auto
    obtain a where "(t, a, ?p) \<in> set (timers ?s')"
      using inv hs 3(1) by (auto simp: api_inv_def)
    with q timer_promise_unique [OF wf' q] have p: "(t, True, ?p) \<in> set (timers ?s')" by auto
    from 3 have "OnFrame type cmd data s = deactivate t (call_promise ?p r ?s')"
      by (intro OnFrame_remove [OF hs pre]) (simp_all add: deactivate_def)
    also have "\<dots> = call_promise ?p r (deactivate t ?s')"
      by (rule deactivate_call_promise [OF wf' p])
    finally have "OnFrame type cmd data s = call_promise ?p r (deactivate t ?s')" .
    moreover have "api_inv (call_promise ?p r (deactivate t ?s'))"
      by (rule api_inv_call_promise)
        (use inv wf' led' ledger_deactivate [OF wf' p] 3(1) in \<open>simp_all add: handlers_wf_deactivate api_inv_iff\<close>)
    ultimately show ?thesis by simp
  qed
qed

lemma api_inv_frame: "api_inv s \<Longrightarrow> api_inv (OnFrame type cmd data s)"
proof -
  assume inv: "api_inv s"
  then have "list_all wf_handler (handlers s)" by (simp add: api_inv_def)
  then show ?thesis
  proof (cases rule: first_awaiting [where type = type and cmd = cmd and data = data])
    case 1
    have "handlers_wf (s\<lparr> handlers := filter (\<lambda>h. \<not> expired s h) (handlers s) \<rparr>)"
      using inv by (intro handlers_wf_sub) (auto simp: api_inv_iff)
    with inv ledger_drop_expired [of s "handlers s" "[]"] show ?thesis
      by (simp add: OnFrame_unclaimed [OF 1] api_inv_iff)
  qed (use inv api_inv_OnFrame_first in blast)
qed

section \<open>Requests\<close>

definition keeps_inv :: "'a call \<Rightarrow> bool" where
  "keeps_inv m \<longleftrightarrow> (\<forall>s. api_inv s \<longrightarrow> api_inv (fst (m s)))"

lemma api_inv_port [simp]: "api_inv (s\<lparr> raw := x, outputs := y \<rparr>) = api_inv s"
  by (simp add: api_inv_def ledger_def timers_owe_def continuations_owe_def called_def)

lemma raw_SendFrame_state:
  "\<exists>port evs. fst (raw_SendFrame type command payload s) = s\<lparr> raw := port, outputs := outputs s @ evs \<rparr>"
proof (cases "SendFrame type command payload (raw s)")
  case (Inl e)
  then have "fst (raw_SendFrame type command payload s) = s\<lparr> raw := raw s, outputs := outputs s @ [] \<rparr>"
    by (simp add: raw_SendFrame_def)
  then show ?thesis by blast
next
  case (Inr r)
  then show ?thesis by (cases r) (auto simp: raw_SendFrame_def)
qed

lemma keeps_inv_then: "keeps_inv m \<Longrightarrow> keeps_inv (call_then m g)"
  by (simp add: keeps_inv_def call_then_def case_prod_beta)

lemma keeps_inv_with: "(\<And>x. keeps_inv (m x)) \<Longrightarrow> keeps_inv (call_with r m)"
  by (auto simp: keeps_inv_def call_with_def split: sum.splits)

lemma mset_upt_Suc: "mset_set {0..<Suc n} = add_mset n (mset_set {0..<n})"
  by (simp add: atLeast0_lessThan_Suc)

lemma keeps_inv_request: "keeps_inv (RawSReq_any command possible_responses payload)"
  unfolding keeps_inv_def
proof (intro allI impI)
  fix s assume inv: "api_inv s"
  let ?p = "next_promise s"
  let ?s = "s\<lparr> next_promise := Suc ?p, handlers := handlers s @ [SReq possible_responses ?p] \<rparr>"
  have "ledger ?s = add_mset ?p (ledger s)"
    by (simp add: ledger_def timers_owe_def continuations_owe_def called_def)
  with inv have "api_inv ?s" by (simp add: api_inv_iff handlers_wf_def mset_upt_Suc)
  with raw_SendFrame_state [of ZnpCommandType_SREQ command payload ?s]
  show "api_inv (fst (RawSReq_any command possible_responses payload s))"
    by (auto simp: RawSReq_any_def Let_def case_prod_beta)
qed

lemma api_inv_continuation:
  assumes "api_inv s" "target k = next_promise s"
  shows "api_inv (s\<lparr> next_promise := Suc (next_promise s), continuations := continuations s @ [(p, k)] \<rparr>)"
    (is "api_inv ?s")
proof -
  have "ledger ?s \<subseteq># add_mset (next_promise s) (ledger s)"
    using assms(2) by (auto simp: ledger_def timers_owe_def continuations_owe_def called_def)
  also have "\<dots> \<subseteq># add_mset (next_promise s) (mset [0..<next_promise s])"
    using assms(1) by (simp add: api_inv_iff)
  finally show ?thesis
    using assms(1) by (simp add: api_inv_iff handlers_wf_def mset_upt_Suc)
qed

lemma keeps_inv_wait_after:
  assumes "keeps_inv m"
  shows "keeps_inv (WaitAfter m type command timeout data_prefix)"
  unfolding keeps_inv_def
proof (intro allI impI)
  fix s assume inv: "api_inv s"
  obtain s' r where m: "m s = (s', r)" by fastforce
  with assms inv have "api_inv s'" by (auto simp: keeps_inv_def dest: spec [of _ s])
  with m show "api_inv (fst (WaitAfter m type command timeout data_prefix s))"
    by (auto simp: WaitAfter_def Let_def api_inv_continuation split: sum.splits future.splits)
qed

lemma keeps_inv_reset: "keeps_inv (SysReset soft_reset)"
  unfolding keeps_inv_def
proof (intro allI impI)
  fix s assume inv: "api_inv s"
  let ?p = "next_promise s"
  let ?s = "s\<lparr> next_promise := Suc ?p, reset_slots := reset_slots s @ [?p] \<rparr>"
  have "ledger ?s = add_mset ?p (ledger s)"
    by (simp add: ledger_def timers_owe_def continuations_owe_def called_def)
  with inv have "api_inv ?s" by (simp add: api_inv_iff handlers_wf_def mset_upt_Suc)
  with raw_SendFrame_state [of ZnpCommandType_AREQ "SysCmd SysCommand_RESET" _ ?s]
  show "api_inv (fst (SysReset soft_reset s))"
    by (auto simp: SysReset_def Let_def case_prod_beta call_with_def split: sum.splits)
      (metis api_inv_port)
qed

lemma keeps_inv_wait_for_state: "keeps_inv (WaitForState end_states allowed_states)"
  unfolding keeps_inv_def
proof (intro allI impI)
  fix s assume inv: "api_inv s"
  have "keeps_inv (SapiGetDeviceInfo (enum_codec :: DeviceState codec) DeviceInfo_DeviceState)"
    unfolding SapiGetDeviceInfo_def SapiGetDeviceInfoRaw_def RawSReq_def
    by (intro keeps_inv_then keeps_inv_with keeps_inv_request)
  moreover obtain s' r where
    m: "SapiGetDeviceInfo (enum_codec :: DeviceState codec) DeviceInfo_DeviceState s = (s', r)" by fastforce
  ultimately have "api_inv s'" using inv by (auto simp: keeps_inv_def dest: spec [of _ s])
  with m show "api_inv (fst (WaitForState end_states allowed_states s))"
    by (auto simp: WaitForState_def Let_def api_inv_continuation split: sum.splits future.splits)
qed

lemma keeps_invD: "keeps_inv m \<Longrightarrow> api_inv s \<Longrightarrow> m s = (s', r) \<Longrightarrow> api_inv s'"
  by (metis fst_conv keeps_inv_def)

lemma run_api_inv: "api_run s \<Longrightarrow> api_inv s"
proof (induction rule: api_run.induct)
  case (api_start interface)
  then show ?case
    by (auto simp: api_inv_def ZnpApi_ctor_def AddSimpleEventHandler_def ledger_def timers_owe_def
      continuations_owe_def called_def)
next
  case (api_request s command possible_responses payload s' r)
  then show ?case using keeps_invD [OF keeps_inv_request] by blast
next
  case (api_request_wait s command payload "first" type rsp timeout data_prefix s' r)
  moreover have "keeps_inv (WaitAfter (call_then (RawSReq command payload) first) type rsp timeout data_prefix)"
    unfolding RawSReq_def by (intro keeps_inv_wait_after keeps_inv_then keeps_inv_request)
  ultimately show ?case using keeps_invD by blast
next
  case (api_reset s soft_reset s' r)
  then show ?case using keeps_invD [OF keeps_inv_reset] by blast
next
  case (api_wait_for_state s end_states allowed_states s' r)
  then show ?case using keeps_invD [OF keeps_inv_wait_for_state] by blast
qed (simp_all add: api_inv_frame api_inv_timer)

lemma count_ledger_le: "api_inv s \<Longrightarrow> count (ledger s) p \<le> 1"
  using ledger_distinct [of s "next_promise s"] by (simp add: api_inv_def)

lemma distinct_by_count: "(\<And>x. count (mset xs) x \<le> 1) \<Longrightarrow> distinct xs"
  by (induction xs) (force simp: count_eq_zero_iff le_Suc_eq split: if_splits)+

lemma ledger_list_distinct:
  "api_inv s \<Longrightarrow> distinct (called s @ concat (map handler_owes (handlers s)) @ timers_owe s @ continuations_owe s
     @ reset_slots s @ map fst (state_slots s))"
proof (rule distinct_by_count)
  fix p
  assume "api_inv s"
  from count_ledger_le [OF this, of p]
  show "count (mset (called s @ concat (map handler_owes (handlers s)) @ timers_owe s @ continuations_owe s
     @ reset_slots s @ map fst (state_slots s))) p \<le> 1"
    by (simp add: ledger_def del: mset_map mset_concat)
qed

lemma timers_owe_not_called: "api_inv s \<Longrightarrow> p \<in> set (timers_owe s) \<Longrightarrow> p \<notin> set (called s)"
  using ledger_list_distinct [of s] by auto

lemma timed_promise_owed:
  assumes "api_inv s" "With_timeout t h \<in> set (handlers s)" "timer_active t s"
  shows "handler_promise h \<in> set (timers_owe s)"
proof -
  from assms(1,2) obtain a where a: "(t, a, handler_promise h) \<in> set (timers s)" by (auto simp: api_inv_def)
  from timer_activeD [OF assms(3)] obtain p where p: "(t, True, p) \<in> set (timers s)" by blast
  with a assms(1) have "p = handler_promise h" by (auto simp: api_inv_iff dest: timer_promise_unique)
  with p show ?thesis by (force simp: timers_owe_def)
qed

text \<open>
  C8: in every run, whatever the order of requests, responses, events and timeouts, no promise is
  called twice, and a promise that has been called is owed by nothing any more: by no handler, no
  running timer, no reset or state slot and no continuation whose own promise is still to be called.
  Nor is a promise owed from two of these places. The promise of a handler with a timeout is owed by
  its timer while that runs, hence not called; once the timer has been stopped the handler takes no
  frame, so it can never call its promise.
\<close>

theorem promises_called_at_most_once:
  assumes "api_run s"
  shows "distinct (called s @ concat (map handler_owes (handlers s)) @ timers_owe s @ continuations_owe s
      @ reset_slots s @ map fst (state_slots s)) \<and>
    (\<forall>t h. With_timeout t h \<in> set (handlers s) \<longrightarrow>
      (if timer_active t s then handler_promise h \<in> set (timers_owe s) \<and> handler_promise h \<notin> set (called s)
       else \<forall>type cmd data. \<not> awaits (With_timeout t h) type cmd data s))"
proof -
  note inv = run_api_inv [OF assms]
  have "timer_active t s \<Longrightarrow> handler_promise h \<in> set (timers_owe s) \<and> handler_promise h \<notin> set (called s)"
    if "With_timeout t h \<in> set (handlers s)" for t h
    using timed_promise_owed [OF inv that] timers_owe_not_called [OF inv] by blast
  moreover have "\<not> timer_active t s \<Longrightarrow> \<not> awaits (With_timeout t h) type cmd data s" for t h type cmd data
    by (simp add: awaits_def)
  ultimately show ?thesis using ledger_list_distinct [OF inv] by simp
qed

text \<open>A run for the witnesses: \<open>SysPing\<close>, then its response.\<close>

abbreviation pinged :: api where
  "pinged \<equiv> fst (RawSReq_any (SysCmd SysCommand_PING) [SysCmd SysCommand_PING] [] (ZnpApi_ctor port_ctor))"

lemma pinged_run: "api_run pinged"
  by (rule api_request [OF api_start prod.collapse [symmetric]])

section \<open>Fresh promises\<close>

lemma called_fresh: "api_inv s \<Longrightarrow> next_promise s \<le> p \<Longrightarrow> p \<notin> set (called s)"
proof
  assume inv: "api_inv s" and le: "next_promise s \<le> p" and p: "p \<in> set (called s)"
  from p have "p \<in># ledger s" by (simp add: ledger_def)
  with inv have "p \<in># mset [0..<next_promise s]" by (metis api_inv_def mset_subset_eqD)
  with le show False by simp
qed

lemma call_promise_fields [simp]: "continuations (call_promise p r s) = continuations s"
  by (auto simp: call_promise_def continue_with_def log_result_def WaitFor_def AddHandlerWithTimeout_def
    Let_def split: option.splits continuation.splits sum.splits)

lemma emit_fields [simp]: "continuations (emit ev s) = continuations s" "next_promise (emit ev s) = next_promise s"
  by (cases ev; simp add: emit_def reset_slot_def state_change_slot_def Let_def)+

lemma deactivate_fields [simp]: "continuations (deactivate t s) = continuations s"
  by (simp add: deactivate_def)

lemma call_handler_fields:
  "continuations (fst (call_handler h type cmd data s)) = continuations s \<and>
   next_promise (fst (call_handler h type cmd data s)) = next_promise s"
proof (induction h)
  case (With_timeout t h)
  then show ?case by (simp add: Let_def case_prod_beta)
qed (simp_all split: sum.splits option.splits)

lemma OnFrame_loop_fields:
  "continuations (OnFrame_loop i type cmd data s) = continuations s \<and>
   next_promise (OnFrame_loop i type cmd data s) = next_promise s"
proof (induction i type cmd data s rule: OnFrame_loop.induct)
  case (1 i type cmd data s)
  obtain s' action where c: "call_handler (handlers s ! i) type cmd data s = (s', action)" by fastforce
  with call_handler_fields [of "handlers s ! i" type cmd data s] 1 [OF _ c [symmetric] refl refl refl]
  show ?case by (subst (1 2) OnFrame_loop.simps) (simp add: Let_def)
qed

lemma OnFrame_fields [simp]:
  "continuations (OnFrame type cmd data s) = continuations s"
  "next_promise (OnFrame type cmd data s) = next_promise s"
  by (simp_all add: OnFrame_def OnFrame_loop_fields)

lemma raw_SendFrame_fields [simp]:
  "continuations (fst (raw_SendFrame type cmd data s)) = continuations s"
  "next_promise (fst (raw_SendFrame type cmd data s)) = next_promise s"
  by (simp_all add: raw_SendFrame_def split: sum.splits)

definition keys_fresh :: "api \<Rightarrow> bool" where
  "keys_fresh s \<longleftrightarrow> (\<forall>(p, k) \<in> set (continuations s). p < next_promise s)"

text \<open>A call that attaches no continuation and returns a promise it has allocated.\<close>

definition fresh_call :: "'a future call \<Rightarrow> bool" where
  "fresh_call m \<longleftrightarrow> (\<forall>s. continuations (fst (m s)) = continuations s \<and> next_promise s \<le> next_promise (fst (m s))
     \<and> (\<forall>p d. snd (m s) = Inr (Future p d) \<longrightarrow> p < next_promise (fst (m s))))"

lemma fresh_call_request: "fresh_call (RawSReq_any command possible_responses payload)"
  by (auto simp: fresh_call_def RawSReq_any_def Let_def case_prod_beta res_bind_eq_Inr)

lemma fresh_call_then: "fresh_call m \<Longrightarrow> fresh_call (call_then m g)"
proof -
  assume m: "fresh_call m"
  have "\<exists>d'. snd (m s) = Inr (Future p d')" if "snd (call_then m g s) = Inr (Future p d)" for s p d
  proof (cases "snd (m s)")
    case (Inr f)
    with that show ?thesis by (cases f) (simp add: call_then_def case_prod_beta future_then_def)
  qed (use that in \<open>simp add: call_then_def case_prod_beta\<close>)
  moreover have "fst (call_then m g s) = fst (m s)" for s by (simp add: call_then_def case_prod_beta)
  ultimately show ?thesis using m unfolding fresh_call_def by metis
qed

lemma fresh_call_with: "(\<And>x. fresh_call (m x)) \<Longrightarrow> fresh_call (call_with r m)"
  by (auto simp: fresh_call_def call_with_def split: sum.splits)

lemma keys_fresh_attach:
  assumes "fresh_call m" "m s = (s', Inr (Future p d))" "keys_fresh s"
  shows "keys_fresh (s'\<lparr> next_promise := Suc (next_promise s'), continuations := continuations s' @ [(p, k)] \<rparr>)"
proof -
  have "continuations s' = continuations s" "next_promise s \<le> next_promise s'" "p < next_promise s'"
    using assms(1) unfolding fresh_call_def by (metis assms(2) fst_conv snd_conv)+
  with assms(3) show ?thesis by (fastforce simp: keys_fresh_def)
qed

lemma keys_fresh_call: "fresh_call m \<Longrightarrow> m s = (s', r) \<Longrightarrow> keys_fresh s \<Longrightarrow> keys_fresh s'"
  by (fastforce simp: fresh_call_def keys_fresh_def dest: spec [of _ s])

lemma keys_fresh_wait_after:
  assumes m: "fresh_call m" and k: "keys_fresh s"
    and w: "WaitAfter m type rsp timeout data_prefix s = (s', r)"
  shows "keys_fresh s'"
proof -
  obtain s1 r1 where m1: "m s = (s1, r1)" by fastforce
  show ?thesis
  proof (cases r1)
    case (Inl e)
    with m1 w keys_fresh_call [OF m m1 k] show ?thesis by (simp add: WaitAfter_def)
  next
    case (Inr f)
    with m1 w show ?thesis
      by (cases f) (auto simp: WaitAfter_def Let_def intro: keys_fresh_attach [OF m _ k])
  qed
qed

lemma keys_fresh_wait_for_state:
  assumes k: "keys_fresh s" and w: "WaitForState end_states allowed_states s = (s', r)"
  shows "keys_fresh s'"
proof -
  let ?m = "SapiGetDeviceInfo (enum_codec :: DeviceState codec) DeviceInfo_DeviceState"
  have m: "fresh_call ?m"
    unfolding SapiGetDeviceInfo_def SapiGetDeviceInfoRaw_def RawSReq_def
    by (intro fresh_call_then fresh_call_with fresh_call_request)
  obtain s1 r1 where m1: "?m s = (s1, r1)" by fastforce
  show ?thesis
  proof (cases r1)
    case (Inl e)
    with m1 w keys_fresh_call [OF m m1 k] show ?thesis by (simp add: WaitForState_def)
  next
    case (Inr f)
    with m1 w show ?thesis
      by (cases f) (auto simp: WaitForState_def Let_def intro: keys_fresh_attach [OF m _ k])
  qed
qed

lemma run_keys_fresh: "api_run s \<Longrightarrow> keys_fresh s"
proof (induction rule: api_run.induct)
  case (api_start interface)
  then show ?case by (simp add: keys_fresh_def ZnpApi_ctor_def AddSimpleEventHandler_def)
next
  case (api_request s command possible_responses payload s' r)
  then show ?case using keys_fresh_call [OF fresh_call_request] by blast
next
  case (api_request_wait s command payload "first" type rsp timeout data_prefix s' r)
  moreover have "fresh_call (call_then (RawSReq command payload) first)"
    unfolding RawSReq_def by (intro fresh_call_then fresh_call_request)
  ultimately show ?case using keys_fresh_wait_after by blast
next
  case (api_reset s soft_reset s' r)
  then show ?case
    by (force simp: keys_fresh_def SysReset_def call_with_def Let_def case_prod_beta split: sum.splits)
next
  case (api_wait_for_state s end_states allowed_states s' r)
  then show ?case using keys_fresh_wait_for_state by blast
next
  case (api_timer s t)
  then show ?case by (simp add: keys_fresh_def TimerExpired_def split: option.splits)
qed (simp_all add: keys_fresh_def)

end
