(* ===== verification/ZnpRequests.thy ===== *)
theory ZnpRequests
  imports ZnpPromises
begin

text \<open>
  What a caller of the request/response layer observes: the value of the future it was given, from
  the request to the response, the awaited indication or the timeout.
\<close>

lemma RawSReq_any_ok:
  assumes "length payload \<le> 255"
  shows "\<exists>port evs. RawSReq_any command possible_responses payload s =
    (s\<lparr> next_promise := Suc (next_promise s), handlers := handlers s @ [SReq possible_responses (next_promise s)],
        raw := port, outputs := outputs s @ evs \<rparr>, Inr (Future (next_promise s) Inr))"
  using assms by (simp add: RawSReq_any_def Let_def raw_SendFrame_def SendFrame_def case_prod_beta) blast

lemma RawSReq_any_oversized:
  assumes "length payload > 255"
  shows "RawSReq_any command possible_responses payload s =
    (s\<lparr> next_promise := Suc (next_promise s), handlers := handlers s @ [SReq possible_responses (next_promise s)] \<rparr>,
     Inl (Runtime_error ''ZNP Command Payload size should not exceed 255 bytes''))"
  using assms by (simp add: RawSReq_any_def Let_def raw_SendFrame_def SendFrame_def)

lemma settled_fresh: "api_inv s \<Longrightarrow> next_promise s \<le> p \<Longrightarrow> map_of (settled s) p = None"
  using called_fresh [of s p] by (force simp: called_def map_of_eq_None_iff)

lemma continuations_fresh: "keys_fresh s \<Longrightarrow> next_promise s \<le> p \<Longrightarrow> map_of (continuations s) p = None"
  by (force simp: keys_fresh_def map_of_eq_None_iff)

lemma call_promise_plain:
  "map_of (continuations s) p = None \<Longrightarrow> call_promise p r s = s\<lparr> settled := settled s @ [(p, r)] \<rparr>"
  by (simp add: call_promise_def log_result_def Let_def)

lemma timers_call_promise: "e \<in> set (timers s) \<Longrightarrow> e \<in> set (timers (call_promise p r s))"
  by (auto simp: call_promise_def continue_with_def log_result_def WaitFor_def AddHandlerWithTimeout_def
    Let_def split: option.splits continuation.splits sum.splits)

lemma settled_call_promise: "(p, r) \<in> set (settled (call_promise p r s))"
  by (auto simp: call_promise_def continue_with_def log_result_def WaitFor_def AddHandlerWithTimeout_def
    Let_def split: option.splits continuation.splits sum.splits)

text \<open>The handler that \<open>WaitFor\<close> adds takes an indication with its prefix.\<close>

lemma wait_settles:
  assumes "handlers s = pre @ h # post" "unclaimed pre type cmd (prefix @ data) s"
    and "h = Wait type cmd prefix p \<or> (\<exists>t. h = With_timeout t (Wait type cmd prefix p) \<and> timer_active t s)"
    and "map_of (continuations s) p = None"
  shows "settled (OnFrame type cmd (prefix @ data) s) = settled s @ [(p, Inr data)]"
proof -
  let ?s' = "s\<lparr> handlers := filter (\<lambda>h. \<not> expired s h) pre @ post \<rparr>"
  have data: "(if length prefix = 0 then prefix @ data else drop (length prefix) (prefix @ data)) = data"
    by simp
  have c: "call_promise p (Inr data) ?s' = ?s'\<lparr> settled := settled s @ [(p, Inr data)] \<rparr>"
    using assms(4) by (simp add: call_promise_plain)
  from assms(3) show ?thesis
  proof
    assume "h = Wait type cmd prefix p"
    then have "OnFrame type cmd (prefix @ data) s = (\<lambda>x. x) (call_promise p (Inr data) ?s')"
      by (intro OnFrame_remove [OF assms(1,2)]) (simp_all add: data)
    with c show ?thesis by simp
  next
    assume "\<exists>t. h = With_timeout t (Wait type cmd prefix p) \<and> timer_active t s"
    then obtain t where h: "h = With_timeout t (Wait type cmd prefix p)" "timer_active t s" by blast
    then have "OnFrame type cmd (prefix @ data) s = deactivate t (call_promise p (Inr data) ?s')"
      by (intro OnFrame_remove [OF assms(1,2)]) (simp_all add: data deactivate_def timer_active_def)
    with c show ?thesis by (simp add: deactivate_def)
  qed
qed

lemma awaits_timer_cong:
  assumes "wf_handler h" "\<And>t w. h = With_timeout t w \<Longrightarrow> timer_active t s = timer_active t s'"
  shows "awaits h type cmd data s = awaits h type cmd data s'"
  using assms
  by (induction h rule: wf_handler.induct)
    (auto simp: awaits_def Let_def split: sum.splits option.splits)

lemma unclaimed_later:
  assumes wf: "handlers_wf s" and un: "unclaimed (handlers s) type cmd data s"
    and hs: "set hs \<subseteq> set (handlers s)" and ts: "timers s' = timers s @ ts"
  shows "unclaimed hs type cmd data s'"
  unfolding unclaimed_def list_all_iff
proof
  fix h assume "h \<in> set hs"
  then have h: "h \<in> set (handlers s)" "wf_handler h" "\<not> awaits h type cmd data s"
    using hs un by (auto simp: unclaimed_def list_all_iff)
  have "timer_active t s = timer_active t s'" if "h = With_timeout t w" for t w
  proof -
    from wf h(1) that obtain a where "(t, a, handler_promise w) \<in> set (timers s)"
      by (auto simp: handlers_wf_def)
    then have "t \<in> fst ` set (timers s)" by force
    then have "map_of (timers s) t \<noteq> None" by (simp add: map_of_eq_None_iff)
    then show ?thesis by (auto simp: timer_active_def ts map_add_def)
  qed
  with h show "wf_handler h \<and> \<not> awaits h type cmd data s'" using awaits_timer_cong by blast
qed

text \<open>
  C9: a request that can be sent returns a pending future, and a response to it that no older
  handler takes completes the future with the response's data.
\<close>

theorem request_answered:
  assumes "api_run s" "length payload \<le> 255" "RawSReq_any command possible_responses payload s = (s1, r)"
    and "rsp \<in> set possible_responses" "unclaimed (handlers s) ZnpCommandType_SRSP rsp data s"
  shows "\<exists>f. r = Inr f \<and> future_value s1 f = None
    \<and> future_value (OnFrame ZnpCommandType_SRSP rsp data s1) f = Some (Inr data)"
proof -
  note inv = run_api_inv [OF assms(1)] and keys = run_keys_fresh [OF assms(1)]
  let ?n = "next_promise s"
  obtain port evs where s1: "s1 = s\<lparr> next_promise := Suc ?n,
      handlers := handlers s @ [SReq possible_responses ?n], raw := port, outputs := outputs s @ evs \<rparr>" and r: "r = Inr (Future ?n Inr)"
    using RawSReq_any_ok [OF assms(2), of command possible_responses s] assms(3) by auto
  have "OnFrame ZnpCommandType_SRSP rsp data s1
      = call_promise ?n (Inr data) (s1\<lparr> handlers := filter (\<lambda>h. \<not> expired s1 h) (handlers s) @ [] \<rparr>)"
    using assms(4,5) unclaimed_cong [of s1 s "handlers s"]
    by (intro response_settles) (simp_all add: s1)
  then have "settled (OnFrame ZnpCommandType_SRSP rsp data s1) = settled s @ [(?n, Inr data)]"
    using continuations_fresh [OF keys, of ?n] by (simp add: s1 call_promise_plain)
  with r settled_fresh [OF inv, of ?n] show ?thesis
    by (simp add: future_value_def s1 map_add_def)
qed

text \<open>
  C21: a request whose payload is too long for a frame throws, but the handler it has added stays in
  the list. The next request for the same command is sent and waits behind it: the response, which no
  older handler takes, calls the promise of the request that has thrown, removes its handler, and
  leaves the second request waiting with its future pending.
\<close>

theorem abandoned_handler_takes_response:
  assumes "api_run s" "length payload > 255" "RawSReq command payload s = (s1, r1)"
    and "length payload' \<le> 255" "RawSReq command payload' s1 = (s2, r2)"
    and "unclaimed (handlers s) ZnpCommandType_SRSP command data s"
    and "s3 = OnFrame ZnpCommandType_SRSP command data s2"
  shows "r1 = Inl (Runtime_error ''ZNP Command Payload size should not exceed 255 bytes'')
    \<and> handlers s1 = handlers s @ [SReq [command] (next_promise s)]
    \<and> r2 = Inr (Future (next_promise s1) Inr) \<and> next_promise s1 \<noteq> next_promise s
    \<and> handlers s2 = handlers s1 @ [SReq [command] (next_promise s1)]
    \<and> next_promise s \<notin> fst ` set (settled s2)
    \<and> settled s3 = settled s2 @ [(next_promise s, Inr data)]
    \<and> handlers s3 = filter (\<lambda>h. \<not> expired s h) (handlers s) @ [SReq [command] (next_promise s1)]
    \<and> future_value s2 (Future (next_promise s1) (Inr :: byte list \<Rightarrow> error + byte list)) = None
    \<and> future_value s3 (Future (next_promise s1) (Inr :: byte list \<Rightarrow> error + byte list)) = None"
proof -
  note inv = run_api_inv [OF assms(1)] and keys = run_keys_fresh [OF assms(1)]
  let ?n = "next_promise s"
  from RawSReq_any_oversized [OF assms(2), of command "[command]" s] assms(3)
  have s1: "s1 = s\<lparr> next_promise := Suc ?n, handlers := handlers s @ [SReq [command] ?n] \<rparr>"
    and r1: "r1 = Inl (Runtime_error ''ZNP Command Payload size should not exceed 255 bytes'')"
    by (simp_all add: RawSReq_def)
  obtain port evs where s2: "s2 = s1\<lparr> next_promise := Suc (next_promise s1),
      handlers := handlers s1 @ [SReq [command] (next_promise s1)], raw := port, outputs := outputs s1 @ evs \<rparr>"
    and r2: "r2 = Inr (Future (next_promise s1) Inr)"
    using RawSReq_any_ok [OF assms(4), of command "[command]" s1] assms(5) by (auto simp: RawSReq_def)
  have kept: "expired s2 = expired s"
    by (rule ext) (simp add: s2 s1 expired_def timer_active_def split: frame_handler.split)
  have "s3 = call_promise ?n (Inr data)
      (s2\<lparr> handlers := filter (\<lambda>h. \<not> expired s h) (handlers s) @ [SReq [command] (Suc ?n)] \<rparr>)"
    unfolding assms(7) kept [symmetric] using assms(6) unclaimed_cong [of s2 s "handlers s"]
    by (intro response_settles [where possible_responses = "[command]"]) (simp_all add: s2 s1)
  then have s3: "settled s3 = settled s @ [(?n, Inr data)]"
      "handlers s3 = filter (\<lambda>h. \<not> expired s h) (handlers s) @ [SReq [command] (Suc ?n)]"
    using continuations_fresh [OF keys, of ?n] by (simp_all add: s1 s2 call_promise_plain)
  have fresh: "map_of (settled s) ?n = None" "map_of (settled s) (Suc ?n) = None"
    using settled_fresh [OF inv] by simp_all
  then have "?n \<notin> fst ` set (settled s)" by (simp add: map_of_eq_None_iff)
  with r1 r2 s3 fresh(2) show ?thesis
    by (simp add: future_value_def s1 s2 map_add_def)
qed

text \<open>
  A timer that expires while its handler waits fails the awaited future with
  \<open>Timeout\<close>, only once, and from then on the handler takes no frame.
\<close>

theorem timeout_fails_waiter:
  assumes "api_run s" "(t, True, p) \<in> set (timers s)"
  shows "(p, Inl (Runtime_error ''Timeout'')) \<in> set (settled (TimerExpired t s))
    \<and> TimerExpired t (TimerExpired t s) = TimerExpired t s
    \<and> \<not> awaits (With_timeout t h) type cmd data (TimerExpired t s)"
proof -
  note inv = run_api_inv [OF assms(1)]
  then have wf: "handlers_wf s" by (simp add: api_inv_iff)
  let ?d = "deactivate t s"
  let ?s' = "call_promise p (Inl (Runtime_error ''Timeout'')) ?d"
  from wf have m: "map_of (timers s) t = Some (True, p)"
    using assms(2) by (intro map_of_is_SomeI) (simp_all add: handlers_wf_def)
  then have s': "TimerExpired t s = ?s'" by (simp add: TimerExpired_def timer_active_def)
  have "(t, False, p) \<in> set (timers ?d)" using assms(2) by (force simp: timers_deactivate)
  then have "(t, False, p) \<in> set (timers ?s')" by (rule timers_call_promise)
  moreover have "handlers_wf ?s'" by (intro handlers_wf_call_promise handlers_wf_deactivate wf)
  ultimately have "\<not> timer_active t ?s'"
    by (auto simp: handlers_wf_def timer_active_def map_of_is_SomeI)
  with s' settled_call_promise [of p "Inl (Runtime_error ''Timeout'')" ?d] show ?thesis
    by (auto simp: TimerExpired_def awaits_def)
qed

text \<open>
  C10: a request followed by the wait for an indication, as in \<open>ZdoBind\<close>: once the request is
  answered with the success status and then an indication with the awaited prefix arrives, the
  future holds the indication's data behind the prefix, and not before.
\<close>

theorem request_then_wait_completes:
  assumes "api_run s" "length payload \<le> 255"
    and "WaitAfter (call_then (RawSReq command payload) CheckOnlyStatus) ZnpCommandType_AREQ ind timeout prefix s
      = (s1, r)"
    and "unclaimed (handlers s) ZnpCommandType_SRSP command [ZnpStatus_Success] s"
    and "s2 = OnFrame ZnpCommandType_SRSP command [ZnpStatus_Success] s1"
    and "unclaimed (handlers s) ZnpCommandType_AREQ ind (prefix @ data) s"
    and "s3 = OnFrame ZnpCommandType_AREQ ind (prefix @ data) s2"
  shows "\<exists>f. r = Inr f \<and> future_value s1 f = None \<and> future_value s2 f = None
    \<and> future_value s3 f = Some (Inr data)"
proof -
  note inv = run_api_inv [OF assms(1)] and keys = run_keys_fresh [OF assms(1)]
  let ?n = "next_promise s"
  let ?k = "Wait_after CheckOnlyStatus ZnpCommandType_AREQ ind timeout prefix (Suc ?n)"
  obtain port evs where m: "RawSReq command payload s = (s\<lparr> next_promise := Suc ?n,
      handlers := handlers s @ [SReq [command] ?n], raw := port, outputs := outputs s @ evs \<rparr>, Inr (Future ?n Inr))"
    using RawSReq_any_ok [OF assms(2), of command "[command]" s] by (auto simp: RawSReq_def)
  from assms(3) have s1: "s1 = s\<lparr> next_promise := Suc (Suc ?n), handlers := handlers s @ [SReq [command] ?n],
      raw := port, outputs := outputs s @ evs, continuations := continuations s @ [(?n, ?k)] \<rparr>"
    and r: "r = Inr (Future (Suc ?n) Inr)"
    by (auto simp: WaitAfter_def call_then_def m future_then_def Let_def)
  let ?kept = "filter (\<lambda>h. \<not> expired s1 h) (handlers s)"
  let ?w = "Wait ZnpCommandType_AREQ ind prefix (Suc ?n)"
  have "s2 = call_promise ?n (Inr [ZnpStatus_Success]) (s1\<lparr> handlers := ?kept @ [] \<rparr>)"
    unfolding assms(5) using assms(4) unclaimed_cong [of s1 s "handlers s"]
    by (intro response_settles [where possible_responses = "[command]"]) (simp_all add: s1)
  then have s2: "s2 = WaitFor ZnpCommandType_AREQ ind timeout prefix (Suc ?n)
      (s1\<lparr> handlers := ?kept, settled := settled s @ [(?n, Inr [ZnpStatus_Success])] \<rparr>)"
    using continuations_fresh [OF keys, of ?n]
    by (simp add: call_promise_def log_result_def Let_def s1 map_add_def continue_with_def
      CheckOnlyStatus_def CheckStatus_def)
  have set2: "settled s2 = settled s @ [(?n, Inr [ZnpStatus_Success])]"
    by (simp add: s2 WaitFor_def AddHandlerWithTimeout_def Let_def)
  define h where "h = (if timeout \<le> 0 then ?w else With_timeout (length (timers s)) ?w)"
  define ts where "ts = (if timeout \<le> 0 then [] else [(length (timers s), True, Suc ?n)])"
  have h2: "handlers s2 = ?kept @ [h]" and t2: "timers s2 = timers s @ ts"
    by (simp_all add: s2 WaitFor_def AddHandlerWithTimeout_def Let_def s1 h_def ts_def)
  have wf: "handlers_wf s" using inv by (simp add: api_inv_iff)
  then have "map_of (timers s) (length (timers s)) = None"
    by (metis atLeastLessThan_iff handlers_wf_def less_irrefl list.set_map map_of_eq_None_iff set_upt)
  then have "h = ?w \<or> (\<exists>t. h = With_timeout t ?w \<and> timer_active t s2)"
    by (auto simp: h_def timer_active_def t2 ts_def map_add_def)
  moreover have "unclaimed ?kept ZnpCommandType_AREQ ind (prefix @ data) s2"
    by (rule unclaimed_later [OF wf assms(6) _ t2]) auto
  moreover have "map_of (continuations s2) (Suc ?n) = None"
    using continuations_fresh [OF keys, of "Suc ?n"]
    by (simp add: s2 WaitFor_def AddHandlerWithTimeout_def Let_def s1 map_add_def)
  ultimately have "settled s3 = settled s2 @ [(Suc ?n, Inr data)]"
    unfolding assms(7) using h2 by (intro wait_settles [where pre = ?kept and post = "[]"]) simp_all
  with set2 r settled_fresh [OF inv, of "Suc ?n"] show ?thesis
    by (simp add: future_value_def s1 map_add_def)
qed

section \<open>Events and data requests\<close>

lemma registered_event_emitted:
  assumes "handlers s = handlers (ZnpApi_ctor interface) @ later" "length (msg_Data m) \<le> 255"
  shows "OnFrame ZnpCommandType_AREQ (AfCmd AfCommand_INCOMING_MSG) (IncomingMsg_img m @ trailing) s
    = s\<lparr> emitted := emitted s @ [Incoming_msg m] \<rparr>"
proof -
  let ?pre = "butlast (handlers (ZnpApi_ctor interface))"
  let ?h = "Simple_event ZnpCommandType_AREQ (AfCmd AfCommand_INCOMING_MSG) af_on_incoming_msg True"
  have hs: "handlers s = ?pre @ ?h # later"
    using assms(1) by (simp add: ZnpApi_ctor_def AddSimpleEventHandler_def)
  have un: "unclaimed ?pre ZnpCommandType_AREQ (AfCmd AfCommand_INCOMING_MSG) data s" for data
    by (simp add: ZnpApi_ctor_def AddSimpleEventHandler_def unclaimed_def awaits_def command_defs)
  have kept: "filter (\<lambda>h. \<not> expired s h) ?pre = ?pre"
    by (simp add: ZnpApi_ctor_def AddSimpleEventHandler_def expired_def)
  have dec: "decode_event True af_on_incoming_msg (IncomingMsg_img m @ trailing) = Inr (Incoming_msg m)"
    using IncomingMsg_dec_iff [of "IncomingMsg_img m @ trailing" m trailing] assms(2)
    by (simp add: decode_event_def event_dec_def struct_dec_def)
  have "s\<lparr> handlers := filter (\<lambda>h. \<not> expired s h) ?pre @ ?h # later \<rparr> = s"
    using hs unfolding kept by simp
  with OnFrame_first [OF hs un, of "IncomingMsg_img m @ trailing"] dec show ?thesis
    by (simp add: emit_def Let_def)
qed

text \<open>
  A frame of an event that the constructor has registered is decoded and emitted, and keeps
  every handler; an incoming message may have trailing bytes, all other events are ignored then.
\<close>

theorem incoming_message_emitted:
  assumes "handlers s = handlers (ZnpApi_ctor interface) @ later" "length (msg_Data m) \<le> 255"
  shows "OnFrame ZnpCommandType_AREQ (AfCmd AfCommand_INCOMING_MSG) (IncomingMsg_img m @ trailing) s
    = s\<lparr> emitted := emitted s @ [Incoming_msg m] \<rparr>"
  using assms by (rule registered_event_emitted)

text \<open>
  A data request with 246 to 255 bytes of data can be encoded but not sent: the call throws,
  and the handler for its response stays behind.
\<close>

theorem data_request_too_long:
  assumes "245 < length Data" "length Data \<le> 255"
  shows "AfDataRequest DstAddr DstEndpoint SrcEndpoint ClusterId TransId Options Radius Data s =
    (s\<lparr> next_promise := Suc (next_promise s),
        handlers := handlers s @ [SReq [AfCmd AfCommand_DATA_REQUEST] (next_promise s)] \<rparr>,
     Inl (Runtime_error ''ZNP Command Payload size should not exceed 255 bytes''))"
proof -
  have size: "GetSize (vector_codec unsigned_codec) Data = Inr (Suc (length Data))"
    by (simp add: vector_codec_def sum_sizes_bytes)
  have bytes_written: "enc (vector_codec unsigned_codec) Data (Suc (length Data)) = Inr (word_of_nat (length Data) # Data, 0)"
    using bytes.write_law [of Data "Suc (length Data)"] concat_le_bytes_1 [of Data] assms(2)
    by (simp add: vector_ok_def list_all_iff vector_img_def)
  obtain payload where payload: "Encode (pair_codec unsigned_codec (pair_codec unsigned_codec (pair_codec unsigned_codec
      (pair_codec unsigned_codec (pair_codec unsigned_codec (pair_codec unsigned_codec (pair_codec unsigned_codec
      (vector_codec unsigned_codec))))))))
      (DstAddr, DstEndpoint, SrcEndpoint, ClusterId, TransId, Options, Radius, Data) = Inr payload"
    and len: "length payload = 10 + length Data"
    by (simp add: Encode_def pair_codec_def codec_simps size bytes_written)
  from len assms(1) have "length payload > 255" by simp
  from RawSReq_any_oversized [OF this] show ?thesis
    by (simp add: AfDataRequest_def call_with_def payload call_then_def WaitAfter_def RawSReq_def)
qed

section \<open>Witnesses\<close>

lemmas ctor_simps = ZnpApi_ctor_def AddSimpleEventHandler_def

abbreviation started :: api where
  "started \<equiv> ZnpApi_ctor port_ctor"

lemma started_run: "api_run started"
  by (rule api_start)

lemma started_unclaimed:
  "unclaimed (handlers started) ZnpCommandType_SRSP cmd data s"
  by (simp add: unclaimed_def awaits_def ctor_simps)

lemma started_unclaimed_bind:
  "unclaimed (handlers started) ZnpCommandType_AREQ (ZdoCmd ZdoCommand_BIND_RSP) data s"
  by (simp add: unclaimed_def awaits_def ctor_simps command_defs)

lemma pinged_eq: "pinged = started\<lparr> next_promise := 1, handlers := handlers started @ [SReq [SysCmd SysCommand_PING] 0],
    raw := one_ping, outputs := [Async_write ping_frame, On_sent ZnpCommandType_SREQ (SysCmd SysCommand_PING) []] \<rparr>"
  by (simp add: RawSReq_any_def raw_SendFrame_def Let_def ctor_simps send_first_ping)

theorem response_settles_oldest_request_witness:
  "OnFrame ZnpCommandType_SRSP (SysCmd SysCommand_PING) [0x79, 0x01] pinged
    = call_promise 0 (Inr [0x79, 0x01]) (pinged\<lparr> handlers := filter (\<lambda>h. \<not> expired pinged h) (handlers started) @ [] \<rparr>)"
  by (rule response_settles_oldest_request [where possible_responses = "[SysCmd SysCommand_PING]"])
    (simp_all add: pinged_eq started_unclaimed)

theorem unclaimed_frame_ignored_witness:
  "OnFrame ZnpCommandType_SRSP (SysCmd SysCommand_PING) [0x79, 0x01] started
    = started\<lparr> handlers := filter (\<lambda>h. \<not> expired started h) (handlers started) \<rparr>"
  by (rule unclaimed_frame_ignored) (rule started_unclaimed)

lemma ping_nibbles: "nibbles ZnpCommandType_SREQ (SysCmd SysCommand_PING)"
  by (simp add: nibbles_def Subsystem_def command_defs)

lemma ping_not_error: "(ZnpSubsystem_RPC_Error, 0) \<noteq> SysCmd SysCommand_PING"
  by (simp add: command_defs)

theorem rpc_error_fails_request_witness:
  "OnFrame ZnpCommandType_SRSP (ZnpSubsystem_RPC_Error, 0)
      [2, command_byte ZnpCommandType_SREQ (SysCmd SysCommand_PING), RawCommand (SysCmd SysCommand_PING)] pinged
    = call_promise 0 (Inl (Runtime_error (''RPC Error: '' @ show_dec (unat (2 :: byte)))))
        (pinged\<lparr> handlers := filter (\<lambda>h. \<not> expired pinged h) (handlers started) @ [] \<rparr>)"
  by (rule rpc_error_fails_request [where possible_responses = "[SysCmd SysCommand_PING]" and
        command = "SysCmd SysCommand_PING"])
    (simp_all add: pinged_eq started_unclaimed ping_nibbles ping_not_error)

theorem request_answered_witness:
  "\<exists>f. snd (RawSReq_any (SysCmd SysCommand_PING) [SysCmd SysCommand_PING] [] started) = Inr f
    \<and> future_value pinged f = None
    \<and> future_value (OnFrame ZnpCommandType_SRSP (SysCmd SysCommand_PING) [0x79, 0x01] pinged) f = Some (Inr [0x79, 0x01])"
  by (rule request_answered [OF started_run _ prod.collapse [symmetric]]) (simp_all add: started_unclaimed)

abbreviation pinged_after_failure :: "api \<times> (error + byte list future)" where
  "pinged_after_failure \<equiv> RawSReq (SysCmd SysCommand_PING) []
     (fst (RawSReq (SysCmd SysCommand_PING) (replicate 256 0) started))"

theorem abandoned_handler_takes_response_witness:
  "settled (OnFrame ZnpCommandType_SRSP (SysCmd SysCommand_PING) [0x79, 0x01] (fst pinged_after_failure))
     = settled (fst pinged_after_failure) @ [(0, Inr [0x79, 0x01])] \<and>
   snd pinged_after_failure = Inr (Future 1 Inr) \<and>
   future_value (OnFrame ZnpCommandType_SRSP (SysCmd SysCommand_PING) [0x79, 0x01] (fst pinged_after_failure))
     (Future 1 (Inr :: byte list \<Rightarrow> error + byte list)) = None"
proof -
  have "next_promise (fst (RawSReq (SysCmd SysCommand_PING) (replicate 256 0) started)) = 1" "next_promise started = 0"
    by (simp_all add: RawSReq_def RawSReq_any_oversized ctor_simps)
  with abandoned_handler_takes_response [OF started_run _ prod.collapse [symmetric] _ prod.collapse [symmetric] _ refl,
    where payload = "replicate 256 0" and command = "SysCmd SysCommand_PING" and payload' = "[]" and data = "[0x79, 0x01]"]
  show ?thesis by (simp add: started_unclaimed)
qed

abbreviation bind_sent :: "api \<times> (error + byte list future)" where
  "bind_sent \<equiv> WaitAfter (call_then (RawSReq (ZdoCmd ZdoCommand_BIND_REQ) [0x34, 0x12]) CheckOnlyStatus)
     ZnpCommandType_AREQ (ZdoCmd ZdoCommand_BIND_RSP) 15 [0x34, 0x12] started"

abbreviation bind_accepted :: api where
  "bind_accepted \<equiv> OnFrame ZnpCommandType_SRSP (ZdoCmd ZdoCommand_BIND_REQ) [ZnpStatus_Success] (fst bind_sent)"

lemma bind_accepted_run: "api_run bind_accepted"
  by (rule api_frame [OF api_request_wait [OF started_run prod.collapse [symmetric]]])

lemma bind_accepted_timer: "(0, True, 1) \<in> set (timers bind_accepted)"
  by (simp add: OnFrame_def OnFrame_loop.simps WaitAfter_def call_then_def RawSReq_def RawSReq_any_def
    raw_SendFrame_def SendFrame_def TrySend_def port_ctor_def StartReceive_def ctor_simps Let_def future_then_def
    command_defs call_promise_def log_result_def continue_with_def CheckOnlyStatus_def CheckStatus_def
    WaitFor_def AddHandlerWithTimeout_def)

lemma bind_accepted_waits:
  "With_timeout 0 (Wait ZnpCommandType_AREQ (ZdoCmd ZdoCommand_BIND_RSP) [0x34, 0x12] 1) \<in> set (handlers bind_accepted)
   \<and> timer_active 0 bind_accepted"
  by (simp add: OnFrame_def OnFrame_loop.simps WaitAfter_def call_then_def RawSReq_def RawSReq_any_def
    raw_SendFrame_def SendFrame_def TrySend_def port_ctor_def StartReceive_def ctor_simps Let_def future_then_def
    command_defs call_promise_def log_result_def continue_with_def CheckOnlyStatus_def CheckStatus_def
    WaitFor_def AddHandlerWithTimeout_def timer_active_def)

theorem promises_called_at_most_once_witness:
  "distinct (called bind_accepted @ concat (map handler_owes (handlers bind_accepted)) @ timers_owe bind_accepted
     @ continuations_owe bind_accepted @ reset_slots bind_accepted @ map fst (state_slots bind_accepted))
   \<and> 1 \<in> set (timers_owe bind_accepted) \<and> 1 \<notin> set (called bind_accepted)"
proof -
  from promises_called_at_most_once [OF bind_accepted_run] bind_accepted_waits show ?thesis
    by (metis handler_promise.simps(2))
qed

theorem timeout_fails_waiter_witness:
  "(1, Inl (Runtime_error ''Timeout'')) \<in> set (settled (TimerExpired 0 bind_accepted))"
  using timeout_fails_waiter [OF bind_accepted_run bind_accepted_timer] by blast

theorem request_then_wait_completes_witness:
  "\<exists>f. snd bind_sent = Inr f \<and> future_value (fst bind_sent) f = None \<and> future_value bind_accepted f = None
    \<and> future_value (OnFrame ZnpCommandType_AREQ (ZdoCmd ZdoCommand_BIND_RSP) ([0x34, 0x12] @ [0]) bind_accepted) f
      = Some (Inr [0])"
  by (rule request_then_wait_completes [OF started_run _ prod.collapse [symmetric] _ refl _ refl])
    (simp_all add: started_unclaimed started_unclaimed_bind)

theorem incoming_message_emitted_witness:
  "OnFrame ZnpCommandType_AREQ (AfCmd AfCommand_INCOMING_MSG)
     (IncomingMsg_img \<lparr> msg_GroupId = 0, msg_ClusterId = 6, msg_SrcAddr = 0x1234, msg_SrcEndpoint = 1,
        msg_DstEndpoint = 1, msg_WasBroadcast = 0, msg_LinkQuality = 80, msg_SecurityUse = 0,
        msg_TimeStamp = 0, msg_TransSeqNumber = 3, msg_Data = [0x18, 0x01, 0x0A] \<rparr> @ [1, 2, 3]) started
    = started\<lparr> emitted := [Incoming_msg \<lparr> msg_GroupId = 0, msg_ClusterId = 6, msg_SrcAddr = 0x1234,
        msg_SrcEndpoint = 1, msg_DstEndpoint = 1, msg_WasBroadcast = 0, msg_LinkQuality = 80, msg_SecurityUse = 0,
        msg_TimeStamp = 0, msg_TransSeqNumber = 3, msg_Data = [0x18, 0x01, 0x0A] \<rparr>] \<rparr>"
  by (subst incoming_message_emitted [where later = "[]" and interface = port_ctor]) (simp_all add: ctor_simps)

theorem data_request_too_long_witness:
  "AfDataRequest 0x1234 1 1 6 7 0 15 (replicate 250 0) started =
    (started\<lparr> next_promise := Suc (next_promise started),
        handlers := handlers started @ [SReq [AfCmd AfCommand_DATA_REQUEST] (next_promise started)] \<rparr>,
     Inl (Runtime_error ''ZNP Command Payload size should not exceed 255 bytes''))"
  by (rule data_request_too_long) simp_all

end
