(* ===== verification/StringEnum.thy ===== *)
theory StringEnum
  imports Text
begin

text \<open>
  Printing and parsing of enumerators, \<^verbatim>\<open>src/string_enum.h\<close>. A specialisation of
  \<open>StringEnumHelper\<close> is the list of pairs its \<open>lookup()\<close> returns, in the order of the keys.
  A value without a name is printed in hexadecimal with all digits of its type, and any
  hexadecimal number that fits the type is parsed.

  The locale \<open>named_enum\<close> says what a table has to satisfy for parsing to undo printing.
\<close>

type_synonym 'a enum_table = "('a word \<times> string) list"

definition enum_to_string_opt :: "'a::len enum_table \<Rightarrow> 'a word \<Rightarrow> string option" where
  "enum_to_string_opt lookup_table v = map_of lookup_table v"

definition enum_to_string :: "'a::len enum_table \<Rightarrow> 'a word \<Rightarrow> string" where
  "enum_to_string lookup_table v = (case enum_to_string_opt lookup_table v of
       Some known \<Rightarrow> known
     | None \<Rightarrow> show_HEX_padded (LENGTH('a) div 4) (unat v))"

text \<open>The inverse table: a later entry overwrites an earlier one with the same name.\<close>

definition names_table :: "'a::len enum_table \<Rightarrow> (string \<times> 'a word) list" where
  "names_table lookup_table = rev (map (\<lambda>(v, name). (name, v)) lookup_table)"

definition string_to_enum :: "'a::len enum_table \<Rightarrow> string \<Rightarrow> 'a word option" where
  "string_to_enum lookup_table s = (case map_of (names_table lookup_table) s of
       Some v \<Rightarrow> Some v
     | None \<Rightarrow> (case stoul s 16 of
         Inl e \<Rightarrow> None
       | Inr (x, end_pos) \<Rightarrow>
           if end_pos \<noteq> length s then None
           else if x > 2 ^ LENGTH('a) - 1 then None
           else Some (word_of_nat x)))"

lemma names_table_None: "map_of (names_table lookup_table) s = None \<longleftrightarrow> s \<notin> snd ` set lookup_table"
  by (simp add: map_of_eq_None_iff names_table_def image_image case_prod_beta)

locale named_enum =
  fixes lookup_table :: "'a::len enum_table"
  assumes distinct_names: "distinct (map snd lookup_table)"
    and names_not_numbers: "name \<in> snd ` set lookup_table \<Longrightarrow> length name \<noteq> LENGTH('a) div 4"
    and whole_digits: "4 dvd LENGTH('a)" "LENGTH('a) \<le> 64"
begin

lemma parse_name: "map_of lookup_table v = Some name \<Longrightarrow> string_to_enum lookup_table name = Some v"
proof -
  assume "map_of lookup_table v = Some name"
  then have "(name, v) \<in> set (names_table lookup_table)"
    by (force simp: names_table_def dest: map_of_SomeD)
  moreover have "map fst (names_table lookup_table) = rev (map snd lookup_table)"
    by (simp add: names_table_def rev_map case_prod_beta comp_def)
  then have "distinct (map fst (names_table lookup_table))" using distinct_names by simp
  ultimately show ?thesis by (simp add: string_to_enum_def)
qed

lemma length_number: "length (show_HEX_padded (LENGTH('a) div 4) (unat (v :: 'a word))) = LENGTH('a) div 4"
proof -
  obtain k where k: "LENGTH('a) div 4 = Suc k"
    using whole_digits(1) by (cases "LENGTH('a) div 4") auto
  then have "LENGTH('a) = 4 * Suc k" using whole_digits(1) by auto
  moreover have "unat v < 2 ^ LENGTH('a)" by (rule unsigned_less)
  ultimately have "unat v < 16 ^ Suc k" by (simp only: power_mult) simp
  then show ?thesis by (simp only: k length_show_HEX_padded)
qed

lemma parse_number:
  "string_to_enum lookup_table (show_HEX_padded (LENGTH('a) div 4) (unat (v :: 'a word))) = Some v"
proof -
  let ?s = "show_HEX_padded (LENGTH('a) div 4) (unat v)"
  have "?s \<notin> snd ` set lookup_table" using length_number [of v] names_not_numbers by blast
  then have "map_of (names_table lookup_table) ?s = None" by (simp add: names_table_None)
  moreover have v: "unat v < 2 ^ LENGTH('a)" by (rule unsigned_less)
  moreover have "(2::nat) ^ LENGTH('a) \<le> 2 ^ 64" using whole_digits(2) by (rule power_increasing) simp
  then have "unat v \<le> ULONG_MAX" using v unfolding ULONG_MAX_def by linarith
  moreover have "\<not> 2 ^ LENGTH('a) - 1 < unat v" using v by linarith
  ultimately show ?thesis
    by (simp add: string_to_enum_def stoul_show_HEX_padded)
qed

lemma parse_printed: "string_to_enum lookup_table (enum_to_string lookup_table v) = Some v"
  by (cases "map_of lookup_table v") (simp_all add: enum_to_string_def enum_to_string_opt_def parse_name parse_number)

lemma printed_injective: "enum_to_string lookup_table v = enum_to_string lookup_table w \<longleftrightarrow> v = w"
  by (metis option.inject parse_printed)

end

end
