(* ===== verification/ZclTypes.thy ===== *)
theory ZclTypes
  imports Codec StringEnum
begin

text \<open>
  The enumerations of \<^verbatim>\<open>src/zcl/zcl.h\<close> with their name tables
  (\<^verbatim>\<open>src/zcl/zcl_string_enum.h\<close>), the ZCL frame and its codec
  (\<^verbatim>\<open>src/zcl/encoding.h\<close>).
\<close>

section \<open>Enumerations\<close>

type_synonym ZclFrameType = "8 word"

abbreviation (input) ZclFrameType_Global :: ZclFrameType where "ZclFrameType_Global \<equiv> 0"
abbreviation (input) ZclFrameType_Local :: ZclFrameType where "ZclFrameType_Local \<equiv> 1"
abbreviation (input) ZclFrameType_Reserved1 :: ZclFrameType where "ZclFrameType_Reserved1 \<equiv> 2"
abbreviation (input) ZclFrameType_Reserved2 :: ZclFrameType where "ZclFrameType_Reserved2 \<equiv> 3"

type_synonym ZclDirection = "8 word"

abbreviation (input) ZclDirection_ClientToServer :: ZclDirection where "ZclDirection_ClientToServer \<equiv> 0"
abbreviation (input) ZclDirection_ServerToClient :: ZclDirection where "ZclDirection_ServerToClient \<equiv> 1"

type_synonym ZclClusterId = "16 word"


type_synonym ZclAttributeId = "16 word"


type_synonym ZclCommandId = "8 word"


type_synonym ZclGlobalCommandId = "8 word"

abbreviation (input) ZclGlobalCommandId_ReadAttributes :: ZclGlobalCommandId where "ZclGlobalCommandId_ReadAttributes \<equiv> 0x00"
abbreviation (input) ZclGlobalCommandId_ReadAttributesResponse :: ZclGlobalCommandId where "ZclGlobalCommandId_ReadAttributesResponse \<equiv> 0x01"
abbreviation (input) ZclGlobalCommandId_WriteAttributes :: ZclGlobalCommandId where "ZclGlobalCommandId_WriteAttributes \<equiv> 0x02"
abbreviation (input) ZclGlobalCommandId_WriteAttributesUndivided :: ZclGlobalCommandId where "ZclGlobalCommandId_WriteAttributesUndivided \<equiv> 0x03"
abbreviation (input) ZclGlobalCommandId_WriteAttributesResponse :: ZclGlobalCommandId where "ZclGlobalCommandId_WriteAttributesResponse \<equiv> 0x04"
abbreviation (input) ZclGlobalCommandId_WriteAttributesNoResponse :: ZclGlobalCommandId where "ZclGlobalCommandId_WriteAttributesNoResponse \<equiv> 0x05"
abbreviation (input) ZclGlobalCommandId_ConfigureReporting :: ZclGlobalCommandId where "ZclGlobalCommandId_ConfigureReporting \<equiv> 0x06"
abbreviation (input) ZclGlobalCommandId_ConfigureReportingResponse :: ZclGlobalCommandId where "ZclGlobalCommandId_ConfigureReportingResponse \<equiv> 0x07"
abbreviation (input) ZclGlobalCommandId_ReadReportingConfiguration :: ZclGlobalCommandId where "ZclGlobalCommandId_ReadReportingConfiguration \<equiv> 0x08"
abbreviation (input) ZclGlobalCommandId_ReadReportingConfigurationResponse :: ZclGlobalCommandId where "ZclGlobalCommandId_ReadReportingConfigurationResponse \<equiv> 0x09"
abbreviation (input) ZclGlobalCommandId_ReportAttributes :: ZclGlobalCommandId where "ZclGlobalCommandId_ReportAttributes \<equiv> 0x0a"
abbreviation (input) ZclGlobalCommandId_DefaultResponse :: ZclGlobalCommandId where "ZclGlobalCommandId_DefaultResponse \<equiv> 0x0b"
abbreviation (input) ZclGlobalCommandId_DiscoverAttributes :: ZclGlobalCommandId where "ZclGlobalCommandId_DiscoverAttributes \<equiv> 0x0c"
abbreviation (input) ZclGlobalCommandId_DiscoverAttributesResponse :: ZclGlobalCommandId where "ZclGlobalCommandId_DiscoverAttributesResponse \<equiv> 0x0d"

type_synonym ZclGeneralCommand = "8 word"

abbreviation (input) ZclGeneralCommand_ReadAttributes :: ZclGeneralCommand where "ZclGeneralCommand_ReadAttributes \<equiv> 0x00"
abbreviation (input) ZclGeneralCommand_ReadAttributesResponse :: ZclGeneralCommand where "ZclGeneralCommand_ReadAttributesResponse \<equiv> 0x01"
abbreviation (input) ZclGeneralCommand_WriteAttributes :: ZclGeneralCommand where "ZclGeneralCommand_WriteAttributes \<equiv> 0x02"
abbreviation (input) ZclGeneralCommand_WriteAttributesUndivided :: ZclGeneralCommand where "ZclGeneralCommand_WriteAttributesUndivided \<equiv> 0x03"
abbreviation (input) ZclGeneralCommand_WriteAttributesResponse :: ZclGeneralCommand where "ZclGeneralCommand_WriteAttributesResponse \<equiv> 0x04"
abbreviation (input) ZclGeneralCommand_WriteAttributesNoResponse :: ZclGeneralCommand where "ZclGeneralCommand_WriteAttributesNoResponse \<equiv> 0x05"
abbreviation (input) ZclGeneralCommand_ConfigureReporting :: ZclGeneralCommand where "ZclGeneralCommand_ConfigureReporting \<equiv> 0x06"
abbreviation (input) ZclGeneralCommand_ConfigureReportingResponse :: ZclGeneralCommand where "ZclGeneralCommand_ConfigureReportingResponse \<equiv> 0x07"
abbreviation (input) ZclGeneralCommand_ReadReportingConfiguration :: ZclGeneralCommand where "ZclGeneralCommand_ReadReportingConfiguration \<equiv> 0x08"
abbreviation (input) ZclGeneralCommand_ReadReportingConfigurationResponse :: ZclGeneralCommand where "ZclGeneralCommand_ReadReportingConfigurationResponse \<equiv> 0x09"
abbreviation (input) ZclGeneralCommand_ReportAttributes :: ZclGeneralCommand where "ZclGeneralCommand_ReportAttributes \<equiv> 0x0a"
abbreviation (input) ZclGeneralCommand_DefaultResponse :: ZclGeneralCommand where "ZclGeneralCommand_DefaultResponse \<equiv> 0x0b"
abbreviation (input) ZclGeneralCommand_DiscoverAttributes :: ZclGeneralCommand where "ZclGeneralCommand_DiscoverAttributes \<equiv> 0x0c"
abbreviation (input) ZclGeneralCommand_DiscoverAttributesResponse :: ZclGeneralCommand where "ZclGeneralCommand_DiscoverAttributesResponse \<equiv> 0x0d"
abbreviation (input) ZclGeneralCommand_ReadAttributesStructured :: ZclGeneralCommand where "ZclGeneralCommand_ReadAttributesStructured \<equiv> 0x0e"
abbreviation (input) ZclGeneralCommand_WriteAttributesStructured :: ZclGeneralCommand where "ZclGeneralCommand_WriteAttributesStructured \<equiv> 0x0f"
abbreviation (input) ZclGeneralCommand_WriteAttributesStructuredResponse :: ZclGeneralCommand where "ZclGeneralCommand_WriteAttributesStructuredResponse \<equiv> 0x10"
abbreviation (input) ZclGeneralCommand_DiscoverCommandsReceived :: ZclGeneralCommand where "ZclGeneralCommand_DiscoverCommandsReceived \<equiv> 0x11"
abbreviation (input) ZclGeneralCommand_DiscoverCommandsReceivedResponse :: ZclGeneralCommand where "ZclGeneralCommand_DiscoverCommandsReceivedResponse \<equiv> 0x12"
abbreviation (input) ZclGeneralCommand_DiscoverCommandsGenerated :: ZclGeneralCommand where "ZclGeneralCommand_DiscoverCommandsGenerated \<equiv> 0x13"
abbreviation (input) ZclGeneralCommand_DiscoverCommandsGeneratedResponse :: ZclGeneralCommand where "ZclGeneralCommand_DiscoverCommandsGeneratedResponse \<equiv> 0x14"
abbreviation (input) ZclGeneralCommand_DiscoverAttributesExtended :: ZclGeneralCommand where "ZclGeneralCommand_DiscoverAttributesExtended \<equiv> 0x15"
abbreviation (input) ZclGeneralCommand_DiscoverAttributesExtendedResponse :: ZclGeneralCommand where "ZclGeneralCommand_DiscoverAttributesExtendedResponse \<equiv> 0x16"

type_synonym DataType = "8 word"

abbreviation (input) DataType_nodata :: DataType where "DataType_nodata \<equiv> 0x00"
abbreviation (input) DataType_data8 :: DataType where "DataType_data8 \<equiv> 0x08"
abbreviation (input) DataType_data16 :: DataType where "DataType_data16 \<equiv> 0x09"
abbreviation (input) DataType_data24 :: DataType where "DataType_data24 \<equiv> 0x0a"
abbreviation (input) DataType_data32 :: DataType where "DataType_data32 \<equiv> 0x0b"
abbreviation (input) DataType_data40 :: DataType where "DataType_data40 \<equiv> 0x0c"
abbreviation (input) DataType_data48 :: DataType where "DataType_data48 \<equiv> 0x0d"
abbreviation (input) DataType_data56 :: DataType where "DataType_data56 \<equiv> 0x0e"
abbreviation (input) DataType_data64 :: DataType where "DataType_data64 \<equiv> 0x0f"
abbreviation (input) DataType_bool :: DataType where "DataType_bool \<equiv> 0x10"
abbreviation (input) DataType_map8 :: DataType where "DataType_map8 \<equiv> 0x18"
abbreviation (input) DataType_map16 :: DataType where "DataType_map16 \<equiv> 0x19"
abbreviation (input) DataType_map24 :: DataType where "DataType_map24 \<equiv> 0x1a"
abbreviation (input) DataType_map32 :: DataType where "DataType_map32 \<equiv> 0x1b"
abbreviation (input) DataType_map40 :: DataType where "DataType_map40 \<equiv> 0x1c"
abbreviation (input) DataType_map48 :: DataType where "DataType_map48 \<equiv> 0x1d"
abbreviation (input) DataType_map56 :: DataType where "DataType_map56 \<equiv> 0x1e"
abbreviation (input) DataType_map64 :: DataType where "DataType_map64 \<equiv> 0x1f"
abbreviation (input) DataType_uint8 :: DataType where "DataType_uint8 \<equiv> 0x20"
abbreviation (input) DataType_uint16 :: DataType where "DataType_uint16 \<equiv> 0x21"
abbreviation (input) DataType_uint24 :: DataType where "DataType_uint24 \<equiv> 0x22"
abbreviation (input) DataType_uint32 :: DataType where "DataType_uint32 \<equiv> 0x23"
abbreviation (input) DataType_uint40 :: DataType where "DataType_uint40 \<equiv> 0x24"
abbreviation (input) DataType_uint48 :: DataType where "DataType_uint48 \<equiv> 0x25"
abbreviation (input) DataType_uint56 :: DataType where "DataType_uint56 \<equiv> 0x26"
abbreviation (input) DataType_uint64 :: DataType where "DataType_uint64 \<equiv> 0x27"
abbreviation (input) DataType_int8 :: DataType where "DataType_int8 \<equiv> 0x28"
abbreviation (input) DataType_int16 :: DataType where "DataType_int16 \<equiv> 0x29"
abbreviation (input) DataType_int24 :: DataType where "DataType_int24 \<equiv> 0x2a"
abbreviation (input) DataType_int32 :: DataType where "DataType_int32 \<equiv> 0x2b"
abbreviation (input) DataType_int40 :: DataType where "DataType_int40 \<equiv> 0x2c"
abbreviation (input) DataType_int48 :: DataType where "DataType_int48 \<equiv> 0x2d"
abbreviation (input) DataType_int56 :: DataType where "DataType_int56 \<equiv> 0x2e"
abbreviation (input) DataType_int64 :: DataType where "DataType_int64 \<equiv> 0x2f"
abbreviation (input) DataType_enum8 :: DataType where "DataType_enum8 \<equiv> 0x30"
abbreviation (input) DataType_enum16 :: DataType where "DataType_enum16 \<equiv> 0x31"
abbreviation (input) DataType_semi :: DataType where "DataType_semi \<equiv> 0x38"
abbreviation (input) DataType_single :: DataType where "DataType_single \<equiv> 0x39"
abbreviation (input) DataType_double :: DataType where "DataType_double \<equiv> 0x3a"
abbreviation (input) DataType_octstr :: DataType where "DataType_octstr \<equiv> 0x41"
abbreviation (input) DataType_string :: DataType where "DataType_string \<equiv> 0x42"
abbreviation (input) DataType_octstr16 :: DataType where "DataType_octstr16 \<equiv> 0x43"
abbreviation (input) DataType_string16 :: DataType where "DataType_string16 \<equiv> 0x44"
abbreviation (input) DataType_array :: DataType where "DataType_array \<equiv> 0x48"
abbreviation (input) DataType_struct :: DataType where "DataType_struct \<equiv> 0x4c"
abbreviation (input) DataType_set :: DataType where "DataType_set \<equiv> 0x50"
abbreviation (input) DataType_bag :: DataType where "DataType_bag \<equiv> 0x51"
abbreviation (input) DataType_ToD :: DataType where "DataType_ToD \<equiv> 0xe0"
abbreviation (input) DataType_date :: DataType where "DataType_date \<equiv> 0xe1"
abbreviation (input) DataType_UTC :: DataType where "DataType_UTC \<equiv> 0xe2"
abbreviation (input) DataType_clusterId :: DataType where "DataType_clusterId \<equiv> 0xe8"
abbreviation (input) DataType_attribId :: DataType where "DataType_attribId \<equiv> 0xe9"
abbreviation (input) DataType_bacOID :: DataType where "DataType_bacOID \<equiv> 0xea"
abbreviation (input) DataType_EUI64 :: DataType where "DataType_EUI64 \<equiv> 0xf0"
abbreviation (input) DataType_key128 :: DataType where "DataType_key128 \<equiv> 0xf1"
abbreviation (input) DataType_unk :: DataType where "DataType_unk \<equiv> 0xff"

definition ZclFrameType_table :: "8 enum_table" where
  "ZclFrameType_table = [(ZclFrameType_Global, ''Global''), (ZclFrameType_Local, ''Local''),
     (ZclFrameType_Reserved1, ''Reserved1''), (ZclFrameType_Reserved2, ''Reserved2'')]"

definition ZclDirection_table :: "8 enum_table" where
  "ZclDirection_table = [(ZclDirection_ClientToServer, ''ClientToServer''),
     (ZclDirection_ServerToClient, ''ServerToClient'')]"

definition DataType_table :: "8 enum_table" where
  "DataType_table = [(DataType_nodata, ''nodata''), (DataType_data8, ''data8''),
     (DataType_data16, ''data16''), (DataType_data24, ''data24''), (DataType_data32, ''data32''),
     (DataType_data40, ''data40''), (DataType_data56, ''data56''), (DataType_data64, ''data64''),
     (DataType_bool, ''bool''), (DataType_map8, ''map8''), (DataType_map16, ''map16''),
     (DataType_map24, ''map24''), (DataType_map32, ''map32''), (DataType_map40, ''map40''),
     (DataType_map48, ''map48''), (DataType_map56, ''map56''), (DataType_map64, ''map64''),
     (DataType_uint8, ''uint8''), (DataType_uint16, ''uint16''), (DataType_uint24, ''uint24''),
     (DataType_uint32, ''uint32''), (DataType_uint40, ''uint40''), (DataType_uint48, ''uint48''),
     (DataType_uint56, ''uint56''), (DataType_uint64, ''uint64''), (DataType_int8, ''int8''),
     (DataType_int16, ''int16''), (DataType_int24, ''int24''), (DataType_int32, ''int32''),
     (DataType_int40, ''int40''), (DataType_int48, ''int48''), (DataType_int56, ''int56''),
     (DataType_int64, ''int64''), (DataType_enum8, ''enum8''), (DataType_enum16, ''enum16''),
     (DataType_semi, ''semi''), (DataType_single, ''single''), (DataType_double, ''double''),
     (DataType_octstr, ''octstr''), (DataType_string, ''string''),
     (DataType_octstr16, ''octstr16''), (DataType_string16, ''string16''),
     (DataType_array, ''array''), (DataType_struct, ''struct''), (DataType_set, ''set''),
     (DataType_bag, ''bag''), (DataType_ToD, ''ToD''), (DataType_date, ''date''),
     (DataType_UTC, ''UTC''), (DataType_clusterId, ''clusterId''),
     (DataType_attribId, ''attribId''), (DataType_bacOID, ''bacOID''), (DataType_EUI64, ''EUI64''),
     (DataType_key128, ''key128''), (DataType_unk, ''unk'')]"

interpretation frame_type: named_enum ZclFrameType_table
  by unfold_locales (auto simp: ZclFrameType_table_def)

interpretation direction: named_enum ZclDirection_table
  by unfold_locales (auto simp: ZclDirection_table_def)

lemma DataType_names: "distinct (map snd DataType_table)"
  "list_all (\<lambda>(v, name). length name \<noteq> 2) DataType_table"
  by code_simp+

interpretation data_type: named_enum DataType_table
proof unfold_locales
  show "name \<in> snd ` set DataType_table \<Longrightarrow> length name \<noteq> LENGTH(8) div 4" for name
    using DataType_names(2) by (auto simp: list_all_iff)
qed (simp_all add: DataType_names)

text \<open>
  Parsing undoes printing for every value of \<open>DataType\<close>, named or not.
\<close>

theorem data_type_print_parse:
  "string_to_enum DataType_table (enum_to_string DataType_table v) = Some v"
  by (rule data_type.parse_printed)

text \<open>
  The name table lacks \<open>data48\<close>: the type is printed as a number and its name is not
  parsed, unlike that of its neighbours.
\<close>

theorem data48_has_no_name:
  "enum_to_string DataType_table DataType_data48 = ''0D'' \<and> string_to_enum DataType_table ''data48'' = None
   \<and> string_to_enum DataType_table ''data40'' = Some DataType_data40
   \<and> string_to_enum DataType_table ''data56'' = Some DataType_data56"
proof -
  have "list_all (\<lambda>(v, name). name \<noteq> ''data48'') DataType_table" by code_simp
  then have "''data48'' \<notin> snd ` set DataType_table" by (auto simp: list_all_iff)
  then have "map_of (names_table DataType_table) ''data48'' = None"
    by (simp add: names_table_None)
  moreover have "stoul ''data48'' 16 = Inr (0xDA, 2)"
    by (simp add: stoul_def Let_def is_space_def is_digit_in_def digit_value_def strtoul_base_def
      digits_value_def ULONG_MAX_def)
  ultimately have "string_to_enum DataType_table ''data48'' = None" by (simp add: string_to_enum_def)
  moreover have "enum_to_string DataType_table DataType_data48 = ''0D''" by code_simp
  moreover have "string_to_enum DataType_table ''data40'' = Some DataType_data40"
    "string_to_enum DataType_table ''data56'' = Some DataType_data56"
    by (rule data_type.parse_name, simp add: DataType_table_def)+
  ultimately show ?thesis by blast
qed

section \<open>Frames\<close>

record ZclFrame =
  frame_type :: ZclFrameType
  manufacturer_code :: "16 word option"
  frame_direction :: ZclDirection
  disable_default_response :: bool
  frame_reserved :: "8 word"
  transaction_sequence_number :: "8 word"
  command_identifier :: ZclCommandId
  frame_payload :: "byte list"

definition ZclFrame_GetSize :: "ZclFrame \<Rightarrow> error + nat" where
  "ZclFrame_GetSize v = (if manufacturer_code v \<noteq> None then Inr (5 + length (frame_payload v))
     else Inr (3 + length (frame_payload v)))"

text \<open>The first byte; \<open>|=\<close> on a \<open>uint8_t\<close> keeps the low eight bits.\<close>

definition frame_control :: "ZclFrame \<Rightarrow> byte" where
  "frame_control v = frame_type v
     OR push_bit 2 (if manufacturer_code v \<noteq> None then 1 else 0)
     OR push_bit 3 (frame_direction v)
     OR push_bit 4 (if disable_default_response v then 1 else 0)
     OR push_bit 5 (frame_reserved v)"

definition ZclFrame_enc :: "ZclFrame \<Rightarrow> nat \<Rightarrow> error + (byte list \<times> nat)" where
  "ZclFrame_enc v sp = res_bind (enc unsigned_codec (frame_control v) sp) (\<lambda>(bs, sp).
     res_bind (case manufacturer_code v of None \<Rightarrow> Inr ([], sp) | Some c \<Rightarrow> enc unsigned_codec c sp) (\<lambda>(cs, sp).
     res_bind (enc unsigned_codec (transaction_sequence_number v) sp) (\<lambda>(ds, sp).
     res_bind (enc enum_codec (command_identifier v) sp) (\<lambda>(es, sp).
       if sp \<noteq> length (frame_payload v) then Inl (Runtime_error ''Encoding buffer was of wrong size'')
       else Inr (bs @ cs @ ds @ es @ frame_payload v, 0)))))"

definition ZclFrame_dec :: "byte list \<Rightarrow> error + (ZclFrame \<times> byte list)" where
  "ZclFrame_dec bs = res_bind (dec unsigned_codec bs) (\<lambda>(control :: byte, bs).
     res_bind (if drop_bit 2 control AND 1 \<noteq> 0
               then res_bind (dec unsigned_codec bs) (\<lambda>(c, bs). Inr (Some c, bs)) else Inr (None, bs)) (\<lambda>(code, bs).
     res_bind (dec unsigned_codec bs) (\<lambda>(seq, bs).
     res_bind (dec enum_codec bs) (\<lambda>(command, bs).
       Inr (\<lparr> frame_type = drop_bit 0 control AND 3, manufacturer_code = code,
              frame_direction = drop_bit 3 control AND 1,
              disable_default_response = drop_bit 4 control AND 1 \<noteq> 0,
              frame_reserved = drop_bit 5 control, transaction_sequence_number = seq,
              command_identifier = command, frame_payload = bs \<rparr>, [])))))"

definition ZclFrame_codec :: "ZclFrame codec" where
  "ZclFrame_codec = \<lparr> GetSize = ZclFrame_GetSize, enc = ZclFrame_enc, dec = ZclFrame_dec \<rparr>"

text \<open>The frames whose fields fit the bits of the first byte, and the bytes of a frame.\<close>

definition fields_fit :: "ZclFrame \<Rightarrow> bool" where
  "fields_fit v \<longleftrightarrow> frame_type v < 4 \<and> frame_direction v < 2 \<and> frame_reserved v < 8"

definition ZclFrame_img :: "ZclFrame \<Rightarrow> byte list" where
  "ZclFrame_img v = frame_control v #
     (case manufacturer_code v of None \<Rightarrow> [] | Some c \<Rightarrow> le_bytes 2 c) @
     [transaction_sequence_number v, command_identifier v] @ frame_payload v"

lemma byte_bits: "(\<And>k. k \<in> {0, 1, 2, 3, 4, 5, 6, 7} \<Longrightarrow> bit a k = bit b k) \<Longrightarrow> a = (b :: byte)"
proof (rule bit_eqI)
  fix n assume k: "\<And>k. k \<in> {0, 1, 2, 3, 4, 5, 6, 7} \<Longrightarrow> bit a k = bit b k" and "possible_bit TYPE(8 word) n"
  then have "n \<in> {0, 1, 2, 3, 4, 5, 6, 7}" by (auto simp: numeral_eq_Suc less_Suc_eq)
  with k show "bit a n = bit b n" .
qed

lemma small_byte_bits:
  assumes "unat w < 2 ^ n" "n \<le> k"
  shows "\<not> bit (w :: byte) k"
proof -
  have "unat (take_bit n w) = unat w"
    using assms(1) by (simp only: unsigned_take_bit_eq take_bit_nat_eq_self_iff)
  then have "take_bit n w = w" by (simp only: word_unat_eq_iff)
  with assms(2) show ?thesis by (metis bit_take_bit_iff leD)
qed

lemma fields_fit_bits:
  assumes "fields_fit v"
  shows "2 \<le> k \<Longrightarrow> \<not> bit (frame_type v) k" "1 \<le> k \<Longrightarrow> \<not> bit (frame_direction v) k" "3 \<le> k \<Longrightarrow> \<not> bit (frame_reserved v) k"
  using assms small_byte_bits [of "frame_type v" 2 k] small_byte_bits [of "frame_direction v" 1 k]
    small_byte_bits [of "frame_reserved v" 3 k]
  by (simp_all add: fields_fit_def word_less_nat_alt)

lemma AND_3: "w AND 3 = take_bit 2 (w :: byte)"
  by (simp add: take_bit_eq_mask mask_eq_exp_minus_1)

lemma drop_bit_AND_1: "drop_bit k w AND 1 = (of_bool (bit w k) :: byte)"
  by (rule bit_eqI) (auto simp: bit_simps)

lemma frame_control_bits:
  "bit (frame_control v) k \<longleftrightarrow> k < 8 \<and> (bit (frame_type v) k \<or> k = 2 \<and> manufacturer_code v \<noteq> None
     \<or> 3 \<le> k \<and> bit (frame_direction v) (k - 3) \<or> k = 4 \<and> disable_default_response v
     \<or> 5 \<le> k \<and> bit (frame_reserved v) (k - 5))"
  by (auto simp: frame_control_def bit_simps dest: bit_imp_le_length)

lemma frame_control_fields:
  assumes "fields_fit v"
  shows "take_bit 2 (frame_control v) = frame_type v"
    "bit (frame_control v) 2 \<longleftrightarrow> manufacturer_code v \<noteq> None"
    "of_bool (bit (frame_control v) 3) = frame_direction v"
    "bit (frame_control v) 4 \<longleftrightarrow> disable_default_response v"
    "drop_bit 5 (frame_control v) = frame_reserved v"
proof -
  note fit = fields_fit_bits [OF assms]
  show "take_bit 2 (frame_control v) = frame_type v"
    by (rule byte_bits, elim insertE emptyE; simp add: frame_control_bits bit_simps fit)
  show "bit (frame_control v) 2 \<longleftrightarrow> manufacturer_code v \<noteq> None"
    by (simp add: frame_control_bits fit)
  show "of_bool (bit (frame_control v) 3) = frame_direction v"
    by (rule byte_bits, elim insertE emptyE; simp add: frame_control_bits bit_simps fit)
  show "bit (frame_control v) 4 \<longleftrightarrow> disable_default_response v"
    by (simp add: frame_control_bits fit)
  show "drop_bit 5 (frame_control v) = frame_reserved v"
    by (rule byte_bits, elim insertE emptyE; simp add: frame_control_bits bit_simps fit)
qed

lemma frame_control_of_fields:
  "take_bit 2 c OR push_bit 2 (if bit c 2 then 1 else 0) OR push_bit 3 (of_bool (bit c 3))
     OR push_bit 4 (if bit c 4 then 1 else 0) OR push_bit 5 (drop_bit 5 c) = (c :: byte)"
  by (rule byte_bits, elim insertE emptyE; simp add: bit_simps)

lemma Encode_ZclFrame: "Encode ZclFrame_codec v = Inr (ZclFrame_img v)"
  by (cases "manufacturer_code v")
    (simp_all add: Encode_def ZclFrame_codec_def ZclFrame_GetSize_def ZclFrame_enc_def ZclFrame_img_def codec_simps)

lemma ZclFrame_dec_img: "fields_fit v \<Longrightarrow> ZclFrame_dec (ZclFrame_img v) = Inr (v, [])"
  by (cases "manufacturer_code v")
    (simp_all add: ZclFrame_dec_def ZclFrame_img_def codec_simps AND_3 drop_bit_AND_1 frame_control_fields
      of_le_bytes_le_bytes take_bit_word_eq_self)

lemma fields_fit_decoded:
  "take_bit 2 c < (4 :: byte)" "(of_bool b :: byte) < 2" "drop_bit 5 c < (8 :: byte)"
proof -
  show "take_bit 2 c < (4 :: byte)" by (simp add: word_less_nat_alt unat_mod take_bit_eq_mod)
  show "(of_bool b :: byte) < 2" by (cases b) simp_all
  have "unat c div 32 < 8" using unat_byte_less [of c] by (simp add: less_mult_imp_div_less)
  then show "drop_bit 5 c < (8 :: byte)"
    by (simp add: word_less_nat_alt unat_div drop_bit_eq_div)
qed

lemma ZclFrame_dec_canonical:
  assumes "ZclFrame_dec bs = Inr (v, rest)"
  shows "rest = [] \<and> fields_fit v \<and> bs = ZclFrame_img v"
proof -
  from assms obtain c r where c: "dec (unsigned_codec :: byte codec) bs = Inr (c, r)"
    by (cases "dec (unsigned_codec :: byte codec) bs") (auto simp: ZclFrame_dec_def)
  then have bs: "bs = c # r" by (auto dest!: uint8.canonical_law)
  have fields: "fields_fit v" if "frame_type v = take_bit 2 c" "frame_direction v = of_bool (bit c 3)"
    "frame_reserved v = drop_bit 5 c" using that fields_fit_decoded by (simp add: fields_fit_def)
  have control: "frame_control v = c" if "frame_type v = take_bit 2 c" "frame_direction v = of_bool (bit c 3)"
    "frame_reserved v = drop_bit 5 c" "disable_default_response v = bit c 4" "manufacturer_code v \<noteq> None \<longleftrightarrow> bit c 2"
    unfolding frame_control_def that by (rule frame_control_of_fields)
  show ?thesis
  proof (cases "bit c 2")
    case True
    with assms c obtain m r1 s r2 k r3 where
      d: "dec (unsigned_codec :: 16 word codec) r = Inr (m, r1)" "dec (unsigned_codec :: byte codec) r1 = Inr (s, r2)"
        "dec (enum_codec :: byte codec) r2 = Inr (k, r3)" and
      v: "v = \<lparr> frame_type = take_bit 2 c, manufacturer_code = Some m, frame_direction = of_bool (bit c 3),
        disable_default_response = bit c 4, frame_reserved = drop_bit 5 c, transaction_sequence_number = s,
        command_identifier = k, frame_payload = r3 \<rparr>" "rest = []"
      by (auto simp: ZclFrame_dec_def res_bind_eq_Inr drop_bit_AND_1 AND_3)
    from d have "r = le_bytes 2 m @ s # k # r3"
      by (auto simp: enum_codec_eq dest!: uint8.canonical_law uint16.canonical_law)
    with v bs fields control True show ?thesis by (simp add: ZclFrame_img_def)
  next
    case False
    with assms c obtain s r2 k r3 where
      d: "dec (unsigned_codec :: byte codec) r = Inr (s, r2)" "dec (enum_codec :: byte codec) r2 = Inr (k, r3)" and
      v: "v = \<lparr> frame_type = take_bit 2 c, manufacturer_code = None, frame_direction = of_bool (bit c 3),
        disable_default_response = bit c 4, frame_reserved = drop_bit 5 c, transaction_sequence_number = s,
        command_identifier = k, frame_payload = r3 \<rparr>" "rest = []"
      by (auto simp: ZclFrame_dec_def res_bind_eq_Inr drop_bit_AND_1 AND_3)
    from d have "r = s # k # r3"
      by (auto simp: enum_codec_eq dest!: uint8.canonical_law)
    with v bs fields control False show ?thesis by (simp add: ZclFrame_img_def)
  qed
qed

text \<open>
  C17: a byte sequence is decoded to a frame exactly when the frame's fields fit the bits of its
  first byte and the byte sequence is what the encoder makes of the frame.
\<close>

theorem zcl_frame_codec_inverse:
  "Decode ZclFrame_codec bs = Inr v \<longleftrightarrow> fields_fit v \<and> Encode ZclFrame_codec v = Inr bs"
proof
  assume "Decode ZclFrame_codec bs = Inr v"
  then have "ZclFrame_dec bs = Inr (v, [])"
    by (auto simp: Decode_def ZclFrame_codec_def res_bind_eq_Inr split: if_splits)
  then show "fields_fit v \<and> Encode ZclFrame_codec v = Inr bs"
    using ZclFrame_dec_canonical by (simp add: Encode_ZclFrame)
next
  assume "fields_fit v \<and> Encode ZclFrame_codec v = Inr bs"
  then have "fields_fit v" "bs = ZclFrame_img v" by (simp_all add: Encode_ZclFrame)
  then show "Decode ZclFrame_codec bs = Inr v"
    using ZclFrame_dec_img [of v] by (simp add: Decode_def ZclFrame_codec_def)
qed

end
