(* ===== verification/ZclEndpoint.thy ===== *)
theory ZclEndpoint
  imports ZclTypes ZnpRequests
begin

text \<open>
  An endpoint of the hub, \<^verbatim>\<open>src/zcl/zcl_endpoint.cpp\<close>: it drops repeated messages,
  decodes ZCL frames and numbers the frames it sends. \<open>std::map\<close> members are maps, and their
  \<open>operator[]\<close> inserts the default value for a new key. The signal \<open>on_command_\<close> is the list
  of commands a handler emits.
\<close>

record on_command =
  source_address :: ShortAddress
  source_endpoint :: "8 word"
  cluster_id :: ZclClusterId
  is_global_command :: bool
  command_direction :: ZclDirection
  command_id :: ZclCommandId
  command_payload :: "byte list"

record endpoint =
  endpoint_number :: "8 word"
  send_trans_seq_nums :: "ShortAddress \<Rightarrow> 8 word option"
  last_msg :: "ShortAddress \<Rightarrow> byte list option"

definition ZclEndpoint_ctor :: "8 word \<Rightarrow> endpoint" where
  "ZclEndpoint_ctor number =
     \<lparr> endpoint_number = number, send_trans_seq_nums = Map.empty, last_msg = Map.empty \<rparr>"

definition Create :: "8 word \<Rightarrow> 16 word \<Rightarrow> 16 word \<Rightarrow> 8 word \<Rightarrow> Latency \<Rightarrow> 16 word list \<Rightarrow> 16 word list
    \<Rightarrow> endpoint future call" where
  "Create number profile_id device_id version latency input_clusters output_clusters =
     call_then (AfRegister number profile_id device_id version latency input_clusters output_clusters)
       (\<lambda>u. Inr (ZclEndpoint_ctor number))"

definition index_default :: "('k \<Rightarrow> 'v option) \<Rightarrow> 'v \<Rightarrow> 'k \<Rightarrow> 'v" where
  "index_default m v k = (case m k of Some x \<Rightarrow> x | None \<Rightarrow> v)"

definition command_of :: "IncomingMsg \<Rightarrow> bool \<Rightarrow> ZclFrame \<Rightarrow> on_command" where
  "command_of message is_global frame =
     \<lparr> source_address = msg_SrcAddr message, source_endpoint = msg_SrcEndpoint message,
       cluster_id = msg_ClusterId message, is_global_command = is_global,
       command_direction = frame_direction frame, command_id = command_identifier frame,
       command_payload = frame_payload frame \<rparr>"

definition OnIncomingMsg :: "IncomingMsg \<Rightarrow> endpoint \<Rightarrow> endpoint \<times> (error + on_command list)" where
  "OnIncomingMsg message s =
     (if msg_DstEndpoint message \<noteq> endpoint_number s then (s, Inr [])
      else let known = index_default (last_msg s) [] (msg_SrcAddr message);
               s = s\<lparr> last_msg := (last_msg s)(msg_SrcAddr message \<mapsto> known) \<rparr>
        in if known = msg_Data message then (s, Inr [])
           else let s = s\<lparr> last_msg := (last_msg s)(msg_SrcAddr message \<mapsto> msg_Data message) \<rparr>
             in (s, res_bind (Decode ZclFrame_codec (msg_Data message)) (\<lambda>frame.
                  if frame_type frame = ZclFrameType_Global then Inr [command_of message True frame]
                  else if frame_type frame = ZclFrameType_Local then Inr [command_of message False frame]
                  else Inr [])))"

text \<open>The listener that \<open>AttachListeners\<close> connects swallows the exception.\<close>

definition Listener :: "IncomingMsg \<Rightarrow> endpoint \<Rightarrow> endpoint \<times> on_command list" where
  "Listener message s = (case OnIncomingMsg message s of
       (s', Inl e) \<Rightarrow> (s', [])
     | (s', Inr commands) \<Rightarrow> (s', commands))"

definition NextTransSeqNumFor :: "ShortAddress \<Rightarrow> endpoint \<Rightarrow> endpoint \<times> 8 word" where
  "NextTransSeqNumFor address s =
     (let n = index_default (send_trans_seq_nums s) 0 address
      in (s\<lparr> send_trans_seq_nums := (send_trans_seq_nums s)(address \<mapsto> n + 1) \<rparr>, n))"

definition command_frame :: "bool \<Rightarrow> ZclDirection \<Rightarrow> 8 word \<Rightarrow> ZclCommandId \<Rightarrow> byte list \<Rightarrow> ZclFrame" where
  "command_frame is_global direction seq_num command payload =
     \<lparr> frame_type = (if is_global then ZclFrameType_Global else ZclFrameType_Local),
       manufacturer_code = None, frame_direction = direction, disable_default_response = False,
       frame_reserved = 0, transaction_sequence_number = seq_num, command_identifier = command,
       frame_payload = payload \<rparr>"

definition SendCommand :: "ShortAddress \<Rightarrow> 8 word \<Rightarrow> ZclClusterId \<Rightarrow> bool \<Rightarrow> ZclDirection \<Rightarrow> ZclCommandId
    \<Rightarrow> byte list \<Rightarrow> endpoint \<times> api \<Rightarrow> (endpoint \<times> api) \<times> (error + unit future)" where
  "SendCommand address dst_endpoint cluster is_global direction command payload s =
     (case s of (ep, api) \<Rightarrow>
        let (ep, seq_num) = NextTransSeqNumFor address ep;
            (api, r) = call_with (Encode ZclFrame_codec (command_frame is_global direction seq_num command payload))
              (AfDataRequest address dst_endpoint (endpoint_number ep) cluster 0 0 30) api
        in ((ep, api), r))"

section \<open>Repeated messages\<close>

lemma OnIncomingMsg_eq:
  "msg_DstEndpoint message = endpoint_number s \<Longrightarrow>
   fst (OnIncomingMsg message s) = s\<lparr> last_msg := (last_msg s)(msg_SrcAddr message \<mapsto> msg_Data message) \<rparr>"
  by (auto simp: OnIncomingMsg_def Let_def)

text \<open>The endpoint after a sequence of messages.\<close>

definition heard :: "IncomingMsg list \<Rightarrow> endpoint \<Rightarrow> endpoint" where
  "heard messages s = foldl (\<lambda>s m. fst (Listener m s)) s messages"

lemma Listener_state:
  "fst (Listener m s) = (if msg_DstEndpoint m = endpoint_number s
     then s\<lparr> last_msg := (last_msg s)(msg_SrcAddr m \<mapsto> msg_Data m) \<rparr> else s)"
proof (cases "msg_DstEndpoint m = endpoint_number s")
  case True
  then show ?thesis
    using OnIncomingMsg_eq [OF True] by (simp add: Listener_def case_prod_beta split: sum.splits)
next
  case False
  then show ?thesis by (simp add: Listener_def OnIncomingMsg_def)
qed

lemma heard_other:
  "\<forall>x \<in> set others. msg_SrcAddr x \<noteq> a \<Longrightarrow> last_msg (heard others s) a = last_msg s a"
proof (induction others arbitrary: s)
  case (Cons x others)
  then have "last_msg (heard others (fst (Listener x s))) a = last_msg (fst (Listener x s)) a" by simp
  with Cons.prems show ?case by (auto simp: heard_def Listener_state)
qed (simp add: heard_def)

text \<open>
  A message that repeats the last one a device sent to this endpoint is ignored, whatever other
  devices sent in between, and whether or not the first one could be decoded.
\<close>

theorem repeated_message_ignored:
  assumes "msg_DstEndpoint m = endpoint_number s"
    and "\<forall>x \<in> set others. msg_SrcAddr x \<noteq> msg_SrcAddr m"
    and "msg_SrcAddr m' = msg_SrcAddr m" "msg_Data m' = msg_Data m"
  shows "snd (Listener m' (heard (m # others) s)) = []"
proof -
  let ?s = "heard others (fst (Listener m s))"
  have "last_msg ?s (msg_SrcAddr m) = Some (msg_Data m)"
    using heard_other [OF assms(2), of "fst (Listener m s)"] assms(1) by (simp add: Listener_state)
  then have "snd (Listener m' ?s) = []"
    using assms(3,4) by (simp add: Listener_def OnIncomingMsg_def index_default_def Let_def)
  then show ?thesis by (simp add: heard_def)
qed

lemma Decode_ZclFrame_nonempty: "Decode ZclFrame_codec bs = Inr frame \<Longrightarrow> bs \<noteq> []"
  by (auto simp: Decode_def ZclFrame_codec_def ZclFrame_dec_def codec_simps)

lemma Listener_new:
  assumes "msg_DstEndpoint m = endpoint_number s" "last_msg s (msg_SrcAddr m) \<noteq> Some (msg_Data m)"
    and "Decode ZclFrame_codec (msg_Data m) = Inr frame"
    and "frame_type frame = (if global then ZclFrameType_Global else ZclFrameType_Local)"
  shows "snd (Listener m s) = [command_of m global frame]"
proof -
  have "index_default (last_msg s) [] (msg_SrcAddr m) \<noteq> msg_Data m"
    using assms(2) Decode_ZclFrame_nonempty [OF assms(3)] by (auto simp: index_default_def split: option.splits)
  with assms(1,3,4) show ?thesis by (cases global) (simp_all add: Listener_def OnIncomingMsg_def Let_def)
qed

lemma sent_command_heard:
  assumes "Encode ZclFrame_codec (command_frame is_global direction seq_num command payload) = Inr (msg_Data m)"
    and "direction < 2"
    and "msg_DstEndpoint m = endpoint_number s" "last_msg s (msg_SrcAddr m) \<noteq> Some (msg_Data m)"
  shows "snd (Listener m s) =
    [\<lparr> source_address = msg_SrcAddr m, source_endpoint = msg_SrcEndpoint m, cluster_id = msg_ClusterId m,
       is_global_command = is_global, command_direction = direction, command_id = command,
       command_payload = payload \<rparr>]"
proof -
  let ?f = "command_frame is_global direction seq_num command payload"
  have fit: "fields_fit ?f" using assms(2) by (simp add: fields_fit_def command_frame_def)
  moreover have "msg_Data m = ZclFrame_img ?f" using assms(1) by (simp add: Encode_ZclFrame)
  ultimately have "Decode ZclFrame_codec (msg_Data m) = Inr ?f"
    using ZclFrame_dec_img [OF fit] by (simp add: Decode_def ZclFrame_codec_def)
  from Listener_new [OF assms(3,4) this, of is_global] show ?thesis
    by (simp add: command_of_def command_frame_def)
qed

text \<open>
  C14: the bytes \<open>SendCommand\<close> makes of a command, received in a message that is not a repetition,
  are the one command the endpoint emits, with the same kind, direction, identifier and payload.
\<close>

theorem command_arrives:
  assumes "Encode ZclFrame_codec (command_frame is_global direction seq_num command payload) = Inr (msg_Data m)"
    and "direction < 2"
    and "msg_DstEndpoint m = endpoint_number s" "last_msg s (msg_SrcAddr m) \<noteq> Some (msg_Data m)"
  shows "snd (Listener m s) =
    [\<lparr> source_address = msg_SrcAddr m, source_endpoint = msg_SrcEndpoint m, cluster_id = msg_ClusterId m,
       is_global_command = is_global, command_direction = direction, command_id = command,
       command_payload = payload \<rparr>]"
  using assms by (rule sent_command_heard)

section \<open>Sequence numbers\<close>

definition numbered :: "ShortAddress list \<Rightarrow> endpoint \<Rightarrow> endpoint" where
  "numbered addresses s = foldl (\<lambda>s a. fst (NextTransSeqNumFor a s)) s addresses"

lemma numbered_next:
  "snd (NextTransSeqNumFor a (numbered addresses s))
     = index_default (send_trans_seq_nums s) 0 a + word_of_nat (count_list addresses a)"
  by (induction addresses arbitrary: s)
    (auto simp: numbered_def NextTransSeqNumFor_def index_default_def Let_def)

text \<open>
  The frames sent to a device are numbered 0, 1, 2, and so on modulo 256, whatever is sent to
  other devices in between; so two frames to a device with at most 255 frames between their numbers
  never share a number.
\<close>

theorem sequence_numbers_count:
  "snd (NextTransSeqNumFor a (numbered addresses (ZclEndpoint_ctor n))) = word_of_nat (count_list addresses a)
   \<and> (snd (NextTransSeqNumFor a (numbered addresses (ZclEndpoint_ctor n)))
        = snd (NextTransSeqNumFor a (numbered (addresses @ later) (ZclEndpoint_ctor n)))
      \<longleftrightarrow> 256 dvd count_list later a)"
  using word_of_nat_eq_0_iff [where 'a = 8, of "count_list later a"]
  by (simp add: numbered_next ZclEndpoint_ctor_def index_default_def)

section \<open>Witnesses\<close>

abbreviation toggle_frame :: ZclFrame where
  "toggle_frame \<equiv> command_frame False ZclDirection_ClientToServer 5 2 []"

abbreviation toggle :: IncomingMsg where
  "toggle \<equiv> \<lparr> msg_GroupId = 0, msg_ClusterId = 6, msg_SrcAddr = 0x1234, msg_SrcEndpoint = 1, msg_DstEndpoint = 1,
     msg_WasBroadcast = 0, msg_LinkQuality = 80, msg_SecurityUse = 0, msg_TimeStamp = 0, msg_TransSeqNumber = 3,
     msg_Data = ZclFrame_img toggle_frame \<rparr>"

theorem repeated_message_ignored_witness:
  "snd (Listener toggle (heard [toggle, toggle\<lparr> msg_SrcAddr := 0x5678 \<rparr>] (ZclEndpoint_ctor 1))) = []"
  by (rule repeated_message_ignored) (simp_all add: ZclEndpoint_ctor_def)

theorem command_arrives_witness:
  "snd (Listener toggle (ZclEndpoint_ctor 1)) =
    [\<lparr> source_address = 0x1234, source_endpoint = 1, cluster_id = 6, is_global_command = False,
       command_direction = ZclDirection_ClientToServer, command_id = 2, command_payload = [] \<rparr>]"
  using command_arrives [of False ZclDirection_ClientToServer 5 2 "[]" toggle "ZclEndpoint_ctor 1"]
  by (simp add: Encode_ZclFrame ZclEndpoint_ctor_def)

end
