(* ===== verification/ClusterDb.thy ===== *)
theory ClusterDb
  imports ZclTypes
begin

text \<open>
  The cluster database: \<^verbatim>\<open>src/clusterdb/searchable_list.h\<close>, the structures
  \<^verbatim>\<open>attribute_info.h\<close>, \<^verbatim>\<open>command_info.h\<close>, \<^verbatim>\<open>cluster_info.h\<close>, the types of
  \<^verbatim>\<open>src/dynamic_encoding/common.h\<close> and the parser and lookups of
  \<^verbatim>\<open>src/clusterdb/cluster_db.cpp\<close>.

  A pointer into \<open>items_\<close> is the position of the item: the list only grows at its end. The
  property tree that boost reads from the file is a value of \<open>ptree\<close>, and the name mangler is a
  parameter. A parser that returns false or throws keeps what it has added before, so it returns
  the new state and its result.

  The locale \<open>searchable\<close> states what the users of \<open>SearchableList\<close> rely on; it is interpreted
  for attributes, commands and clusters.
\<close>

section \<open>Searchable lists\<close>

record ('id, 'item) SearchableList =
  items :: "'item list"
  by_id :: "'id \<rightharpoonup> nat"
  by_name :: "string \<rightharpoonup> nat"

definition empty_list :: "('id, 'item) SearchableList" where
  "empty_list = \<lparr> items = [], by_id = Map.empty, by_name = Map.empty \<rparr>"

text \<open>\<open>id_of\<close> and \<open>name_of\<close> are the members \<open>id\<close> and \<open>name\<close> of the item type.\<close>

definition Add :: "('item \<Rightarrow> 'id) \<Rightarrow> ('item \<Rightarrow> string) \<Rightarrow> 'item \<Rightarrow> ('id, 'item) SearchableList
    \<Rightarrow> ('id, 'item) SearchableList \<times> bool" where
  "Add id_of name_of item l =
     (if by_id l (id_of item) \<noteq> None then (l, False)
      else if by_name l (name_of item) \<noteq> None then (l, False)
      else (let ref = length (items l)
            in \<lparr> items = items l @ [item], by_id = (by_id l)(id_of item \<mapsto> ref),
                 by_name = (by_name l)(name_of item \<mapsto> ref) \<rparr>, True))"

definition FindByName :: "string \<Rightarrow> ('id, 'item) SearchableList \<Rightarrow> 'item option" where
  "FindByName name l = map_option (\<lambda>ref. items l ! ref) (by_name l name)"

definition FindById :: "'id \<Rightarrow> ('id, 'item) SearchableList \<Rightarrow> 'item option" where
  "FindById i l = map_option (\<lambda>ref. items l ! ref) (by_id l i)"

definition list_ok :: "('item \<Rightarrow> 'id) \<Rightarrow> ('item \<Rightarrow> string) \<Rightarrow> ('id, 'item) SearchableList \<Rightarrow> bool" where
  "list_ok id_of name_of l \<longleftrightarrow>
     (\<forall>i k. by_id l i = Some k \<longleftrightarrow> k < length (items l) \<and> id_of (items l ! k) = i) \<and>
     (\<forall>n k. by_name l n = Some k \<longleftrightarrow> k < length (items l) \<and> name_of (items l ! k) = n)"

locale searchable =
  fixes ok :: "'l \<Rightarrow> bool"
    and contents :: "'l \<Rightarrow> 'item list"
    and add :: "'item \<Rightarrow> 'l \<Rightarrow> 'l \<times> bool"
    and find_id :: "'id \<Rightarrow> 'l \<Rightarrow> 'item option"
    and find_name :: "string \<Rightarrow> 'l \<Rightarrow> 'item option"
    and id_of :: "'item \<Rightarrow> 'id"
    and name_of :: "'item \<Rightarrow> string"
  assumes ok_add: "ok l \<Longrightarrow> ok (fst (add x l))"
    and contents_add: "contents (fst (add x l)) = (if snd (add x l) then contents l @ [x] else contents l)"
    and add_accepts: "ok l \<Longrightarrow> snd (add x l) \<longleftrightarrow>
           id_of x \<notin> id_of ` set (contents l) \<and> name_of x \<notin> name_of ` set (contents l)"
    and find_id_law: "ok l \<Longrightarrow> find_id i l = Some x \<longleftrightarrow> x \<in> set (contents l) \<and> id_of x = i"
    and find_name_law: "ok l \<Longrightarrow> find_name n l = Some x \<longleftrightarrow> x \<in> set (contents l) \<and> name_of x = n"
begin

lemma same_id_same_item:
  "ok l \<Longrightarrow> x \<in> set (contents l) \<Longrightarrow> y \<in> set (contents l) \<Longrightarrow> id_of x = id_of y \<Longrightarrow> x = y"
  by (metis find_id_law option.inject)

lemma found_by_id_or_name: "ok l \<Longrightarrow> find_name n l = Some x \<Longrightarrow> find_id (id_of x) l = Some x"
  by (simp add: find_id_law find_name_law)

lemma not_found: "ok l \<Longrightarrow> find_id i l = None \<longleftrightarrow> i \<notin> id_of ` set (contents l)"
  using find_id_law by (metis (no_types, lifting) image_iff not_None_eq)

lemma added_is_found:
  "ok l \<Longrightarrow> add x l = (l', True) \<Longrightarrow> find_id (id_of x) l' = Some x \<and> find_name (name_of x) l' = Some x"
  using ok_add [of l x] contents_add [of x l] by (simp add: find_id_law find_name_law)

lemma contents_grow: "set (contents l) \<subseteq> set (contents (fst (add x l)))"
  by (simp add: contents_add subset_insertI)

end

lemma found_iff_at:
  assumes "\<And>k. m i = Some k \<longleftrightarrow> k < length xs \<and> f (xs ! k) = i"
  shows "map_option (\<lambda>k. xs ! k) (m i) = Some x \<longleftrightarrow> x \<in> set xs \<and> f x = i"
  using assms by (auto simp: in_set_conv_nth)

lemma key_present:
  assumes "\<And>k. m i = Some k \<longleftrightarrow> k < length xs \<and> f (xs ! k) = i"
  shows "m i = None \<longleftrightarrow> i \<notin> f ` set xs"
proof -
  have "m i \<noteq> None \<longleftrightarrow> (\<exists>k. k < length xs \<and> f (xs ! k) = i)" using assms by auto
  moreover have "i \<in> f ` set xs \<longleftrightarrow> (\<exists>k. k < length xs \<and> f (xs ! k) = i)"
    by (metis (no_types, lifting) image_iff in_set_conv_nth)
  ultimately show ?thesis by blast
qed

lemma searchable_SearchableList:
  "searchable (list_ok id_of name_of) items (Add id_of name_of) FindById FindByName id_of name_of"
proof
  fix l :: "('a, 'b) SearchableList" and x i n
  show "items (fst (Add id_of name_of x l)) = (if snd (Add id_of name_of x l) then items l @ [x] else items l)"
    by (simp add: Add_def Let_def)
  assume ok: "list_ok id_of name_of l"
  then have ids: "\<And>i k. by_id l i = Some k \<longleftrightarrow> k < length (items l) \<and> id_of (items l ! k) = i"
    and nms: "\<And>n k. by_name l n = Some k \<longleftrightarrow> k < length (items l) \<and> name_of (items l ! k) = n"
    by (auto simp: list_ok_def)
  show "snd (Add id_of name_of x l) \<longleftrightarrow>
      id_of x \<notin> id_of ` set (items l) \<and> name_of x \<notin> name_of ` set (items l)"
    using key_present [of "by_id l" "id_of x", OF ids] key_present [of "by_name l" "name_of x", OF nms]
    by (simp add: Add_def Let_def del: not_None_eq)
  show "FindById i l = Some x \<longleftrightarrow> x \<in> set (items l) \<and> id_of x = i"
    unfolding FindById_def by (rule found_iff_at) (rule ids)
  show "FindByName n l = Some x \<longleftrightarrow> x \<in> set (items l) \<and> name_of x = n"
    unfolding FindByName_def by (rule found_iff_at) (rule nms)
  show "list_ok id_of name_of (fst (Add id_of name_of x l))"
  proof (cases "by_id l (id_of x) = None \<and> by_name l (name_of x) = None")
    case True
    then have "\<forall>k < length (items l). id_of (items l ! k) \<noteq> id_of x \<and> name_of (items l ! k) \<noteq> name_of x"
      using ids nms by (metis option.distinct(1))
    with True ids nms show ?thesis
      by (auto simp: Add_def Let_def list_ok_def nth_append less_Suc_eq)
  next
    case False
    with ok show ?thesis by (auto simp: Add_def)
  qed
qed

lemma list_ok_empty [simp]: "list_ok id_of name_of empty_list"
  by (simp add: list_ok_def empty_list_def)

lemma items_empty_list [simp]: "items empty_list = []"
  by (simp add: empty_list_def)

section \<open>Types of the dynamic encoding\<close>

text \<open>\<open>ObjectEntry\<close> is a pair; the payload of \<open>ObjectType\<close> is its member \<open>properties\<close>.\<close>

datatype AnyType =
    VariantType
  | XiaomiFF01Type
  | ZclType DataType
  | ObjectType "(string \<times> AnyType) list"
  | ArrayType nat AnyType
  | ErrorOrType AnyType

type_synonym ObjectEntry = "string \<times> AnyType"

section \<open>Attributes, commands and clusters\<close>

record AttributeInfo =
  attribute_id :: ZclAttributeId
  attribute_name :: string
  attribute_datatype :: "DataType option"

record CommandInfo =
  command_id :: ZclCommandId
  command_name :: string
  is_global :: bool
  command_data :: "ObjectEntry list"

type_synonym AttributeList = "(ZclAttributeId, AttributeInfo) SearchableList"
type_synonym CommandList = "(ZclCommandId, CommandInfo) SearchableList"

record ClusterInfo =
  cluster_id :: ZclClusterId
  cluster_name :: string
  attributes :: AttributeList
  commands_serverToClient :: CommandList
  commands_clientToServer :: CommandList

record ClusterDb =
  clusters :: "(ZclClusterId, ClusterInfo) SearchableList"
  global_commands :: CommandList

definition ClusterDb_ctor :: ClusterDb where
  "ClusterDb_ctor = \<lparr> clusters = empty_list, global_commands = empty_list \<rparr>"

interpretation attribute_list: searchable "list_ok attribute_id attribute_name" items
    "Add attribute_id attribute_name" FindById FindByName attribute_id attribute_name
  by (rule searchable_SearchableList)

interpretation command_list: searchable "list_ok command_id command_name" items
    "Add command_id command_name" FindById FindByName command_id command_name
  by (rule searchable_SearchableList)

interpretation cluster_list: searchable "list_ok cluster_id cluster_name" items
    "Add cluster_id cluster_name" FindById FindByName cluster_id cluster_name
  by (rule searchable_SearchableList)

section \<open>Parsing\<close>

text \<open>A property tree: the data of the node and its children in file order with their keys.\<close>

datatype ptree = Ptree (tree_data: string) (tree_children: "(string \<times> ptree) list")

type_synonym mangler = "string \<Rightarrow> string"

definition get_optional :: "ptree \<Rightarrow> string \<Rightarrow> string option" where
  "get_optional tree key = map_option tree_data (map_of (tree_children tree) key)"

definition stringStartsWith :: "string \<Rightarrow> string \<Rightarrow> string option" where
  "stringStartsWith haystack needle =
     (if length needle > length haystack \<or> take (length needle) haystack \<noteq> needle then None
      else Some (drop (length needle) haystack))"

lemma stringStartsWith_shorter:
  "stringStartsWith haystack needle = Some rest \<Longrightarrow> needle \<noteq> [] \<Longrightarrow> length rest < length haystack"
  by (cases haystack) (auto simp: stringStartsWith_def split: if_splits)

lemma size_children: "size_list (\<lambda>e. size (snd e)) (tree_children tree) < size tree"
proof -
  have "size_list (\<lambda>e. size (snd e)) cs \<le> size_list (size_prod (\<lambda>_. 0) size) cs" for cs :: "(string \<times> ptree) list"
    by (induction cs) auto
  then show ?thesis by (cases tree) (simp add: le_imp_less_Suc)
qed

text \<open>
  Only a successful parser writes its result, and a caller drops the partial object of one that
  fails: the two type parsers return None for false.
\<close>

function (sequential) ParseTypeFromPTree :: "mangler \<Rightarrow> string \<Rightarrow> ptree \<Rightarrow> AnyType option"
  and ParseObjectTypeFromPTree :: "mangler \<Rightarrow> (string \<times> ptree) list \<Rightarrow> ObjectEntry list option" where
  "ParseTypeFromPTree name_mangler type_name tree =
     (case stringStartsWith type_name ''repeated:'' of
        Some rest_type_name \<Rightarrow>
          map_option (ArrayType 0) (ParseTypeFromPTree name_mangler rest_type_name tree)
      | None \<Rightarrow>
     (case stringStartsWith type_name ''arr8:'' of
        Some rest_type_name \<Rightarrow>
          map_option (ArrayType 1) (ParseTypeFromPTree name_mangler rest_type_name tree)
      | None \<Rightarrow>
     (case stringStartsWith type_name ''arr16:'' of
        Some rest_type_name \<Rightarrow>
          map_option (ArrayType 2) (ParseTypeFromPTree name_mangler rest_type_name tree)
      | None \<Rightarrow>
     (case stringStartsWith type_name ''error_or:'' of
        Some rest_type_name \<Rightarrow>
          map_option ErrorOrType (ParseTypeFromPTree name_mangler rest_type_name tree)
      | None \<Rightarrow>
        if type_name = ''object'' then
          map_option ObjectType (ParseObjectTypeFromPTree name_mangler (tree_children tree))
        else if type_name = ''variant'' then Some VariantType
        else map_option ZclType (string_to_enum DataType_table type_name)))))"
| "ParseObjectTypeFromPTree name_mangler [] = Some []"
| "ParseObjectTypeFromPTree name_mangler (entry # tree) =
     (case ParseTypeFromPTree name_mangler (fst entry) (snd entry) of
        None \<Rightarrow> None
      | Some type \<Rightarrow> map_option (\<lambda>properties. (name_mangler (tree_data (snd entry)), type) # properties)
          (ParseObjectTypeFromPTree name_mangler tree))"
  by pat_completeness auto
termination
proof (relation "measures [\<lambda>x. case x of Inl (_, _, tree) \<Rightarrow> size tree | Inr (_, tree) \<Rightarrow> size_list (\<lambda>e. size (snd e)) tree,
    \<lambda>x. case x of Inl (_, type_name, _) \<Rightarrow> length type_name | Inr (_, tree) \<Rightarrow> 0]", goal_cases)
qed (auto dest: stringStartsWith_shorter simp: size_children)

declare ParseTypeFromPTree.simps [simp del]

text \<open>\<open>std::stoul\<close> throws; the other failures return false.\<close>

type_synonym 's parsed = "'s \<times> (error + bool)"

fun ParseCommandListFromPTree :: "bool \<Rightarrow> mangler \<Rightarrow> (string \<times> ptree) list \<Rightarrow> CommandList \<Rightarrow> CommandList parsed" where
  "ParseCommandListFromPTree are_global_commands name_mangler [] commands = (commands, Inr True)"
| "ParseCommandListFromPTree are_global_commands name_mangler (entry # tree) commands =
     (case stoul (fst entry) 0 of
        Inl e \<Rightarrow> (commands, Inl e)
      | Inr (n, end_command_id) \<Rightarrow>
          if end_command_id \<noteq> length (fst entry) then (commands, Inr False)
          else if n > 0xFF then (commands, Inr False)
          else case ParseObjectTypeFromPTree name_mangler (tree_children (snd entry)) of
            None \<Rightarrow> (commands, Inr False)
          | Some data \<Rightarrow>
              let (commands, added) = Add command_id command_name
                    \<lparr> command_id = word_of_nat n,
                      command_name = name_mangler (tree_data (snd entry)),
                      is_global = are_global_commands, command_data = data \<rparr> commands
              in if \<not> added then (commands, Inr False)
                 else ParseCommandListFromPTree are_global_commands name_mangler tree commands)"

definition parse_datatype :: "ptree \<Rightarrow> DataType option option" where
  "parse_datatype tree = (case get_optional tree ''type'' of
       None \<Rightarrow> Some None
     | Some type_name \<Rightarrow> map_option Some (string_to_enum DataType_table type_name))"

fun ParseArgumentListFromPTree :: "mangler \<Rightarrow> (string \<times> ptree) list \<Rightarrow> AttributeList \<Rightarrow> AttributeList parsed" where
  "ParseArgumentListFromPTree name_mangler [] l = (l, Inr True)"
| "ParseArgumentListFromPTree name_mangler (entry # tree) l =
     (case stoul (fst entry) 0 of
        Inl e \<Rightarrow> (l, Inl e)
      | Inr (n, end_attribute_id) \<Rightarrow>
          if end_attribute_id \<noteq> length (fst entry) then (l, Inr False)
          else if n > 0xFFFF then (l, Inr False)
          else case parse_datatype (snd entry) of
            None \<Rightarrow> (l, Inr False)
          | Some datatype_option \<Rightarrow>
              let (l, added) = Add attribute_id attribute_name
                    \<lparr> attribute_id = word_of_nat n,
                      attribute_name = name_mangler (tree_data (snd entry)),
                      attribute_datatype = datatype_option \<rparr> l
              in if \<not> added then (l, Inr False)
                 else ParseArgumentListFromPTree name_mangler tree l)"

text \<open>One section of a cluster, and the loop over the sections.\<close>

definition ParseSection :: "mangler \<Rightarrow> string \<times> ptree \<Rightarrow> ClusterInfo \<Rightarrow> ClusterInfo parsed" where
  "ParseSection name_mangler entry cluster =
     (if fst entry = ''attributes'' then
        let (l, r) = ParseArgumentListFromPTree name_mangler (tree_children (snd entry)) (attributes cluster)
        in (cluster\<lparr> attributes := l \<rparr>, r)
      else if fst entry = ''commands'' then
        if tree_data (snd entry) = ''serverToClient'' then
          let (l, r) = ParseCommandListFromPTree False name_mangler (tree_children (snd entry))
                (commands_serverToClient cluster)
          in (cluster\<lparr> commands_serverToClient := l \<rparr>, r)
        else if tree_data (snd entry) = ''clientToServer'' then
          let (l, r) = ParseCommandListFromPTree False name_mangler (tree_children (snd entry))
                (commands_clientToServer cluster)
          in (cluster\<lparr> commands_clientToServer := l \<rparr>, r)
        else (cluster, Inr False)
      else (cluster, Inr False))"

fun ParseSections :: "mangler \<Rightarrow> (string \<times> ptree) list \<Rightarrow> ClusterInfo \<Rightarrow> ClusterInfo parsed" where
  "ParseSections name_mangler [] cluster = (cluster, Inr True)"
| "ParseSections name_mangler (entry # tree) cluster =
     (case ParseSection name_mangler entry cluster of
        (cluster, r) \<Rightarrow> if r = Inr True then ParseSections name_mangler tree cluster else (cluster, r))"

definition ParseClusterInfoFromPTree :: "mangler \<Rightarrow> ptree \<Rightarrow> ClusterInfo \<Rightarrow> ClusterInfo parsed" where
  "ParseClusterInfoFromPTree name_mangler tree cluster =
     ParseSections name_mangler (tree_children tree)
       (cluster\<lparr> cluster_name := name_mangler (tree_data tree) \<rparr>)"

text \<open>One entry of the file, and the loop over the entries.\<close>

definition empty_cluster :: "nat \<Rightarrow> ClusterInfo" where
  "empty_cluster n = \<lparr> cluster_id = word_of_nat n, cluster_name = [], attributes = empty_list,
     commands_serverToClient = empty_list, commands_clientToServer = empty_list \<rparr>"

definition ParseEntry :: "mangler \<Rightarrow> string \<times> ptree \<Rightarrow> ClusterDb \<Rightarrow> ClusterDb parsed" where
  "ParseEntry name_mangler cluster_entry ctx =
     (if fst cluster_entry = ''global'' then
        let (l, r) = ParseCommandListFromPTree True name_mangler (tree_children (snd cluster_entry))
              (global_commands ctx)
        in (ctx\<lparr> global_commands := l \<rparr>, r)
      else case stoul (fst cluster_entry) 0 of
        Inl e \<Rightarrow> (ctx, Inl e)
      | Inr (n, end_cluster_id) \<Rightarrow>
          if end_cluster_id \<noteq> length (fst cluster_entry) then (ctx, Inr False)
          else if n > 0xFFFF then (ctx, Inr False)
          else let (cluster_info, r) = ParseClusterInfoFromPTree name_mangler (snd cluster_entry) (empty_cluster n)
            in if r \<noteq> Inr True then (ctx, r)
               else let (l, added) = Add cluster_id cluster_name cluster_info (clusters ctx)
                 in (ctx\<lparr> clusters := l \<rparr>, Inr added))"

fun ParseFromPTree :: "mangler \<Rightarrow> (string \<times> ptree) list \<Rightarrow> ClusterDb \<Rightarrow> ClusterDb parsed" where
  "ParseFromPTree name_mangler [] ctx = (ctx, Inr True)"
| "ParseFromPTree name_mangler (cluster_entry # tree) ctx =
     (case ParseEntry name_mangler cluster_entry ctx of
        (ctx, r) \<Rightarrow> if r = Inr True then ParseFromPTree name_mangler tree ctx else (ctx, r))"

text \<open>\<open>ParseFromStream\<close> and \<open>ParseFromFile\<close>, after boost has read the tree.\<close>

definition ParseFromStream :: "mangler \<Rightarrow> ptree \<Rightarrow> ClusterDb \<Rightarrow> ClusterDb parsed" where
  "ParseFromStream name_mangler tree = ParseFromPTree name_mangler (tree_children tree)"

section \<open>Lookups\<close>

definition ClusterByName :: "string \<Rightarrow> ClusterDb \<Rightarrow> ClusterInfo option" where
  "ClusterByName name db = FindByName name (clusters db)"

definition ClusterById :: "ZclClusterId \<Rightarrow> ClusterDb \<Rightarrow> ClusterInfo option" where
  "ClusterById i db = FindById i (clusters db)"

definition GlobalCommandByName :: "string \<Rightarrow> ClusterDb \<Rightarrow> CommandInfo option" where
  "GlobalCommandByName name db = FindByName name (global_commands db)"

definition GlobalCommandById :: "ZclCommandId \<Rightarrow> ClusterDb \<Rightarrow> CommandInfo option" where
  "GlobalCommandById i db = FindById i (global_commands db)"

definition CommandByName :: "ZclClusterId \<Rightarrow> ZclDirection \<Rightarrow> string \<Rightarrow> ClusterDb \<Rightarrow> CommandInfo option" where
  "CommandByName cluster direction name db = (case GlobalCommandByName name db of
       Some found \<Rightarrow> Some found
     | None \<Rightarrow> (case ClusterById cluster db of
         None \<Rightarrow> None
       | Some cluster_found \<Rightarrow>
           if direction = ZclDirection_ServerToClient then FindByName name (commands_serverToClient cluster_found)
           else if direction = ZclDirection_ClientToServer then FindByName name (commands_clientToServer cluster_found)
           else None))"

definition CommandById :: "ZclClusterId \<Rightarrow> ZclCommandId \<Rightarrow> bool \<Rightarrow> ZclDirection \<Rightarrow> ClusterDb \<Rightarrow> CommandInfo option" where
  "CommandById cluster i want_global direction db =
     (if want_global then GlobalCommandById i db
      else (case ClusterById cluster db of
         None \<Rightarrow> None
       | Some cluster_found \<Rightarrow>
           if direction = ZclDirection_ServerToClient then FindById i (commands_serverToClient cluster_found)
           else if direction = ZclDirection_ClientToServer then FindById i (commands_clientToServer cluster_found)
           else None))"

end
