(* ===== verification/ClusterLookup.thy ===== *)
theory ClusterLookup
  imports ClusterDb
begin

text \<open>
  What a parsed cluster database answers. The loops of the parser share one shape, which the
  locale \<open>list_parser\<close> describes over \<open>searchable\<close>: every entry is parsed and added, and the
  first failure stops the loop. Its interpretations for commands and attributes say when a list
  is accepted and what it then holds.
\<close>

section \<open>The loops over entries\<close>

locale list_parser = searchable +
  fixes parse_entry :: "'e \<Rightarrow> 'b option"
    and loop :: "'e list \<Rightarrow> 'a \<Rightarrow> 'a parsed"
  assumes loop_Nil: "loop [] l = (l, Inr True)"
    and loop_fails: "parse_entry e = None \<Longrightarrow> fst (loop (e # es) l) = l \<and> snd (loop (e # es) l) \<noteq> Inr True"
    and loop_adds: "parse_entry e = Some x \<Longrightarrow>
          loop (e # es) l = (if snd (add x l) then loop es (fst (add x l)) else (fst (add x l), Inr False))"
begin

definition parsed_items :: "'e list \<Rightarrow> 'b list" where
  "parsed_items es = map (\<lambda>e. the (parse_entry e)) es"

definition well_formed :: "'e list \<Rightarrow> bool" where
  "well_formed es \<longleftrightarrow> list_all (\<lambda>e. parse_entry e \<noteq> None) es \<and>
     distinct (map id_of (parsed_items es)) \<and> distinct (map name_of (parsed_items es))"

lemma loop_ok: "ok l \<Longrightarrow> ok (fst (loop es l))"
proof (induction es arbitrary: l)
  case (Cons e es)
  show ?case
  proof (cases "parse_entry e")
    case None
    with loop_fails Cons.prems show ?thesis by simp
  next
    case (Some x)
    with Cons.IH ok_add [OF Cons.prems] show ?thesis by (simp add: loop_adds)
  qed
qed (simp add: loop_Nil)

lemma loop_invariant:
  assumes "\<And>e x. parse_entry e = Some x \<Longrightarrow> P x" and "\<forall>x \<in> set (contents l). P x"
  shows "\<forall>x \<in> set (contents (fst (loop es l))). P x"
  using assms(2)
proof (induction es arbitrary: l)
  case (Cons e es)
  show ?case
  proof (cases "parse_entry e")
    case None
    with loop_fails Cons.prems show ?thesis by simp
  next
    case (Some x)
    then have "\<forall>y \<in> set (contents (fst (add x l))). P y"
      using Cons.prems assms(1) by (auto simp: contents_add)
    with Cons.IH Some show ?thesis by (simp add: loop_adds)
  qed
qed (simp add: loop_Nil)

lemma loop_grows: "set (contents l) \<subseteq> set (contents (fst (loop es l)))"
proof (induction es arbitrary: l)
  case (Cons e es)
  show ?case
  proof (cases "parse_entry e")
    case None
    with loop_fails show ?thesis by simp
  next
    case (Some x)
    from Cons.IH [of "fst (add x l)"] contents_grow [of l x] Some show ?thesis by (auto simp: loop_adds)
  qed
qed (simp add: loop_Nil)

lemma loop_contents:
  "snd (loop es l) = Inr True \<Longrightarrow>
     list_all (\<lambda>e. parse_entry e \<noteq> None) es \<and> contents (fst (loop es l)) = contents l @ parsed_items es"
proof (induction es arbitrary: l)
  case (Cons e es)
  show ?case
  proof (cases "parse_entry e")
    case None
    with loop_fails Cons.prems show ?thesis by blast
  next
    case (Some x)
    with Cons.prems have "snd (add x l)" "snd (loop es (fst (add x l))) = Inr True"
      by (auto simp: loop_adds split: if_splits)
    with Cons.IH Some show ?thesis by (simp add: loop_adds contents_add parsed_items_def)
  qed
qed (simp add: loop_Nil parsed_items_def)

lemma loop_accepts:
  assumes "ok l"
  shows "snd (loop es l) = Inr True \<longleftrightarrow> well_formed es \<and>
    id_of ` set (parsed_items es) \<inter> id_of ` set (contents l) = {} \<and>
    name_of ` set (parsed_items es) \<inter> name_of ` set (contents l) = {}"
  using assms
proof (induction es arbitrary: l)
  case (Cons e es)
  show ?case
  proof (cases "parse_entry e")
    case None
    with loop_fails show ?thesis by (simp add: well_formed_def)
  next
    case (Some x)
    show ?thesis
    proof (cases "snd (add x l)")
      case True
      then have "set (contents (fst (add x l))) = insert x (set (contents l))" by (simp add: contents_add)
      with True Some Cons.IH [OF ok_add [OF Cons.prems]] add_accepts [OF Cons.prems, of x] show ?thesis
        by (auto simp: loop_adds well_formed_def parsed_items_def)
    next
      case False
      with Some add_accepts [OF Cons.prems, of x] show ?thesis
        by (auto simp: loop_adds parsed_items_def)
    qed
  qed
qed (simp add: loop_Nil well_formed_def parsed_items_def)

lemma entry_found:
  assumes "ok l" "snd (loop es l) = Inr True" "e \<in> set es"
  shows "\<exists>x. parse_entry e = Some x \<and> find_id (id_of x) (fst (loop es l)) = Some x
    \<and> find_name (name_of x) (fst (loop es l)) = Some x"
proof -
  from loop_contents [OF assms(2)] assms(3) obtain x where x: "parse_entry e = Some x"
    by (auto simp: list_all_iff)
  with assms(3) have "x \<in> set (parsed_items es)" by (force simp: parsed_items_def)
  with loop_contents [OF assms(2)] have "x \<in> set (contents (fst (loop es l)))" by simp
  with x loop_ok [OF assms(1)] show ?thesis by (simp add: find_id_law find_name_law)
qed

end

section \<open>Commands and attributes\<close>

definition command_entry :: "bool \<Rightarrow> mangler \<Rightarrow> string \<times> ptree \<Rightarrow> CommandInfo option" where
  "command_entry are_global_commands name_mangler entry = (case stoul (fst entry) 0 of
       Inl e \<Rightarrow> None
     | Inr (n, end_pos) \<Rightarrow>
         if end_pos = length (fst entry) \<and> n \<le> 0xFF then
           map_option (\<lambda>d. \<lparr> command_id = word_of_nat n, command_name = name_mangler (tree_data (snd entry)),
               is_global = are_global_commands, command_data = d \<rparr>)
             (ParseObjectTypeFromPTree name_mangler (tree_children (snd entry)))
         else None)"

definition attribute_entry :: "mangler \<Rightarrow> string \<times> ptree \<Rightarrow> AttributeInfo option" where
  "attribute_entry name_mangler entry = (case stoul (fst entry) 0 of
       Inl e \<Rightarrow> None
     | Inr (n, end_pos) \<Rightarrow>
         if end_pos = length (fst entry) \<and> n \<le> 0xFFFF then
           map_option (\<lambda>d. \<lparr> attribute_id = word_of_nat n, attribute_name = name_mangler (tree_data (snd entry)),
               attribute_datatype = d \<rparr>) (parse_datatype (snd entry))
         else None)"

interpretation command_parser: list_parser "list_ok command_id command_name" items
    "Add command_id command_name" FindById FindByName command_id command_name
    "command_entry g m" "ParseCommandListFromPTree g m" for g m
  by unfold_locales
    (auto simp: command_entry_def Let_def not_le split: sum.splits prod.splits option.splits if_splits)

interpretation attribute_parser: list_parser "list_ok attribute_id attribute_name" items
    "Add attribute_id attribute_name" FindById FindByName attribute_id attribute_name
    "attribute_entry m" "ParseArgumentListFromPTree m" for m
  by unfold_locales
    (auto simp: attribute_entry_def Let_def not_le split: sum.splits prod.splits option.splits if_splits)

lemma command_entry_is_global: "command_entry g m e = Some x \<Longrightarrow> is_global x = g"
  by (auto simp: command_entry_def split: sum.splits if_splits)

section \<open>The invariant of the database\<close>

definition commands_ok :: "bool \<Rightarrow> CommandList \<Rightarrow> bool" where
  "commands_ok g l \<longleftrightarrow> list_ok command_id command_name l \<and> (\<forall>k \<in> set (items l). is_global k = g)"

definition cluster_ok :: "ClusterInfo \<Rightarrow> bool" where
  "cluster_ok c \<longleftrightarrow> list_ok attribute_id attribute_name (attributes c) \<and>
     commands_ok False (commands_serverToClient c) \<and> commands_ok False (commands_clientToServer c)"

definition db_ok :: "ClusterDb \<Rightarrow> bool" where
  "db_ok db \<longleftrightarrow> list_ok cluster_id cluster_name (clusters db) \<and>
     (\<forall>c \<in> set (items (clusters db)). cluster_ok c) \<and> commands_ok True (global_commands db)"

lemma commands_ok_empty [simp]: "commands_ok g empty_list"
  by (simp add: commands_ok_def)

lemma commands_ok_parse:
  "commands_ok g l \<Longrightarrow> commands_ok g (fst (ParseCommandListFromPTree g m tree l))"
  unfolding commands_ok_def
  by (intro conjI command_parser.loop_ok command_parser.loop_invariant)
    (auto dest: command_entry_is_global)

lemma cluster_ok_ParseSection: "cluster_ok c \<Longrightarrow> cluster_ok (fst (ParseSection m entry c))"
  using commands_ok_parse [of False] attribute_parser.loop_ok
  by (auto simp: ParseSection_def cluster_ok_def split: prod.splits) (metis fst_conv)+

lemma cluster_ok_ParseSections: "cluster_ok c \<Longrightarrow> cluster_ok (fst (ParseSections m tree c))"
proof (induction m tree c rule: ParseSections.induct)
  case (2 m entry tree c)
  then show ?case using cluster_ok_ParseSection [of c m entry] by (auto split: prod.splits)
qed simp

lemma cluster_ok_ParseClusterInfo: "cluster_ok c \<Longrightarrow> cluster_ok (fst (ParseClusterInfoFromPTree m tree c))"
  unfolding ParseClusterInfoFromPTree_def
  by (intro cluster_ok_ParseSections) (simp add: cluster_ok_def)

lemma cluster_ok_empty [simp]: "cluster_ok (empty_cluster n)"
  by (simp add: empty_cluster_def cluster_ok_def)

lemma db_ok_add_cluster:
  "db_ok db \<Longrightarrow> cluster_ok c \<Longrightarrow>
   db_ok (db\<lparr> clusters := fst (Add cluster_id cluster_name c (clusters db)) \<rparr>)"
  using cluster_list.contents_add [of c "clusters db"] cluster_list.ok_add [of "clusters db" c]
  by (auto simp: db_ok_def split: if_splits)

lemma db_ok_add_globals:
  "db_ok db \<Longrightarrow> db_ok (db\<lparr> global_commands := fst (ParseCommandListFromPTree True m tree (global_commands db)) \<rparr>)"
  using commands_ok_parse [of True "global_commands db" m tree] by (simp add: db_ok_def)

lemma db_ok_ParseEntry:
  assumes "db_ok db"
  shows "db_ok (fst (ParseEntry m e db))"
proof (cases "fst e = ''global''")
  case True
  with db_ok_add_globals [OF assms, of m "tree_children (snd e)"] show ?thesis
    by (simp add: ParseEntry_def case_prod_beta)
next
  case False
  show ?thesis
  proof (cases "stoul (fst e) 0")
    case (Inr x)
    obtain n end_pos where x: "x = (n, end_pos)" by force
    obtain c r where c: "ParseClusterInfoFromPTree m (snd e) (empty_cluster n) = (c, r)" by force
    have "cluster_ok c" using cluster_ok_ParseClusterInfo [of "empty_cluster n" m "snd e"] c by simp
    from db_ok_add_cluster [OF assms this] show ?thesis
      using False Inr x c assms by (simp add: ParseEntry_def case_prod_beta)
  qed (simp add: ParseEntry_def False assms)
qed

lemma db_ok_ParseFromPTree: "db_ok db \<Longrightarrow> db_ok (fst (ParseFromPTree m tree db))"
proof (induction m tree db rule: ParseFromPTree.induct)
  case (2 m e tree db)
  then show ?case using db_ok_ParseEntry [of db m e] by (auto split: prod.splits)
qed simp

text \<open>The databases the program can hold: any number of files parsed into a fresh one.\<close>

definition loaded :: "(mangler \<times> ptree) list \<Rightarrow> ClusterDb" where
  "loaded files = foldl (\<lambda>db (m, tree). fst (ParseFromStream m tree db)) ClusterDb_ctor files"

lemma db_ok_loaded: "db_ok (loaded files)"
proof -
  have "db_ok db \<Longrightarrow> db_ok (foldl (\<lambda>db (m, tree). fst (ParseFromStream m tree db)) db files)" for db
    by (induction files arbitrary: db) (auto simp: ParseFromStream_def db_ok_ParseFromPTree)
  moreover have "db_ok ClusterDb_ctor" by (simp add: ClusterDb_ctor_def db_ok_def)
  ultimately show ?thesis by (simp add: loaded_def)
qed

section \<open>Looking up what was parsed\<close>

definition direction_commands :: "ZclDirection \<Rightarrow> ClusterInfo \<Rightarrow> CommandList" where
  "direction_commands d c =
     (if d = ZclDirection_ServerToClient then commands_serverToClient c
      else if d = ZclDirection_ClientToServer then commands_clientToServer c
      else empty_list)"

lemma find_in_empty [simp]: "FindById i empty_list = None" "FindByName n empty_list = None"
  by (simp_all add: FindById_def FindByName_def empty_list_def)

lemma CommandByName_alt: "CommandByName cluster d n db = (case GlobalCommandByName n db of
    Some k \<Rightarrow> Some k
  | None \<Rightarrow> Option.bind (ClusterById cluster db) (\<lambda>c. FindByName n (direction_commands d c)))"
  by (auto simp: CommandByName_def direction_commands_def split: option.splits)

lemma CommandById_alt: "CommandById cluster i g d db =
    (if g then GlobalCommandById i db
     else Option.bind (ClusterById cluster db) (\<lambda>c. FindById i (direction_commands d c)))"
  by (auto simp: CommandById_def direction_commands_def split: option.splits)

lemma found_cluster_ok: "db_ok db \<Longrightarrow> ClusterById i db = Some c \<Longrightarrow> cluster_ok c"
  by (auto simp: db_ok_def ClusterById_def cluster_list.find_id_law)

lemma direction_commands_ok: "cluster_ok c \<Longrightarrow> commands_ok False (direction_commands d c)"
  by (simp add: cluster_ok_def direction_commands_def)

lemma commands_ok_names:
  assumes "commands_ok g l"
  shows "FindByName n l = Some k \<longleftrightarrow> k \<in> set (items l) \<and> command_name k = n"
    and "FindById i l = Some k \<longleftrightarrow> k \<in> set (items l) \<and> command_id k = i"
    and "k \<in> set (items l) \<Longrightarrow> is_global k = g"
proof -
  have ok: "list_ok command_id command_name l" using assms by (simp add: commands_ok_def)
  show "FindByName n l = Some k \<longleftrightarrow> k \<in> set (items l) \<and> command_name k = n"
    by (rule command_list.find_name_law [OF ok])
  show "FindById i l = Some k \<longleftrightarrow> k \<in> set (items l) \<and> command_id k = i"
    by (rule command_list.find_id_law [OF ok])
  show "k \<in> set (items l) \<Longrightarrow> is_global k = g" using assms by (simp add: commands_ok_def)
qed

lemma command_name_then_id:
  assumes "db_ok db" "CommandByName cluster d n db = Some k"
  shows "command_name k = n \<and> CommandById cluster (command_id k) (is_global k) d db = Some k"
proof (cases "GlobalCommandByName n db")
  case None
  with assms(2) obtain c where c: "ClusterById cluster db = Some c" "FindByName n (direction_commands d c) = Some k"
    by (auto simp: CommandByName_alt bind_eq_Some_conv)
  note ok = direction_commands_ok [OF found_cluster_ok [OF assms(1) c(1)], of d]
  from c(2) commands_ok_names [OF ok] have "k \<in> set (items (direction_commands d c))"
    "command_name k = n" "\<not> is_global k" by auto
  with c(1) commands_ok_names(2) [OF ok] show ?thesis by (simp add: CommandById_alt)
next
  case (Some k')
  with assms(2) have k: "FindByName n (global_commands db) = Some k"
    by (simp add: CommandByName_alt GlobalCommandByName_def)
  have ok: "commands_ok True (global_commands db)" using assms(1) by (simp add: db_ok_def)
  from k commands_ok_names [OF ok] show ?thesis
    by (auto simp: CommandById_alt GlobalCommandById_def)
qed

lemma command_id_then_name:
  assumes "db_ok db" "CommandById cluster i g d db = Some k"
  shows "command_id k = i \<and> is_global k = g \<and> CommandByName cluster d (command_name k) db
    = (case GlobalCommandByName (command_name k) db of Some k' \<Rightarrow> Some k' | None \<Rightarrow> Some k)"
proof (cases g)
  case True
  have ok: "commands_ok True (global_commands db)" using assms(1) by (simp add: db_ok_def)
  from True assms(2) commands_ok_names [OF ok] have k: "k \<in> set (items (global_commands db))"
    "command_id k = i" "is_global k"
    by (auto simp: CommandById_alt GlobalCommandById_def)
  then have "GlobalCommandByName (command_name k) db = Some k"
    by (simp add: GlobalCommandByName_def commands_ok_names(1) [OF ok])
  with True k show ?thesis by (simp add: CommandByName_alt)
next
  case False
  with assms(2) obtain c where c: "ClusterById cluster db = Some c" "FindById i (direction_commands d c) = Some k"
    by (auto simp: CommandById_alt bind_eq_Some_conv)
  note ok = direction_commands_ok [OF found_cluster_ok [OF assms(1) c(1)], of d]
  from c(2) commands_ok_names [OF ok] have "k \<in> set (items (direction_commands d c))"
    "command_id k = i" "\<not> is_global k" by auto
  with c(1) False commands_ok_names(1) [OF ok] show ?thesis
    by (simp add: CommandByName_alt split: option.splits)
qed

section \<open>Everything in the file is found\<close>

definition cluster_grows :: "ClusterInfo \<Rightarrow> ClusterInfo \<Rightarrow> bool" where
  "cluster_grows c c' \<longleftrightarrow> cluster_id c' = cluster_id c \<and> cluster_name c' = cluster_name c \<and>
     set (items (attributes c)) \<subseteq> set (items (attributes c')) \<and>
     (\<forall>d. set (items (direction_commands d c)) \<subseteq> set (items (direction_commands d c')))"

lemma cluster_grows_trans: "cluster_grows a b \<Longrightarrow> cluster_grows b c \<Longrightarrow> cluster_grows a c"
  unfolding cluster_grows_def by (metis (no_types, lifting) order_trans)

lemma cluster_grows_ParseSection: "cluster_grows c (fst (ParseSection m entry c))"
  using command_parser.loop_grows [of "commands_serverToClient c" False m "tree_children (snd entry)"]
    command_parser.loop_grows [of "commands_clientToServer c" False m "tree_children (snd entry)"]
    attribute_parser.loop_grows [of "attributes c" m "tree_children (snd entry)"]
  by (auto simp: ParseSection_def cluster_grows_def direction_commands_def case_prod_beta)

lemma cluster_grows_ParseSections: "cluster_grows c (fst (ParseSections m tree c))"
proof (induction m tree c rule: ParseSections.induct)
  case (1 m c)
  then show ?case by (simp add: cluster_grows_def)
next
  case (2 m entry tree c)
  with cluster_grows_ParseSection [of c m entry] show ?case
    by (auto split: prod.splits intro: cluster_grows_trans)
qed

lemma section_found:
  assumes "snd (ParseSections m tree c) = Inr True" "entry \<in> set tree"
  shows "\<exists>c1. snd (ParseSection m entry c1) = Inr True \<and>
    cluster_grows (fst (ParseSection m entry c1)) (fst (ParseSections m tree c))"
  using assms
proof (induction m tree c rule: ParseSections.induct)
  case (2 m e tree c)
  obtain c1 r where step: "ParseSection m e c = (c1, r)" by force
  with 2(2) have r: "r = Inr True" by (auto split: if_splits)
  show ?case
  proof (cases "entry = e")
    case True
    with step r cluster_grows_ParseSections [of c1 m tree] show ?thesis by (auto intro!: exI [of _ c])
  next
    case False
    with 2 step r show ?thesis by simp
  qed
qed simp

definition direction_name :: "ZclDirection \<Rightarrow> string" where
  "direction_name d = (if d = ZclDirection_ServerToClient then ''serverToClient'' else ''clientToServer'')"

lemma ParseSection_commands:
  assumes "snd (ParseSection m (''commands'', sec) c) = Inr True" "tree_data sec = direction_name d" "d \<le> 1"
    and "e \<in> set (tree_children sec)"
  shows "\<exists>k. command_entry False m e = Some k
    \<and> k \<in> set (items (direction_commands d (fst (ParseSection m (''commands'', sec) c))))"
proof -
  have "d = 0 \<or> d = 1" using assms(3) by (metis nle_le word_zero_le word_le_sub1 sub_wrap diff_self)
  then show ?thesis
  proof
    assume "d = 0"
    with assms show ?thesis
      using command_parser.loop_contents [of False m "tree_children sec" "commands_clientToServer c"]
      by (force simp: ParseSection_def direction_name_def direction_commands_def case_prod_beta list_all_iff
          command_parser.parsed_items_def)
  next
    assume "d = 1"
    with assms show ?thesis
      using command_parser.loop_contents [of False m "tree_children sec" "commands_serverToClient c"]
      by (force simp: ParseSection_def direction_name_def direction_commands_def case_prod_beta list_all_iff
          command_parser.parsed_items_def)
  qed
qed

lemma ParseSection_attributes:
  assumes "snd (ParseSection m (''attributes'', sec) c) = Inr True" "e \<in> set (tree_children sec)"
  shows "\<exists>a. attribute_entry m e = Some a
    \<and> a \<in> set (items (attributes (fst (ParseSection m (''attributes'', sec) c))))"
  using assms attribute_parser.loop_contents [of m "tree_children sec" "attributes c"]
  by (force simp: ParseSection_def case_prod_beta list_all_iff attribute_parser.parsed_items_def)

lemma clusters_grow:
  "set (items (clusters db)) \<subseteq> set (items (clusters (fst (ParseFromPTree m tree db))))"
proof (induction m tree db rule: ParseFromPTree.induct)
  case (2 m e tree db)
  have "set (items (clusters db)) \<subseteq> set (items (clusters (fst (ParseEntry m e db))))"
    using cluster_list.contents_grow
    by (auto simp: ParseEntry_def case_prod_beta split: sum.splits)
  with 2 show ?case by (auto split: prod.splits) blast
qed simp

lemma parsed_cluster:
  assumes "snd (ParseFromPTree m tree db) = Inr True" "e \<in> set tree" "fst e \<noteq> ''global''"
  shows "\<exists>n. stoul (fst e) 0 = Inr (n, length (fst e)) \<and> n \<le> 0xFFFF
    \<and> snd (ParseClusterInfoFromPTree m (snd e) (empty_cluster n)) = Inr True
    \<and> fst (ParseClusterInfoFromPTree m (snd e) (empty_cluster n))
        \<in> set (items (clusters (fst (ParseFromPTree m tree db))))"
  using assms(1,2)
proof (induction m tree db rule: ParseFromPTree.induct)
  case (2 m e' tree db)
  obtain db1 r where step: "ParseEntry m e' db = (db1, r)" by force
  with 2(2) have r: "r = Inr True" by (auto split: if_splits)
  show ?case
  proof (cases "e' = e")
    case True
    with step r assms(3) obtain n where n: "stoul (fst e) 0 = Inr (n, length (fst e))" "n \<le> 0xFFFF"
      and c: "snd (ParseClusterInfoFromPTree m (snd e) (empty_cluster n)) = Inr True"
      and add: "snd (Add cluster_id cluster_name (fst (ParseClusterInfoFromPTree m (snd e) (empty_cluster n))) (clusters db))"
      and db1: "db1 = db\<lparr> clusters := fst (Add cluster_id cluster_name
            (fst (ParseClusterInfoFromPTree m (snd e) (empty_cluster n))) (clusters db)) \<rparr>"
      by (auto simp: ParseEntry_def case_prod_beta not_less split: sum.splits if_splits)
    from add have "fst (ParseClusterInfoFromPTree m (snd e) (empty_cluster n)) \<in> set (items (clusters db1))"
      by (simp add: db1 cluster_list.contents_add)
    with clusters_grow [of db1 m tree] n c step r True show ?thesis by auto
  next
    case False
    with 2 step r show ?thesis by simp
  qed
qed simp

section \<open>Type expressions\<close>

text \<open>How a type is written in the file: the key of its entry and the children below it.\<close>

fun type_name_of :: "AnyType \<Rightarrow> string" where
  "type_name_of (ArrayType length_size t) =
     (if length_size = 0 then ''repeated:'' else if length_size = 1 then ''arr8:'' else ''arr16:'') @ type_name_of t"
| "type_name_of (ErrorOrType t) = ''error_or:'' @ type_name_of t"
| "type_name_of (ObjectType ps) = ''object''"
| "type_name_of VariantType = ''variant''"
| "type_name_of XiaomiFF01Type = []"
| "type_name_of (ZclType d) = enum_to_string DataType_table d"

fun type_children :: "AnyType \<Rightarrow> (string \<times> ptree) list" where
  "type_children (ArrayType length_size t) = type_children t"
| "type_children (ErrorOrType t) = type_children t"
| "type_children (ObjectType ps) = map (\<lambda>p. (type_name_of (snd p), Ptree (fst p) (type_children (snd p)))) ps"
| "type_children _ = []"

text \<open>The types a file can describe, and what the name mangler makes of them.\<close>

fun expressible :: "AnyType \<Rightarrow> bool" where
  "expressible (ArrayType length_size t) \<longleftrightarrow> length_size \<le> 2 \<and> expressible t"
| "expressible (ErrorOrType t) \<longleftrightarrow> expressible t"
| "expressible (ObjectType ps) \<longleftrightarrow> list_all (\<lambda>p. expressible (snd p)) ps"
| "expressible XiaomiFF01Type \<longleftrightarrow> False"
| "expressible _ \<longleftrightarrow> True"

fun mangled :: "mangler \<Rightarrow> AnyType \<Rightarrow> AnyType" where
  "mangled m (ArrayType length_size t) = ArrayType length_size (mangled m t)"
| "mangled m (ErrorOrType t) = ErrorOrType (mangled m t)"
| "mangled m (ObjectType ps) = ObjectType (map (\<lambda>p. (m (fst p), mangled m (snd p))) ps)"
| "mangled m t = t"

definition plain_name :: "string \<Rightarrow> bool" where
  "plain_name s \<longleftrightarrow> list_all (\<lambda>prefix. stringStartsWith s prefix = None)
     [''repeated:'', ''arr8:'', ''arr16:'', ''error_or:''] \<and> s \<noteq> ''object'' \<and> s \<noteq> ''variant''"

lemma plain_DataType_names: "list_all (\<lambda>(v, name). plain_name name) DataType_table"
  by code_simp

lemma plain_DataType: "plain_name (enum_to_string DataType_table d)"
proof (cases "map_of DataType_table d")
  case None
  then have "length (enum_to_string DataType_table d) = 2"
    using data_type.length_number [of d] by (simp add: enum_to_string_def enum_to_string_opt_def)
  then show ?thesis by (auto simp: plain_name_def stringStartsWith_def)
next
  case (Some name)
  with plain_DataType_names show ?thesis
    by (auto simp: enum_to_string_def enum_to_string_opt_def list_all_iff dest: map_of_SomeD)
qed

lemma stringStartsWith_append [simp]: "stringStartsWith (prefix @ s) prefix = Some s"
  by (simp add: stringStartsWith_def)

lemma stringStartsWith_mismatch:
  "stringStartsWith (''arr8:'' @ s) ''repeated:'' = None"
  "stringStartsWith (''arr16:'' @ s) ''repeated:'' = None"
  "stringStartsWith (''arr16:'' @ s) ''arr8:'' = None"
  "stringStartsWith (''error_or:'' @ s) ''repeated:'' = None"
  "stringStartsWith (''error_or:'' @ s) ''arr8:'' = None"
  "stringStartsWith (''error_or:'' @ s) ''arr16:'' = None"
  by (simp_all add: stringStartsWith_def)

lemma stringStartsWith_words:
  "p \<in> {''repeated:'', ''arr8:'', ''arr16:'', ''error_or:''} \<Longrightarrow>
   stringStartsWith ''object'' p = None \<and> stringStartsWith ''variant'' p = None"
  by (auto simp: stringStartsWith_def)

lemma ParseTypeFromPTree_written:
  "expressible t \<Longrightarrow> ParseTypeFromPTree m (type_name_of t) (Ptree d (type_children t)) = Some (mangled m t)"
proof (induction t arbitrary: d)
  case (ObjectType ps)
  have "ParseObjectTypeFromPTree m (map (\<lambda>p. (type_name_of (snd p), Ptree (fst p) (type_children (snd p)))) ps)
      = Some (map (\<lambda>p. (m (fst p), mangled m (snd p))) ps)"
    using ObjectType by (induction ps) (auto simp: snds.simps)
  then show ?case
    by (simp add: ParseTypeFromPTree.simps(1) [of m "''object''"] stringStartsWith_words)
next
  case (ZclType x)
  from plain_DataType [of x] show ?case
    by (simp add: plain_name_def ParseTypeFromPTree.simps(1) [of m "enum_to_string DataType_table x"]
        data_type.parse_printed)
next
  case (ArrayType length_size t)
  then have "length_size = 0 \<or> length_size = 1 \<or> length_size = 2" by auto
  with ArrayType show ?case
    by (auto simp: ParseTypeFromPTree.simps(1) [of m "_ @ _"] stringStartsWith_mismatch
        simp del: append.simps append_Cons append_Nil)
next
  case (ErrorOrType t)
  then show ?case
    by (auto simp: ParseTypeFromPTree.simps(1) [of m "_ @ _"] stringStartsWith_mismatch
        simp del: append.simps append_Cons append_Nil)
next
  case VariantType
  show ?case by (simp add: ParseTypeFromPTree.simps(1) [of m "''variant''"] stringStartsWith_words)
qed simp

section \<open>Properties\<close>

text \<open>
  C29: a database loaded from any files gives a command found by name back by its identifier, kind
  and direction; a command found by identifier is found by its name too, unless a global command
  has the same name, which then is found instead.
\<close>

theorem command_lookups_agree:
  "(case CommandByName cluster d n (loaded files) of None \<Rightarrow> True
    | Some k \<Rightarrow> command_name k = n \<and>
        CommandById cluster (command_id k) (is_global k) d (loaded files) = Some k) \<and>
   (case CommandById cluster i g d (loaded files) of None \<Rightarrow> True
    | Some k \<Rightarrow> command_id k = i \<and> is_global k = g \<and>
        CommandByName cluster d (command_name k) (loaded files) =
          (case GlobalCommandByName (command_name k) (loaded files) of Some k' \<Rightarrow> Some k' | None \<Rightarrow> Some k))"
  using command_name_then_id [OF db_ok_loaded, of cluster d n files]
    command_id_then_name [OF db_ok_loaded, of cluster i g d files]
  by (simp split: option.splits)

text \<open>
  C30: the command parser makes the list \<open>ks\<close> of an entry list exactly when every entry is
  well-formed, \<open>ks\<close> are the entries in the order of the file, and no identifier and no name
  occurs twice.
\<close>

theorem command_list_accepted:
  "(\<exists>l. ParseCommandListFromPTree g m tree empty_list = (l, Inr True) \<and> items l = ks) \<longleftrightarrow>
   map (command_entry g m) tree = map Some ks \<and>
   distinct (map command_id ks) \<and> distinct (map command_name ks)"
proof -
  have all: "map (command_entry g m) tree = map Some ks \<longleftrightarrow>
      list_all (\<lambda>e. command_entry g m e \<noteq> None) tree \<and> ks = command_parser.parsed_items g m tree"
    by (induction tree arbitrary: ks) (auto simp: Cons_eq_map_conv command_parser.parsed_items_def)
  show ?thesis
    unfolding all
    using command_parser.loop_accepts [of empty_list g m tree]
      command_parser.loop_contents [of g m tree empty_list]
    by (cases "ParseCommandListFromPTree g m tree empty_list")
      (auto simp: command_parser.well_formed_def)
qed

text \<open>
  When a file has been parsed, every command of a cluster's command section is found by the
  cluster's identifier, the direction of the section and the command's identifier.
\<close>

theorem listed_command_found:
  assumes "ParseFromStream m tree (loaded files) = (db, Inr True)"
    and "(key, cluster) \<in> set (tree_children tree)" "key \<noteq> ''global''"
    and "(''commands'', section) \<in> set (tree_children cluster)" "tree_data section = direction_name d" "d \<le> 1"
    and "entry \<in> set (tree_children section)"
  shows "\<exists>n k. stoul key 0 = Inr (n, length key) \<and> n \<le> 0xFFFF \<and> command_entry False m entry = Some k
    \<and> CommandById (word_of_nat n) (command_id k) False d db = Some k"
proof -
  have db: "db = fst (ParseFromPTree m (tree_children tree) (loaded files))"
    and ok: "snd (ParseFromPTree m (tree_children tree) (loaded files)) = Inr True"
    using assms(1) by (simp_all add: ParseFromStream_def)
  obtain n where n: "stoul key 0 = Inr (n, length key)" "n \<le> 0xFFFF"
    and sec: "snd (ParseClusterInfoFromPTree m cluster (empty_cluster n)) = Inr True"
    and c: "fst (ParseClusterInfoFromPTree m cluster (empty_cluster n)) \<in> set (items (clusters db))"
    using parsed_cluster [OF ok assms(2)] assms(3) db by auto
  let ?c = "fst (ParseClusterInfoFromPTree m cluster (empty_cluster n))"
  obtain c1 where c1: "snd (ParseSection m (''commands'', section) c1) = Inr True"
    "cluster_grows (fst (ParseSection m (''commands'', section) c1)) ?c"
    using section_found [of m "tree_children cluster" _ "(''commands'', section)"] sec assms(4)
    by (auto simp: ParseClusterInfoFromPTree_def)
  obtain k where k: "command_entry False m entry = Some k" "k \<in> set (items (direction_commands d ?c))"
    using ParseSection_commands [OF c1(1) assms(5-7)] c1(2) by (auto simp: cluster_grows_def)
  have "cluster_id ?c = word_of_nat n"
    using cluster_grows_ParseSections [of "empty_cluster n\<lparr> cluster_name := m (tree_data cluster) \<rparr>" m "tree_children cluster"]
    by (simp add: ParseClusterInfoFromPTree_def cluster_grows_def empty_cluster_def)
  moreover have dbok: "db_ok db" using db_ok_ParseFromPTree [OF db_ok_loaded] by (simp add: db)
  ultimately have found: "ClusterById (word_of_nat n) db = Some ?c"
    using c by (simp add: ClusterById_def db_ok_def cluster_list.find_id_law)
  have "commands_ok False (direction_commands d ?c)"
    by (rule direction_commands_ok [OF found_cluster_ok [OF dbok found]])
  with k(2) commands_ok_names(2) have "FindById (command_id k) (direction_commands d ?c) = Some k" by blast
  with found n k(1) show ?thesis by (auto simp: CommandById_alt)
qed

definition example_file :: ptree where
  "example_file = Ptree []
     [(''6'', Ptree ''OnOff'' [(''commands'', Ptree ''clientToServer'' [(''0x02'', Ptree ''Toggle'' [])])])]"

lemma stoul_examples: "stoul ''6'' 0 = Inr (6, 1)" "stoul ''0x02'' 0 = Inr (2, 4)"
  by (simp_all add: stoul_def Let_def is_space_def strtoul_base_def is_digit_in_def digit_value_def
      digits_value_def ULONG_MAX_def)

lemma example_file_parsed: "\<exists>db. ParseFromStream id example_file (loaded []) = (db, Inr True)"
  by (simp add: ParseFromStream_def example_file_def ParseEntry_def stoul_examples ParseSection_def
      ParseClusterInfoFromPTree_def empty_cluster_def Add_def empty_list_def loaded_def ClusterDb_ctor_def)

theorem listed_command_found_witness:
  "\<exists>db. ParseFromStream id example_file (loaded []) = (db, Inr True) \<and>
     CommandById 6 2 False ZclDirection_ClientToServer db
       = Some \<lparr> command_id = 2, command_name = ''Toggle'', is_global = False, command_data = [] \<rparr>"
proof -
  obtain db where db: "ParseFromStream id example_file (loaded []) = (db, Inr True)"
    using example_file_parsed by blast
  let ?section = "Ptree ''clientToServer'' [(''0x02'', Ptree ''Toggle'' [])]"
  have "\<exists>n k. stoul ''6'' 0 = Inr (n, length ''6'') \<and> n \<le> 0xFFFF \<and>
      command_entry False id (''0x02'', Ptree ''Toggle'' []) = Some k \<and>
      CommandById (word_of_nat n) (command_id k) False ZclDirection_ClientToServer db = Some k"
    by (rule listed_command_found [OF db, of _ "Ptree ''OnOff'' [(''commands'', ?section)]" ?section])
      (simp_all add: example_file_def direction_name_def)
  with db show ?thesis by (auto simp: stoul_examples command_entry_def)
qed

text \<open>
  C31: a type written as a type expression is parsed back to the same type, with its property
  names as the name mangler maps them, whatever names and nesting it has.
\<close>

theorem type_expression_round_trip:
  assumes "expressible t"
  shows "ParseTypeFromPTree m (type_name_of t) (Ptree d (type_children t)) = Some (mangled m t)"
  using assms by (rule ParseTypeFromPTree_written)

theorem type_expression_round_trip_witness:
  "ParseTypeFromPTree (map (\<lambda>c. if c = CHR ''/'' then CHR ''_'' else c)) ''repeated:object''
     (Ptree ''records'' [(''attribId'', Ptree ''a/b'' []), (''error_or:variant'', Ptree ''v'' [])])
   = Some (ArrayType 0 (ObjectType [(''a_b'', ZclType DataType_attribId), (''v'', ErrorOrType VariantType)]))"
proof -
  let ?t = "ArrayType 0 (ObjectType [(''a/b'', ZclType DataType_attribId), (''v'', ErrorOrType VariantType)])"
  have "expressible ?t" by simp
  from type_expression_round_trip [OF this, of "map (\<lambda>c. if c = CHR ''/'' then CHR ''_'' else c)" "''records''"]
  show ?thesis by (simp add: enum_to_string_def enum_to_string_opt_def DataType_table_def)
qed

end
