(* ===== verification/Floats.thy ===== *)
theory Floats
  imports Complex_Main Codec
begin

text \<open>
  \<open>FloatEncodeHelper\<close> of \<^verbatim>\<open>src/znp/encoding.h\<close>: IEEE numbers of \<open>MAN\<close> mantissa and \<open>EXP\<close>
  exponent bits in an unsigned integer.

  A \<open>float\<close> or \<open>double\<close> is a value of \<open>fp\<close>: the sign and the exact magnitude. In the three
  instances of the program (10 and 5 bits in a \<open>float\<close>, 23 and 8 in a \<open>float\<close>, 52 and 11 in a
  \<open>double\<close>) every quotient, product and difference the source computes is exact, because the
  divisors and factors are powers of two; the exception is \<open>std::log2\<close>, whose result is
  rounded. \<open>floor_log2\<close>, the floor of that result, is a parameter.
\<close>

datatype fp = NaN | Infinite bool | Finite (negative: bool) (magnitude: rat)

definition round_half_up :: "rat \<Rightarrow> nat" where
  "round_half_up x = nat \<lfloor>x + 1 / 2\<rfloor>"

definition float_word :: "nat \<Rightarrow> nat \<Rightarrow> bool \<Rightarrow> 'a::len word \<Rightarrow> 'a word \<Rightarrow> 'a word" where
  "float_word MAN EXP is_negative exponent mantissa =
     (if is_negative then push_bit (MAN + EXP) 1 else 0) OR push_bit MAN exponent OR mantissa"

definition normal_mantissa :: "nat \<Rightarrow> rat \<Rightarrow> error + 'a::len word" where
  "normal_mantissa MAN current_value =
     (if current_value \<ge> 1 then Inr (push_bit MAN 1 - 1)
      else if current_value \<ge> 0 then
        let mantissa = word_of_nat (round_half_up (current_value * 2 ^ MAN))
        in Inr (if drop_bit MAN mantissa > 0 then push_bit MAN 1 - 1 else mantissa)
      else Inl (Runtime_error ''Mantissa failure''))"

definition Float_bits :: "(rat \<Rightarrow> int) \<Rightarrow> nat \<Rightarrow> nat \<Rightarrow> fp \<Rightarrow> error + 'a::len word" where
  "Float_bits floor_log2 MAN EXP v = (case v of
       NaN \<Rightarrow> Inr (float_word MAN EXP False (word_of_nat (2 ^ EXP - 1)) 1)
     | Infinite s \<Rightarrow> Inr (float_word MAN EXP s (word_of_nat (2 ^ EXP - 1)) 0)
     | Finite s current_value \<Rightarrow>
         if current_value = 0 then Inr (float_word MAN EXP s 0 0)
         else let signed_exponent = floor_log2 current_value;
                  signed_exponent = (if current_value / 2 powi signed_exponent \<ge> 2
                                     then signed_exponent + 1 else signed_exponent);
                  half_exponent_range = int ((2 ^ EXP - 1) div 2);
                  unsigned_exponent = signed_exponent + half_exponent_range
              in if unsigned_exponent \<ge> 2 ^ EXP then
                   Inr (float_word MAN EXP s (push_bit EXP 1 - 2) (push_bit MAN 1 - 1))
                 else if unsigned_exponent \<le> 0 then
                   Inr (float_word MAN EXP s 0
                     (word_of_nat (round_half_up (current_value / 2 powi (- (half_exponent_range - 1)) * 2 ^ MAN))))
                 else res_bind (normal_mantissa MAN (current_value / 2 powi signed_exponent - 1))
                   (\<lambda>mantissa. Inr (float_word MAN EXP s (word_of_int unsigned_exponent) mantissa)))"

definition Float_value :: "nat \<Rightarrow> nat \<Rightarrow> 'a::len word \<Rightarrow> fp" where
  "Float_value MAN EXP raw_value =
     (let is_negative = drop_bit (MAN + EXP) raw_value \<noteq> 0;
          exponent = drop_bit MAN raw_value AND (push_bit EXP 1 - 1);
          half_exponent = int (2 ^ (EXP - 1) - 1);
          mantissa_divisor = 2 ^ MAN;
          mantissa = of_nat (unat (raw_value AND (push_bit MAN 1 - 1)))
      in if exponent = push_bit EXP 1 - 1 then
           if mantissa \<noteq> 0 then NaN else Infinite is_negative
         else if exponent = 0 then
           Finite is_negative (mantissa / mantissa_divisor * 2 powi (- (half_exponent - 1)))
         else
           Finite is_negative ((mantissa_divisor + mantissa) / mantissa_divisor
             * 2 powi (int (unat exponent) - half_exponent)))"

definition float_codec :: "(rat \<Rightarrow> int) \<Rightarrow> nat \<Rightarrow> nat \<Rightarrow> 'a::len itself \<Rightarrow> fp codec" where
  "float_codec floor_log2 MAN EXP IT = \<lparr>
     GetSize = (\<lambda>v. GetSize unsigned_codec (0 :: 'a word)),
     enc = (\<lambda>v sp. res_bind (Float_bits floor_log2 MAN EXP v) (\<lambda>encoded :: 'a word. enc unsigned_codec encoded sp)),
     dec = (\<lambda>bs. res_bind (dec unsigned_codec bs) (\<lambda>(raw_value :: 'a word, rest).
                   Inr (Float_value MAN EXP raw_value, rest))) \<rparr>"

text \<open>What \<open>std::log2\<close> promises up to its rounding: the floor is right.\<close>

definition exact_at :: "(rat \<Rightarrow> int) \<Rightarrow> rat \<Rightarrow> bool" where
  "exact_at floor_log2 x \<longleftrightarrow> 2 powi floor_log2 x \<le> x \<and> x < 2 powi (floor_log2 x + 1)"

section \<open>Fields of a word\<close>

lemma mask_word: "push_bit n 1 - 1 = (mask n :: 'a::len word)"
  by (simp add: mask_eq_exp_minus_1 push_bit_of_1)

lemma float_word_fields:
  fixes w :: "'a::len word"
  assumes "MAN + EXP + 1 = LENGTH('a)"
  shows "float_word MAN EXP (drop_bit (MAN + EXP) w \<noteq> 0) (take_bit EXP (drop_bit MAN w)) (take_bit MAN w) = w"
proof -
  have sign: "(drop_bit (MAN + EXP) w \<noteq> 0) = bit w (MAN + EXP)"
  proof
    assume "drop_bit (MAN + EXP) w \<noteq> 0"
    then obtain k where "bit (drop_bit (MAN + EXP) w) k" using bit_word_eqI [of "drop_bit (MAN + EXP) w" 0] by auto
    then have "bit w (MAN + EXP + k)" by (simp add: bit_drop_bit_eq)
    then have "k = 0" using assms bit_imp_le_length by fastforce
    with \<open>bit w (MAN + EXP + k)\<close> show "bit w (MAN + EXP)" by simp
  next
    assume "bit w (MAN + EXP)"
    then have "bit (drop_bit (MAN + EXP) w) 0" by (simp add: bit_drop_bit_eq)
    then show "drop_bit (MAN + EXP) w \<noteq> 0" by auto
  qed
  show ?thesis
  proof (rule bit_word_eqI)
    fix k assume "k < LENGTH('a)"
    then have "k < MAN \<or> MAN \<le> k \<and> k - MAN < EXP \<or> k = MAN + EXP" using assms by arith
    then show "bit (float_word MAN EXP (drop_bit (MAN + EXP) w \<noteq> 0) (take_bit EXP (drop_bit MAN w))
        (take_bit MAN w)) k = bit w k"
      using \<open>k < LENGTH('a)\<close> unfolding sign float_word_def by (auto simp: bit_simps)
  qed
qed

section \<open>Encoding undoes decoding\<close>

lemma powi_bounds_unique:
  assumes "2 powi a \<le> (x :: rat)" "x < 2 powi (a + 1)" "2 powi b \<le> x" "x < 2 powi (b + 1)"
  shows "a = b"
proof -
  have "c \<le> d" if "2 powi c \<le> x" "x < 2 powi (d + 1)" for c d
  proof (rule ccontr)
    assume "\<not> c \<le> d"
    then have "2 powi (d + 1) \<le> (2 powi c :: rat)" by (intro power_int_increasing) auto
    with that show False by linarith
  qed
  with assms show ?thesis by (meson order_antisym)
qed

lemma exact_at_unique:
  "exact_at floor_log2 x \<Longrightarrow> 2 powi k \<le> x \<Longrightarrow> x < 2 powi (k + 1) \<Longrightarrow> floor_log2 x = k"
  unfolding exact_at_def by (metis powi_bounds_unique)

lemma exact_at_quotient: "exact_at floor_log2 x \<Longrightarrow> x / 2 powi floor_log2 x < 2"
  by (simp add: exact_at_def power_int_add divide_simps mult.commute)

lemma half_ranges: "1 \<le> EXP \<Longrightarrow> (2 ^ EXP - 1) div 2 = (2 ^ (EXP - 1) - 1 :: nat)"
  by (cases EXP) auto

lemma round_half_up_nat [simp]: "round_half_up (of_nat n) = n"
proof -
  have "\<lfloor>of_nat n + 1 / 2 :: rat\<rfloor> = int n" by (simp add: floor_unique)
  then show ?thesis by (simp add: round_half_up_def)
qed

lemma round_half_up_unsigned [simp]: "round_half_up (unsigned (w :: 'a::len word)) = unat w"
  using round_half_up_nat [of "unat w"] by simp

lemma unsigned_rat_nonneg [simp]: "0 \<le> (unsigned (w :: 'a::len word) :: rat)"
  using of_nat_0_le_iff [of "unat w", where 'a = rat] by simp

lemma unat_take_bit_less: "n < LENGTH('a) \<Longrightarrow> unat (take_bit n (w :: 'a::len word)) < 2 ^ n"
  by (simp add: unsigned_take_bit_eq)

lemma Float_value_fields:
  "Float_value MAN EXP (w :: 'a::len word) =
     (let s = drop_bit (MAN + EXP) w \<noteq> 0; e = take_bit EXP (drop_bit MAN w); m = take_bit MAN w;
          half = int (2 ^ (EXP - 1) - 1)
      in if e = mask EXP then if m \<noteq> 0 then NaN else Infinite s
         else if e = 0 then Finite s (of_nat (unat m) / 2 ^ MAN * 2 powi (- (half - 1)))
         else Finite s ((2 ^ MAN + of_nat (unat m)) / 2 ^ MAN * 2 powi (int (unat e) - half)))"
proof -
  have "(of_nat (unat m) = (0 :: rat)) = (m = 0)" for m :: "'a word" by (simp add: unsigned_eq_0_iff)
  then show ?thesis by (simp only: Float_value_def Let_def mask_word take_bit_eq_mask [symmetric])
qed

lemma less_power_rat: "n < 2 ^ k \<Longrightarrow> rat_of_nat n < 2 ^ k"
  by (metis of_nat_less_iff of_nat_numeral of_nat_power)

lemma subnormal_bits:
  fixes m :: "'a::len word"
  assumes "MAN < LENGTH('a)" "1 < EXP" "M = unat (take_bit MAN m)" "M \<noteq> 0"
    and mag: "mag = of_nat M / 2 ^ MAN * 2 powi (- (int (2 ^ (EXP - 1) - 1) - 1))"
    and "exact_at floor_log2 mag"
  shows "Float_bits floor_log2 MAN EXP (Finite s mag) = Inr (float_word MAN EXP s 0 (take_bit MAN m))"
proof -
  let ?half = "int (2 ^ (EXP - 1) - 1)"
  have "M < 2 ^ MAN" using unat_take_bit_less [OF assms(1), of m] assms(3) by simp
  then have M: "of_nat M / 2 ^ MAN < (1 :: rat)" by (simp add: less_power_rat)
  have "mag < 2 powi (- (?half - 1))"
    unfolding mag using mult_strict_right_mono [OF M, of "2 powi (- (?half - 1))"] by simp
  then have small: "floor_log2 mag < - (?half - 1)"
    using assms(6) power_int_increasing [of "- (?half - 1)" "floor_log2 mag" "2 :: rat"]
    by (force simp: exact_at_def not_le)
  have "mag \<noteq> 0" using assms(4) by (simp add: mag)
  moreover have "\<not> 2 \<le> mag / 2 powi floor_log2 mag" using exact_at_quotient [OF assms(6)] by simp
  moreover have "mag / 2 powi (- (?half - 1)) * 2 ^ MAN = of_nat M"
    by (simp add: mag)
  moreover have "\<not> 2 ^ EXP \<le> floor_log2 mag + ?half" 
  proof -
    have "(0 :: int) < 2 ^ EXP" by simp
    with small show ?thesis by linarith
  qed
  ultimately show ?thesis
    using small assms(2,3) half_ranges [of EXP] by (simp add: Float_bits_def Let_def)
qed

lemma normal_bits:
  fixes e m :: "'a::len word"
  assumes "MAN < LENGTH('a)" "1 < EXP" "M = unat (take_bit MAN m)" "E = unat e" "0 < E" "E < 2 ^ EXP"
    and mag: "mag = (2 ^ MAN + of_nat M) / 2 ^ MAN * 2 powi (int E - int (2 ^ (EXP - 1) - 1))"
    and "exact_at floor_log2 mag"
  shows "Float_bits floor_log2 MAN EXP (Finite s mag) = Inr (float_word MAN EXP s e (take_bit MAN m))"
proof -
  let ?k = "int E - int (2 ^ (EXP - 1) - 1)"
  have "M < 2 ^ MAN" using unat_take_bit_less [OF assms(1), of m] assms(3) by simp
  then have M: "of_nat M / 2 ^ MAN < (1 :: rat)" by (simp add: less_power_rat)
  have mag': "mag = (1 + of_nat M / 2 ^ MAN) * 2 powi ?k" by (simp add: mag add_divide_distrib)
  have "2 powi ?k \<le> mag" unfolding mag' by simp
  moreover have "mag < 2 powi (?k + 1)"
  proof -
    have "mag < 2 * 2 powi ?k" unfolding mag' using M by (intro mult_strict_right_mono) auto
    also have "2 * 2 powi ?k = (2 powi (?k + 1) :: rat)" by (subst power_int_add) simp_all
    finally show ?thesis .
  qed
  ultimately have k: "floor_log2 mag = ?k" by (rule exact_at_unique [OF assms(8)])
  have "0 < mag" unfolding mag' by (intro mult_pos_pos add_pos_nonneg) simp_all
  then have "mag \<noteq> 0" by simp
  moreover have cv: "mag / 2 powi ?k = 1 + of_nat M / 2 ^ MAN" unfolding mag' by simp
  moreover have "normal_mantissa MAN (of_nat M / 2 ^ MAN) = Inr (take_bit MAN m)"
  proof -
    have "drop_bit MAN (take_bit MAN m) = 0" by (simp add: drop_bit_take_bit)
    with M assms(3) show ?thesis by (simp add: normal_mantissa_def Let_def)
  qed
  moreover have "\<not> 2 ^ EXP \<le> int E" using assms(6) by (simp add: not_le)
  moreover have "word_of_int (int E) = e" using assms(4) by simp
  ultimately show ?thesis
    using M assms(2,5) half_ranges [of EXP] k by (simp add: Float_bits_def Let_def)
qed

lemma Float_bits_value:
  fixes w :: "'a::len word"
  assumes layout: "MAN + EXP + 1 = LENGTH('a)" "0 < MAN" "1 < EXP"
    and "Float_value MAN EXP w \<noteq> NaN"
    and "\<And>s mag. Float_value MAN EXP w = Finite s mag \<Longrightarrow> mag \<noteq> 0 \<Longrightarrow> exact_at floor_log2 mag"
  shows "Float_bits floor_log2 MAN EXP (Float_value MAN EXP w) = Inr w"
proof -
  let ?s = "drop_bit (MAN + EXP) w \<noteq> 0" and ?e = "take_bit EXP (drop_bit MAN w)" and ?m = "take_bit MAN w"
  let ?half = "int (2 ^ (EXP - 1) - 1)"
  note w = float_word_fields [OF layout(1), symmetric]
  have sizes: "MAN < LENGTH('a)" "EXP < LENGTH('a)" using layout by auto
  have e: "unat ?e < 2 ^ EXP" by (rule unat_take_bit_less [OF sizes(2)])
  consider (inf) "?e = mask EXP" "?m = 0" | (sub) "?e = 0" "?e \<noteq> mask EXP"
    | (normal) "?e \<noteq> 0" "?e \<noteq> mask EXP"
    using assms(4) by (auto simp: Float_value_fields Let_def split: if_splits)
  then show ?thesis
  proof cases
    case inf
    have "word_of_nat (2 ^ EXP - 1) = (mask EXP :: 'a word)"
      by (simp add: mask_eq_exp_minus_1 of_nat_diff)
    with inf have "Float_bits floor_log2 MAN EXP (Float_value MAN EXP w) = Inr (float_word MAN EXP ?s ?e ?m)"
      by (simp add: Float_value_fields Let_def Float_bits_def)
    then show ?thesis by (simp flip: w)
  next
    case sub
    let ?mag = "of_nat (unat ?m) / 2 ^ MAN * 2 powi (- (?half - 1)) :: rat"
    have v: "Float_value MAN EXP w = Finite ?s ?mag"
      using sub by (simp only: Float_value_fields Let_def if_False if_True simp_thms)
    have "Float_bits floor_log2 MAN EXP (Finite ?s ?mag) = Inr (float_word MAN EXP ?s 0 ?m)"
    proof (cases "unat ?m = 0")
      case True
      then show ?thesis by (simp add: Float_bits_def unsigned_eq_0_iff)
    next
      case False
      moreover have "of_nat (unat ?m) \<noteq> (0 :: rat)" using False by (simp only: of_nat_eq_0_iff not_False_eq_True)
      then have "?mag \<noteq> 0" by simp
      with assms(5) v have "exact_at floor_log2 ?mag" by auto
      ultimately show ?thesis by (intro subnormal_bits [OF sizes(1) layout(3) refl _ refl])
    qed
    moreover have "float_word MAN EXP ?s 0 ?m = w" using w sub(1) by metis
    ultimately show ?thesis by (simp only: v)
  next
    case normal
    let ?mag = "(2 ^ MAN + of_nat (unat ?m)) / 2 ^ MAN * 2 powi (int (unat ?e) - ?half) :: rat"
    have v: "Float_value MAN EXP w = Finite ?s ?mag"
      using normal by (simp only: Float_value_fields Let_def if_False simp_thms)
    have "0 < ?mag" by (intro mult_pos_pos divide_pos_pos add_pos_nonneg) simp_all
    then have exact: "exact_at floor_log2 ?mag" by (intro assms(5) [OF v] less_imp_neq [THEN not_sym])
    have "0 < unat ?e" using normal(1) by (simp add: unat_gt_0)
    from normal_bits [OF sizes(1) layout(3) refl refl this e refl exact]
    have "Float_bits floor_log2 MAN EXP (Finite ?s ?mag) = Inr (float_word MAN EXP ?s ?e ?m)" .
    with v show ?thesis by (simp flip: w)
  qed
qed

section \<open>A logarithm that is rounded up\<close>

text \<open>The result of \<open>std::log2\<close> may be rounded up to the next integer, but not further.\<close>

definition near_at :: "(rat \<Rightarrow> int) \<Rightarrow> rat \<Rightarrow> bool" where
  "near_at floor_log2 x \<longleftrightarrow> 2 powi (floor_log2 x - 1) \<le> x \<and> x < 2 powi (floor_log2 x + 1)"

lemma Float_bits_near:
  assumes "near_at floor_log2 x" "\<not> exact_at floor_log2 x" "x \<noteq> 0"
    and "floor_log2 x + int ((2 ^ EXP - 1) div 2) < 2 ^ EXP"
    and "Float_bits floor_log2 MAN EXP (Finite s x) = Inr (w :: 'a::len word)"
  shows "Float_bits (\<lambda>_. floor_log2 x - 1) MAN EXP (Finite s x) = Inr w"
proof -
  let ?k = "floor_log2 x" and ?half = "int ((2 ^ EXP - 1) div 2)"
  have x: "x < 2 powi ?k" "2 powi (?k - 1) \<le> x" using assms(1,2) by (auto simp: near_at_def exact_at_def)
  define cv where "cv = x / 2 powi ?k"
  have cv: "cv < 1" using x(1) by (simp add: cv_def)
  then have "\<not> 2 \<le> cv" by linarith
  then have bits: "Float_bits floor_log2 MAN EXP (Finite s x) =
      (if ?k + ?half \<le> 0 then Inr (float_word MAN EXP s 0
         (word_of_nat (round_half_up (x / 2 powi (- (?half - 1)) * 2 ^ MAN))))
       else res_bind (normal_mantissa MAN (cv - 1)) (\<lambda>m. Inr (float_word MAN EXP s (word_of_int (?k + ?half)) m :: 'a word)))"
    using assms(3,4) by (simp add: Float_bits_def Let_def cv_def)
  have "normal_mantissa MAN (cv - 1) = (Inl (Runtime_error ''Mantissa failure'') :: error + 'a word)"
    using cv by (simp add: normal_mantissa_def)
  with bits assms(5) have low: "?k + ?half \<le> 0" by (auto split: if_splits)
  define cv' where "cv' = x / 2 powi (?k - 1)"
  have "2 powi ?k = (2 * 2 powi (?k - 1) :: rat)" by (simp add: power_int_diff)
  with x(1) have "cv' < 2" by (simp add: cv'_def divide_simps mult.commute)
  then have "\<not> 2 \<le> cv'" by linarith
  moreover have "\<not> 2 ^ EXP \<le> ?k - 1 + ?half" using assms(4) by linarith
  ultimately show ?thesis
    using bits low assms(3,5) by (simp add: Float_bits_def Let_def flip: cv'_def)
qed

lemma Float_value_bound:
  fixes w :: "'a::len word"
  assumes "MAN + EXP + 1 = LENGTH('a)" "1 < EXP" "Float_value MAN EXP w = Finite s mag" "near_at floor_log2 mag"
  shows "floor_log2 mag + int ((2 ^ EXP - 1) div 2) < 2 ^ EXP"
proof -
  let ?e = "take_bit EXP (drop_bit MAN w)" and ?m = "take_bit MAN w" and ?half = "int (2 ^ (EXP - 1) - 1)"
  have sizes: "MAN < LENGTH('a)" "EXP < LENGTH('a)" using assms(1,2) by auto
  have M: "of_nat (unat ?m) / 2 ^ MAN < (1 :: rat)"
    using less_power_rat [OF unat_take_bit_less [OF sizes(1), of w]] by simp
  have e: "unat ?e < 2 ^ EXP" by (rule unat_take_bit_less [OF sizes(2)])
  have half: "(2 ^ EXP - 1) div 2 = (2 ^ (EXP - 1) - 1 :: nat)" using assms(2) by (intro half_ranges) simp
  obtain k where k: "mag < 2 powi (k + 1)" "k + ?half < 2 ^ EXP - 1"
  proof (cases "?e = 0")
    case True
    then have "mag = of_nat (unat ?m) / 2 ^ MAN * 2 powi (- (?half - 1))"
      using assms(3) by (auto simp: Float_value_fields Let_def split: if_splits)
    also have "\<dots> < 1 * 2 powi (- (?half - 1))" using M by (intro mult_strict_right_mono) auto
    finally have "mag < 2 powi (- ?half + 1)" by simp
    moreover have "- ?half + ?half < 2 ^ EXP - 1"
      using assms(2) one_less_power [of "2 :: int" EXP] by simp
    ultimately show ?thesis by (rule that)
  next
    case False
    have neq: "?e \<noteq> mask EXP" using assms(3) False by (auto simp: Float_value_fields Let_def split: if_splits)
    have mag: "mag = (2 ^ MAN + of_nat (unat ?m)) / 2 ^ MAN * 2 powi (int (unat ?e) - ?half)"
      using assms(3) False by (auto simp: Float_value_fields Let_def split: if_splits)
    then have "mag = (1 + of_nat (unat ?m) / 2 ^ MAN) * 2 powi (int (unat ?e) - ?half)"
      by (simp add: add_divide_distrib)
    also have "\<dots> < 2 * 2 powi (int (unat ?e) - ?half)" using M by (intro mult_strict_right_mono) auto
    also have "\<dots> = 2 powi (int (unat ?e) - ?half + 1)" by (subst power_int_add) simp_all
    finally have below: "mag < 2 powi (int (unat ?e) - ?half + 1)" .
    have "unat ?e \<noteq> 2 ^ EXP - 1"
    proof
      assume "unat ?e = 2 ^ EXP - 1"
      moreover have "?e = word_of_nat (unat ?e)" by simp
      ultimately have "?e = word_of_nat (2 ^ EXP - 1)" by metis
      with neq show False by (simp add: mask_eq_exp_minus_1 of_nat_diff)
    qed
    with e have "unat ?e < 2 ^ EXP - 1" by linarith
    then have "int (unat ?e) < int (2 ^ EXP - 1)" by (simp only: of_nat_less_iff)
    moreover have "int (2 ^ EXP - 1) = 2 ^ EXP - 1" by (simp add: of_nat_diff)
    ultimately have "int (unat ?e) - ?half + ?half < 2 ^ EXP - 1" by linarith
    with below show ?thesis by (rule that)
  qed
  have "2 powi (floor_log2 mag - 1) < (2 powi (k + 1) :: rat)"
    using k(1) assms(4) by (simp add: near_at_def)
  then have "floor_log2 mag - 1 < k + 1"
    using power_int_increasing [of "k + 1" "floor_log2 mag - 1" "2 :: rat"] by (force simp: not_less)
  with k(2) half show ?thesis by simp
qed

lemma Float_reread:
  fixes w w' :: "'a::len word"
  assumes layout: "MAN + EXP + 1 = LENGTH('a)" "0 < MAN" "1 < EXP"
    and near: "\<And>x. 0 < x \<Longrightarrow> near_at floor_log2 x"
    and bits: "Float_bits floor_log2 MAN EXP (Float_value MAN EXP w) = Inr w'"
  shows "Float_value MAN EXP w' = Float_value MAN EXP w"
proof (cases "Float_value MAN EXP w")
  case NaN
  have "w' = float_word MAN EXP False (word_of_nat (2 ^ EXP - 1)) 1" using bits NaN by (simp add: Float_bits_def)
  also have "\<dots> = push_bit MAN (mask EXP) OR 1" by (simp add: float_word_def mask_eq_exp_minus_1 of_nat_diff)
  finally have w': "w' = push_bit MAN (mask EXP) OR 1" .
  have "take_bit EXP (drop_bit MAN w') = mask EXP"
  proof (rule bit_word_eqI)
    fix k assume "k < LENGTH('a)"
    show "bit (take_bit EXP (drop_bit MAN w')) k \<longleftrightarrow> bit (mask EXP :: 'a word) k"
      using layout by (auto simp: w' bit_take_bit_iff bit_drop_bit_eq bit_mask_iff bit_or_iff bit_push_bit_iff bit_1_iff)
  qed
  moreover have "bit (take_bit MAN w') 0"
    using layout by (simp add: w' bit_take_bit_iff bit_or_iff)
  moreover from this have "take_bit MAN w' \<noteq> 0" by auto
  ultimately show ?thesis using NaN by (simp add: Float_value_fields Let_def)
next
  case (Infinite s)
  with bits Float_bits_value [OF layout, of w floor_log2] show ?thesis by simp
next
  case (Finite s mag)
  have "0 \<le> mag"
  proof -
    have "0 \<le> of_nat (unat m) / 2 ^ MAN * (2 powi k :: rat)" "0 \<le> (2 ^ MAN + of_nat (unat m)) / 2 ^ MAN * (2 powi k :: rat)"
      for m :: "'a word" and k by (intro mult_nonneg_nonneg; simp)+
    with Finite show ?thesis
      unfolding Float_value_fields Let_def by (simp only: fp.inject fp.distinct split: if_splits) metis+
  qed
  define g where "g = (if mag = 0 \<or> exact_at floor_log2 mag then floor_log2 else (\<lambda>_. floor_log2 mag - 1))"
  have g: "exact_at g mag" if "mag \<noteq> 0"
    using near [of mag] \<open>0 \<le> mag\<close> that by (auto simp: g_def near_at_def exact_at_def not_le)
  have "Float_bits g MAN EXP (Finite s mag) = Inr w'"
  proof (cases "mag = 0 \<or> exact_at floor_log2 mag")
    case True
    with bits Finite show ?thesis by (simp add: g_def)
  next
    case False
    with near [of mag] \<open>0 \<le> mag\<close> have "near_at floor_log2 mag" by simp
    from Float_bits_near [OF this] Float_value_bound [OF layout(1,3) Finite this] False bits Finite show ?thesis
      by (simp add: g_def)
  qed
  moreover have "Float_bits g MAN EXP (Float_value MAN EXP w) = Inr w"
    using g Finite by (intro Float_bits_value [OF layout]) auto
  ultimately show ?thesis using Finite by simp
qed

section \<open>Properties\<close>

text \<open>
  C35: an encoded number that is decoded and encoded again gives the same bytes, in every layout and
  for every value but the NaNs, when the floor of \<open>std::log2\<close> is right for that value.
\<close>

theorem float_round_trip:
  assumes "MAN + EXP + 1 = LENGTH('a::len)" "0 < MAN" "1 < EXP" "8 dvd LENGTH('a)"
    and "Decode (float_codec floor_log2 MAN EXP TYPE('a)) bs = Inr v" "v \<noteq> NaN"
    and "\<And>s mag. v = Finite s mag \<Longrightarrow> mag \<noteq> 0 \<Longrightarrow> exact_at floor_log2 mag"
  shows "Encode (float_codec floor_log2 MAN EXP TYPE('a)) v = Inr bs"
proof -
  obtain w :: "'a word" where w: "Decode unsigned_codec bs = Inr w" and v: "v = Float_value MAN EXP w"
    using assms(5) by (auto simp: Decode_def float_codec_def res_bind_eq_Inr split: if_splits)
  have "Float_bits floor_log2 MAN EXP v = Inr w"
    unfolding v by (rule Float_bits_value [OF assms(1-3)]) (use assms(6,7) v in auto)
  moreover have "Encode (unsigned_codec :: 'a word codec) w = Inr bs"
    by (rule canonical_codec.decode_then_encode [OF unsigned_codec_canonical [OF assms(4)] w])
  moreover have "GetSize (unsigned_codec :: 'a word codec) 0 = GetSize unsigned_codec w"
    by (simp add: unsigned_codec_def)
  ultimately show ?thesis by (simp add: Encode_def float_codec_def)
qed

text \<open>
  A number from 65536 to below 131072 is too large for a half-precision number, but it is not
  encoded as the largest one: its exponent field gets all ones, so it is read back as an infinity or
  as NaN.
\<close>

theorem semi_overflow_not_saturated:
  assumes "exact_at floor_log2 mag" "65536 \<le> mag" "mag < 131072"
  shows "\<exists>w :: 16 word. Float_bits floor_log2 10 5 (Finite s mag) = Inr w
    \<and> Float_value 10 5 w \<in> {NaN, Infinite s}"
proof -
  have k: "floor_log2 mag = 16" using assms(2,3) by (intro exact_at_unique [OF assms(1)]) simp_all
  define cv where "cv = mag / 65536 - 1"
  have cv: "0 \<le> cv" "cv < 1" using assms(2,3) by (auto simp: cv_def)
  obtain m :: "16 word" where m: "normal_mantissa 10 cv = Inr m" "drop_bit 10 m = 0"
  proof -
    have "drop_bit 10 (0x3FF :: 16 word) = 0" by simp
    then show ?thesis using cv that by (auto simp: normal_mantissa_def Let_def word_gt_0 split: if_splits)
  qed
  have "Float_bits floor_log2 10 5 (Finite s mag) = Inr (float_word 10 5 s (31 :: 16 word) m)"
    using assms(2,3) m(1) by (simp add: Float_bits_def Let_def k cv_def)
  moreover have "Float_value 10 5 (float_word 10 5 s (31 :: 16 word) m) \<in> {NaN, Infinite s}"
  proof -
    have "m = take_bit 10 m" using m(2) bits_ident [of 10 m] by simp
    then obtain m0 where m0: "m = take_bit 10 m0" by blast
    have "take_bit 5 (drop_bit 10 (float_word 10 5 s (31 :: 16 word) m)) = mask 5"
      "drop_bit 15 (float_word 10 5 s (31 :: 16 word) m) = (if s then 1 else 0)"
      unfolding m0 float_word_def by (simp_all add: drop_bit_or take_bit_or drop_bit_take_bit mask_eq_exp_minus_1)
    then show ?thesis by (simp add: Float_value_fields Let_def)
  qed
  ultimately show ?thesis by blast
qed

text \<open>
  A number just below a power of two whose logarithm is rounded up to that power is refused
  with \<open>Mantissa failure\<close>, although it can be represented.
\<close>

theorem rounded_log2_refused:
  assumes "0 < mag" "mag < 2 powi floor_log2 mag"
    and "0 < floor_log2 mag + int ((2 ^ EXP - 1) div 2)" "floor_log2 mag + int ((2 ^ EXP - 1) div 2) < 2 ^ EXP"
  shows "Encode (float_codec floor_log2 MAN EXP TYPE('a::len)) (Finite s mag) = Inl (Runtime_error ''Mantissa failure'')"
proof -
  define cv where "cv = mag / 2 powi floor_log2 mag"
  have "cv < 1" using assms(2) by (simp add: cv_def)
  then have "normal_mantissa MAN (cv - 1) = (Inl (Runtime_error ''Mantissa failure'') :: error + 'a word)"
    by (simp add: normal_mantissa_def)
  moreover have "\<not> 2 \<le> cv" using \<open>cv < 1\<close> by linarith
  ultimately have "Float_bits floor_log2 MAN EXP (Finite s mag)
      = (Inl (Runtime_error ''Mantissa failure'') :: error + 'a word)"
    using assms(1,3,4) by (simp add: Float_bits_def Let_def cv_def)
  then show ?thesis by (simp add: Encode_def float_codec_def unsigned_codec_def)
qed

section \<open>Examples\<close>

lemma semi_example: "Decode (float_codec (\<lambda>_. 6) 10 5 TYPE(16)) [0xB6, 0x57] = Inr (Finite False (987 / 8))"
proof -
  have "Decode unsigned_codec [0xB6, 0x57] = Inr (0x57B6 :: 16 word)"
    by (simp add: Decode_def codec_simps)
  then show ?thesis
    by (auto simp: Decode_def float_codec_def res_bind_eq_Inr Float_value_def Let_def split: if_splits)
qed

theorem float_round_trip_witness:
  "Encode (float_codec (\<lambda>_. 6) 10 5 TYPE(16)) (Finite False (987 / 8)) = Inr [0xB6, 0x57]"
  by (rule float_round_trip [OF _ _ _ _ semi_example]) (auto simp: exact_at_def)

theorem semi_overflow_not_saturated_witness:
  "\<exists>w :: 16 word. Float_bits (\<lambda>_. 16) 10 5 (Finite True 100000) = Inr w \<and> Float_value 10 5 w \<in> {NaN, Infinite True}"
  by (rule semi_overflow_not_saturated) (simp_all add: exact_at_def)

theorem rounded_log2_refused_witness:
  "Encode (float_codec (\<lambda>_. 10) 52 11 TYPE(64)) (Finite False (1024 - 1 / 2 ^ 43))
     = Inl (Runtime_error ''Mantissa failure'')"
  by (rule rounded_log2_refused) (simp_all add: power_int_def)

end
