(* ===== verification/Json.thy ===== *)
theory Json
  imports Floats
begin

text \<open>
  The JSON values of \<^verbatim>\<open>tao::json\<close> that the hub builds and inspects. The constructors are the
  library's value kinds, with the width the library stores; an object is a \<open>std::map\<close>, here the
  list of its members in the order of the keys. What the library computes when a value is
  converted to a C++ type (\<open>as<T>()\<close>) or to text is a parameter of the model, the record
  \<open>json_library\<close>; the accessors below only look at the kind.
\<close>

datatype json =
    JNull
  | JBool bool
  | JSigned "64 word"
  | JUnsigned "64 word"
  | JDouble fp
  | JString string
  | JArray "json list"
  | JObject "(string \<times> json) list"

record json_library =
  as_unsigned_int :: "json \<Rightarrow> error + 32 word"
  as_uint64 :: "json \<Rightarrow> error + 64 word"
  as_int64 :: "json \<Rightarrow> error + 64 word"
  as_bool :: "json \<Rightarrow> error + bool"
  as_string :: "json \<Rightarrow> error + string"
  as_float :: "json \<Rightarrow> error + fp"
  as_double :: "json \<Rightarrow> error + fp"
  to_string :: "json \<Rightarrow> string"

text \<open>
  What the hub relies on: the conversion of a value to the type it was made of gives it back. A
  \<open>float\<close> is stored as the \<open>double\<close> of the same value.
\<close>

definition library_laws :: "json_library \<Rightarrow> bool" where
  "library_laws lib \<longleftrightarrow>
     (\<forall>w. as_unsigned_int lib (JUnsigned (ucast w)) = Inr w) \<and> (\<forall>w. as_uint64 lib (JUnsigned w) = Inr w) \<and>
     (\<forall>w. as_int64 lib (JSigned w) = Inr w) \<and> (\<forall>b. as_bool lib (JBool b) = Inr b) \<and>
     (\<forall>s. as_string lib (JString s) = Inr s) \<and> (\<forall>x. as_double lib (JDouble x) = Inr x) \<and>
     (\<forall>w :: 16 word. as_float lib (JDouble (Float_value 10 5 w)) = Inr (Float_value 10 5 w)) \<and>
     (\<forall>w :: 32 word. as_float lib (JDouble (Float_value 23 8 w)) = Inr (Float_value 23 8 w))"

text \<open>A library without conversions between kinds, for examples.\<close>

definition strict_library :: "(json \<Rightarrow> string) \<Rightarrow> json_library" where
  "strict_library text_of = \<lparr>
     as_unsigned_int = (\<lambda>v. case v of JUnsigned w \<Rightarrow> Inr (ucast w) | _ \<Rightarrow> Inl Wrong_json_kind),
     as_uint64 = (\<lambda>v. case v of JUnsigned w \<Rightarrow> Inr w | _ \<Rightarrow> Inl Wrong_json_kind),
     as_int64 = (\<lambda>v. case v of JSigned w \<Rightarrow> Inr w | _ \<Rightarrow> Inl Wrong_json_kind),
     as_bool = (\<lambda>v. case v of JBool b \<Rightarrow> Inr b | _ \<Rightarrow> Inl Wrong_json_kind),
     as_string = (\<lambda>v. case v of JString s \<Rightarrow> Inr s | _ \<Rightarrow> Inl Wrong_json_kind),
     as_float = (\<lambda>v. case v of JDouble x \<Rightarrow> Inr x | _ \<Rightarrow> Inl Wrong_json_kind),
     as_double = (\<lambda>v. case v of JDouble x \<Rightarrow> Inr x | _ \<Rightarrow> Inl Wrong_json_kind),
     to_string = text_of \<rparr>"

lemma strict_library_laws: "library_laws (strict_library text_of)"
proof -
  have "ucast (ucast w :: 64 word) = (w :: 32 word)" for w by (rule bit_word_eqI) (auto simp: bit_simps)
  then show ?thesis by (simp add: library_laws_def strict_library_def)
qed

section \<open>Kinds\<close>

definition get_array :: "json \<Rightarrow> error + json list" where
  "get_array v = (case v of JArray xs \<Rightarrow> Inr xs | _ \<Rightarrow> Inl Wrong_json_kind)"

definition get_object :: "json \<Rightarrow> error + (string \<times> json) list" where
  "get_object v = (case v of JObject ms \<Rightarrow> Inr ms | _ \<Rightarrow> Inl Wrong_json_kind)"

definition get_string :: "json \<Rightarrow> error + string" where
  "get_string v = (case v of JString s \<Rightarrow> Inr s | _ \<Rightarrow> Inl Wrong_json_kind)"

definition get_unsigned :: "json \<Rightarrow> error + 64 word" where
  "get_unsigned v = (case v of JUnsigned w \<Rightarrow> Inr w | _ \<Rightarrow> Inl Wrong_json_kind)"

definition is_integer :: "json \<Rightarrow> bool" where
  "is_integer v = (case v of JSigned _ \<Rightarrow> True | JUnsigned _ \<Rightarrow> True | _ \<Rightarrow> False)"

section \<open>Objects\<close>

text \<open>The order of \<open>std::string\<close>: by the bytes, a prefix first.\<close>

fun string_less :: "string \<Rightarrow> string \<Rightarrow> bool" where
  "string_less [] [] = False"
| "string_less [] (_ # _) = True"
| "string_less (_ # _) [] = False"
| "string_less (c # cs) (d # ds) = (of_char c < (of_char d :: nat) \<or> c = d \<and> string_less cs ds)"

text \<open>\<open>ret[key] = value\<close>, and the member or null when there is none.\<close>

fun obj_set :: "string \<Rightarrow> json \<Rightarrow> (string \<times> json) list \<Rightarrow> (string \<times> json) list" where
  "obj_set k v [] = [(k, v)]"
| "obj_set k v ((k', v') # ms) =
     (if k = k' then (k, v) # ms
      else if string_less k k' then (k, v) # (k', v') # ms
      else (k', v') # obj_set k v ms)"

definition member_or_null :: "(string \<times> json) list \<Rightarrow> string \<Rightarrow> json" where
  "member_or_null ms k = (case map_of ms k of None \<Rightarrow> JNull | Some v \<Rightarrow> v)"

text \<open>The initialiser list of an object: its members are inserted in turn.\<close>

definition object :: "(string \<times> json) list \<Rightarrow> json" where
  "object ms = JObject (foldl (\<lambda>acc (k, v). obj_set k v acc) [] ms)"

section \<open>Lemmas\<close>

lemma map_of_obj_set: "map_of (obj_set k v ms) k' = (if k' = k then Some v else map_of ms k')"
  by (induction k v ms rule: obj_set.induct) auto

lemma member_obj_set [simp]:
  "member_or_null (obj_set k v ms) k' = (if k' = k then v else member_or_null ms k')"
  by (simp add: member_or_null_def map_of_obj_set)

lemma obj_set_neq_Nil [simp]: "obj_set k v ms \<noteq> []"
  by (cases "(k, v, ms)" rule: obj_set.cases) auto

lemma get_object_JObject [simp]: "get_object (JObject ms) = Inr ms"
  by (simp add: get_object_def)

lemma get_array_JArray [simp]: "get_array (JArray xs) = Inr xs"
  by (simp add: get_array_def)

lemma get_string_JString [simp]: "get_string (JString s) = Inr s"
  by (simp add: get_string_def)

lemma get_unsigned_JUnsigned [simp]: "get_unsigned (JUnsigned w) = Inr w"
  by (simp add: get_unsigned_def)

text \<open>Characters and bytes.\<close>

definition byte_char :: "byte \<Rightarrow> char" where
  "byte_char b = char_of (unat b)"

definition char_byte :: "char \<Rightarrow> byte" where
  "char_byte c = word_of_nat (of_char c)"

lemma char_byte_byte_char [simp]: "char_byte (byte_char b) = b"
proof -
  have "(of_char (char_of (unat b) :: char) :: nat) = unat b"
    using unat_byte_less [of b] by simp
  then show ?thesis by (simp add: char_byte_def byte_char_def)
qed

lemma byte_char_char_byte [simp]: "byte_char (char_byte c) = c"
  by (simp add: char_byte_def byte_char_def unat_of_nat of_char_mod_256)

end
