(* ===== verification/DynamicDecoding.thy ===== *)
theory DynamicDecoding
  imports Json ClusterDb
begin

text \<open>
  The decoder of \<^verbatim>\<open>src/dynamic_encoding/decoding.cpp\<close>: bytes to JSON, directed by a type.

  A \<open>Decoder\<close> is the pair of the bytes from \<open>begin\<close> to \<open>end\<close> and the member
  \<open>last_attribute_id\<close> of the context, which the decoding of an attribute identifier changes.
  Each visitor \<open>operator()\<close> is a definition that takes the decoder to recurse with as its first
  argument \<open>D\<close>; \<open>decode\<close> ties the knot with fuel, because a \<open>repeated:\<close> type whose element
  takes no bytes makes the source loop forever. How much fuel is enough is shown in the theory
  \<open>DynamicProgress\<close>.
\<close>

section \<open>Integers\<close>

text \<open>
  A signed type shifts \<open>~0\<close> by the width to extend the sign, which is undefined at its own width.
\<close>

definition DecodeInteger :: "bool \<Rightarrow> nat \<Rightarrow> byte list \<Rightarrow> error + ('a::len word \<times> byte list)" where
  "DecodeInteger is_signed bytes bs =
     res_bind (DecodeUnsigned_loop (byte_shifts bytes) 0 bs) (\<lambda>(unsigned_value, rest).
       if is_signed \<and> drop_bit (bytes * 8 - 1) unsigned_value = 1 then
         if bytes * 8 \<ge> LENGTH('a) then Inl Undefined_behaviour
         else Inr (unsigned_value OR push_bit (bytes * 8) (NOT 0), rest)
       else Inr (unsigned_value, rest))"

section \<open>The state of a decoder\<close>

record Context =
  context_cluster :: "ClusterInfo option"

type_synonym decoder = "byte list \<times> ZclAttributeId option"
type_synonym 'a decoding = "decoder \<Rightarrow> error + ('a \<times> decoder)"

definition reading :: "(byte list \<Rightarrow> error + ('a \<times> byte list)) \<Rightarrow> ('a \<Rightarrow> json) \<Rightarrow> json decoding" where
  "reading d f s = (case s of (bs, att) \<Rightarrow>
     res_bind (d bs) (\<lambda>(x, rest). Inr (f x, (rest, att))))"

definition decoded_then :: "'a decoding \<Rightarrow> ('a \<Rightarrow> 'b decoding) \<Rightarrow> 'b decoding" where
  "decoded_then m k s = res_bind (m s) (\<lambda>(x, s'). k x s')"

text \<open>\<open>while (n--) ret.push_back(...)\<close>.\<close>

primrec decode_times :: "nat \<Rightarrow> 'a decoding \<Rightarrow> 'a list decoding" where
  "decode_times 0 d s = Inr ([], s)"
| "decode_times (Suc n) d s =
     res_bind (d s) (\<lambda>(x, s'). res_bind (decode_times n d s') (\<lambda>(xs, s''). Inr (x # xs, s'')))"

text \<open>\<open>while (begin != end) ...\<close>, with a bound on the number of rounds.\<close>

primrec decode_until_end :: "nat \<Rightarrow> 'a decoding \<Rightarrow> 'a list decoding" where
  "decode_until_end 0 d s = (if fst s = [] then Inr ([], s) else Inl Out_of_fuel)"
| "decode_until_end (Suc fuel) d s =
     (if fst s = [] then Inr ([], s)
      else res_bind (d s) (\<lambda>(x, s'). res_bind (decode_until_end fuel d s') (\<lambda>(xs, s''). Inr (x # xs, s''))))"

section \<open>Data types\<close>

text \<open>The cases of the \<open>switch\<close> over a data type, with the length its labels stand for.\<close>

datatype type_case =
    Nodata_case | Data_case nat | Bool_case | Map_case nat | Uint_case nat | Int_case nat
  | Enum_case nat | Semi_case | Single_case | Double_case | Octstr_case nat | String_case nat
  | Struct_case | Array_case | AttribId_case | Unk_case | Default_case

definition type_case :: "DataType \<Rightarrow> type_case" where
  "type_case d =
     (if d = DataType_nodata then Nodata_case
      else if DataType_data8 \<le> d \<and> d \<le> DataType_data64 then Data_case (1 + unat (d - DataType_data8))
      else if d = DataType_bool then Bool_case
      else if DataType_map8 \<le> d \<and> d \<le> DataType_map64 then Map_case (1 + unat (d - DataType_map8))
      else if DataType_uint8 \<le> d \<and> d \<le> DataType_uint64 then Uint_case (1 + unat (d - DataType_uint8))
      else if DataType_int8 \<le> d \<and> d \<le> DataType_int64 then Int_case (1 + unat (d - DataType_int8))
      else if d = DataType_enum8 \<or> d = DataType_enum16 then Enum_case (1 + unat (d - DataType_enum8))
      else if d = DataType_semi then Semi_case
      else if d = DataType_single then Single_case
      else if d = DataType_double then Double_case
      else if d = DataType_octstr \<or> d = DataType_octstr16 then Octstr_case (if d = DataType_octstr16 then 2 else 1)
      else if d = DataType_string \<or> d = DataType_string16 then String_case (if d = DataType_string16 then 2 else 1)
      else if d = DataType_struct then Struct_case
      else if d = DataType_array \<or> d = DataType_set \<or> d = DataType_bag then Array_case
      else if d = DataType_attribId then AttribId_case
      else if d = DataType_unk then Unk_case
      else Default_case)"

definition map_bits :: "nat \<Rightarrow> 64 word \<Rightarrow> json" where
  "map_bits n v = JArray (map (\<lambda>bit. JBool (drop_bit bit v AND 1 \<noteq> 0)) [0..<n * 8])"

definition decode_string :: "nat \<Rightarrow> (byte list \<Rightarrow> json) \<Rightarrow> string \<Rightarrow> json decoding" where
  "decode_string size_bytes f shortage s = (case s of (bs, att) \<Rightarrow>
     res_bind (DecodeInteger False size_bytes bs) (\<lambda>(n :: 64 word, bs).
       let size = unat n in
       if size = 2 ^ (size_bytes * 8) - 1 then Inr (JNull, (bs, att))
       else if length bs < size then Inl (Runtime_error shortage)
       else Inr (f (take size bs), (drop size bs, att))))"

definition decode_struct :: "(AnyType \<Rightarrow> json decoding) \<Rightarrow> json decoding" where
  "decode_struct D s = (case s of (bs, att) \<Rightarrow>
     res_bind (DecodeInteger False 2 bs) (\<lambda>(size :: 64 word, bs).
       if size = 0xFFFF then Inr (JNull, (bs, att))
       else res_bind (decode_times (unat size) (D VariantType) (bs, att)) (\<lambda>(xs, s). Inr (JArray xs, s))))"

definition decode_collection :: "(AnyType \<Rightarrow> json decoding) \<Rightarrow> json decoding" where
  "decode_collection D s = (case s of (bs, att) \<Rightarrow>
     res_bind (dec enum_codec bs) (\<lambda>(element :: DataType, bs).
     res_bind (DecodeInteger False 2 bs) (\<lambda>(size :: 64 word, bs).
       if size = 0xFFFF then
         Inr (object [(''element_type'', JString (enum_to_string DataType_table element)), (''elements'', JNull)], (bs, att))
       else res_bind (decode_times (unat size) (D (ZclType element)) (bs, att)) (\<lambda>(xs, s).
         Inr (object [(''element_type'', JString (enum_to_string DataType_table element)), (''elements'', JArray xs)], s)))))"

definition decode_attribute_id :: "Context \<Rightarrow> json decoding" where
  "decode_attribute_id ctx s = (case s of (bs, att) \<Rightarrow>
     res_bind (dec enum_codec bs) (\<lambda>(i :: ZclAttributeId, bs).
       Inr (case Option.bind (context_cluster ctx) (\<lambda>c. FindById i (attributes c)) of
              Some info \<Rightarrow> JString (attribute_name info)
            | None \<Rightarrow> JUnsigned (ucast i),
            (bs, Some i))))"

definition decode_zcl :: "(AnyType \<Rightarrow> json decoding) \<Rightarrow> Context \<Rightarrow> DataType \<Rightarrow> json decoding" where
  "decode_zcl D ctx datatype = (case type_case datatype of
       Nodata_case \<Rightarrow> (\<lambda>s. Inr (JNull, s))
     | Data_case n \<Rightarrow> (\<lambda>s. res_bind
         (decode_times n (reading (DecodeInteger False 1) (\<lambda>x :: 32 word. JUnsigned (ucast x))) s)
         (\<lambda>(xs, s). Inr (JArray xs, s)))
     | Bool_case \<Rightarrow> reading (DecodeInteger False 1) (\<lambda>x :: 8 word. if x = 0xFF then JNull else JBool (x \<noteq> 0))
     | Map_case n \<Rightarrow> reading (DecodeInteger False n) (map_bits n)
     | Uint_case n \<Rightarrow> reading (DecodeInteger False n) JUnsigned
     | Int_case n \<Rightarrow> reading (DecodeInteger True n) JSigned
     | Enum_case n \<Rightarrow> reading (DecodeInteger False n) JUnsigned
     | Semi_case \<Rightarrow> reading (\<lambda>bs. res_bind (dec unsigned_codec bs) (\<lambda>(raw :: 16 word, rest). Inr (Float_value 10 5 raw, rest))) JDouble
     | Single_case \<Rightarrow> reading (\<lambda>bs. res_bind (dec unsigned_codec bs) (\<lambda>(raw :: 32 word, rest). Inr (Float_value 23 8 raw, rest))) JDouble
     | Double_case \<Rightarrow> reading (\<lambda>bs. res_bind (dec unsigned_codec bs) (\<lambda>(raw :: 64 word, rest). Inr (Float_value 52 11 raw, rest))) JDouble
     | Octstr_case size_bytes \<Rightarrow> decode_string size_bytes
         (\<lambda>bs. JArray (map (\<lambda>b. JUnsigned (ucast b)) bs)) ''Not enough data to decode octet string''
     | String_case size_bytes \<Rightarrow> decode_string size_bytes
         (\<lambda>bs. JString (map byte_char bs)) ''Not enough data to decode character string''
     | Struct_case \<Rightarrow> decode_struct D
     | Array_case \<Rightarrow> decode_collection D
     | AttribId_case \<Rightarrow> decode_attribute_id ctx
     | Unk_case \<Rightarrow> (\<lambda>s. Inr (JNull, s))
     | Default_case \<Rightarrow> (\<lambda>s. Inl (Runtime_error ''Decoding of type %s not implemented'')))"

section \<open>Compound types\<close>

definition decode_variant :: "(AnyType \<Rightarrow> json decoding) \<Rightarrow> json decoding" where
  "decode_variant D s = (case s of (bs, att) \<Rightarrow>
     res_bind (dec enum_codec bs) (\<lambda>(type :: DataType, bs).
       if type = DataType_string \<and> att = Some 0xFF01 then D XiaomiFF01Type (bs, att)
       else res_bind (D (ZclType type) (bs, att)) (\<lambda>(v, s).
         Inr (object [(''type'', JString (enum_to_string DataType_table type)), (''value'', v)], s))))"

fun decode_properties :: "(AnyType \<Rightarrow> json decoding) \<Rightarrow> ObjectEntry list \<Rightarrow> (string \<times> json) list
    \<Rightarrow> (string \<times> json) list decoding" where
  "decode_properties D [] ret s = Inr (ret, s)"
| "decode_properties D ((name, type) # properties) ret s =
     res_bind (D type s) (\<lambda>(v, s). decode_properties D properties (obj_set name v ret) s)"

definition decode_object :: "(AnyType \<Rightarrow> json decoding) \<Rightarrow> ObjectEntry list \<Rightarrow> json decoding" where
  "decode_object D properties s = res_bind (decode_properties D properties [] s) (\<lambda>(ret, s). Inr (JObject ret, s))"

definition decode_array :: "nat \<Rightarrow> (AnyType \<Rightarrow> json decoding) \<Rightarrow> nat \<Rightarrow> AnyType \<Rightarrow> json decoding" where
  "decode_array fuel D length_size element s =
     (if length_size = 0 then res_bind (decode_until_end fuel (D element) s) (\<lambda>(xs, s). Inr (JArray xs, s))
      else (case s of (bs, att) \<Rightarrow>
        res_bind (DecodeInteger False length_size bs) (\<lambda>(n :: 64 word, bs).
        res_bind (decode_times (unat n) (D element) (bs, att)) (\<lambda>(xs, s). Inr (JArray xs, s)))))"

text \<open>
  The sub-decoder shares \<open>begin\<close> and has its own end: it reads the announced bytes, and the
  decoder goes on behind them.
\<close>

definition decode_xiaomi :: "nat \<Rightarrow> (json \<Rightarrow> string) \<Rightarrow> (AnyType \<Rightarrow> json decoding) \<Rightarrow> json decoding" where
  "decode_xiaomi fuel text_of D s = (case s of (bs, att) \<Rightarrow>
     res_bind (DecodeInteger False 1 bs) (\<lambda>(n :: 64 word, bs).
       let size = (if unat n > length bs then length bs else unat n)
       in res_bind (decode_until_end fuel
             (decoded_then (D (ZclType DataType_uint8)) (\<lambda>item_key.
              decoded_then (D VariantType) (\<lambda>item_value s. Inr ((text_of item_key, item_value), s))))
             (take size bs, None)) (\<lambda>(items, (_, att)).
           Inr (object [(''type'', JString ''xiaomi_ff01''), (''value'', object items)], (drop size bs, att)))))"

definition decode_error_or :: "(AnyType \<Rightarrow> json decoding) \<Rightarrow> AnyType \<Rightarrow> json decoding" where
  "decode_error_or D success_type s = (case s of (bs, att) \<Rightarrow>
     res_bind (DecodeInteger False 1 bs) (\<lambda>(status :: 32 word, bs).
       if status \<noteq> 0 then Inr (object [(''error'', JUnsigned (ucast status))], (bs, att))
       else res_bind (D success_type (bs, att)) (\<lambda>(v, s). Inr (object [(''success'', v)], s))))"

section \<open>The decoder\<close>

primrec decode :: "nat \<Rightarrow> json_library \<Rightarrow> Context \<Rightarrow> AnyType \<Rightarrow> json decoding" where
  "decode 0 lib ctx type s = Inl Out_of_fuel"
| "decode (Suc fuel) lib ctx type s = (let D = decode fuel lib ctx in case type of
       VariantType \<Rightarrow> decode_variant D s
     | XiaomiFF01Type \<Rightarrow> decode_xiaomi fuel (to_string lib) D s
     | ZclType datatype \<Rightarrow> decode_zcl D ctx datatype s
     | ObjectType properties \<Rightarrow> decode_object D properties s
     | ArrayType length_size element_type \<Rightarrow> decode_array fuel D length_size element_type s
     | ErrorOrType success_type \<Rightarrow> decode_error_or D success_type s)"

lemma decode_Suc [simp]:
  "decode (Suc fuel) lib ctx VariantType s = decode_variant (decode fuel lib ctx) s"
  "decode (Suc fuel) lib ctx XiaomiFF01Type s = decode_xiaomi fuel (to_string lib) (decode fuel lib ctx) s"
  "decode (Suc fuel) lib ctx (ZclType d) s = decode_zcl (decode fuel lib ctx) ctx d s"
  "decode (Suc fuel) lib ctx (ObjectType ps) s = decode_object (decode fuel lib ctx) ps s"
  "decode (Suc fuel) lib ctx (ArrayType n t) s = decode_array fuel (decode fuel lib ctx) n t s"
  "decode (Suc fuel) lib ctx (ErrorOrType t) s = decode_error_or (decode fuel lib ctx) t s"
  by (simp_all add: Let_def)

declare decode.simps(2) [simp del]

text \<open>\<open>Decode\<close>: the JSON value and the bytes behind it, from a context without an attribute.\<close>

definition Decode_any :: "nat \<Rightarrow> json_library \<Rightarrow> Context \<Rightarrow> AnyType \<Rightarrow> byte list \<Rightarrow> error + (json \<times> byte list)" where
  "Decode_any fuel lib ctx type bs = res_bind (decode fuel lib ctx type (bs, None)) (\<lambda>(v, (rest, att)). Inr (v, rest))"

end
