(* ===== verification/DynamicEncoding.thy ===== *)
theory DynamicEncoding
  imports DynamicDecoding
begin

text \<open>
  The encoder of \<^verbatim>\<open>src/dynamic_encoding/encoding.cpp\<close>: JSON to bytes, directed by a type.

  The overloads of \<open>EncodeTyped\<close> append to the vector \<open>target\<close>; here they return what they
  append. As in the decoder each overload takes the encoder to recurse with, and \<open>encode\<close> ties
  the knot with fuel; the recursion always goes to a smaller value or type, and the theory
  \<open>DynamicProgress\<close> shows how much is enough.
\<close>

section \<open>Integers\<close>

text \<open>
  A shift by the width of the promoted operand type or more is undefined: eight bytes of a 64-bit
  type. The check of a signed value compares the bits above the encoded ones with all zeros and
  with all ones.
\<close>

definition EncodeInteger :: "bool \<Rightarrow> 'a::len word \<Rightarrow> nat \<Rightarrow> error + byte list" where
  "EncodeInteger is_signed value bytes =
     (if bytes * 8 \<ge> max 32 LENGTH('a) then Inl Undefined_behaviour
      else let rest = drop_bit (bytes * 8) value in
        if (if is_signed then rest \<noteq> 0 \<and> rest \<noteq> drop_bit (bytes * 8) (NOT 0) else rest \<noteq> 0)
        then Inl (Runtime_error ''Value %d does not fit in %d bits'')
        else Inr (map (\<lambda>byte. ucast (drop_bit (byte * 8) value AND 0xFF)) [0..<bytes]))"

text \<open>\<open>NormalEncodeAppend\<close>.\<close>

definition append_enum :: "'a::len word \<Rightarrow> error + byte list" where
  "append_enum value = Encode enum_codec value"

text \<open>What is appended one after the other.\<close>

definition res_append :: "error + byte list \<Rightarrow> error + byte list \<Rightarrow> error + byte list" where
  "res_append a b = res_bind a (\<lambda>xs. res_bind b (\<lambda>ys. Inr (xs @ ys)))"

fun encode_items :: "('a \<Rightarrow> error + byte list) \<Rightarrow> 'a list \<Rightarrow> error + byte list" where
  "encode_items f [] = Inr []"
| "encode_items f (item # rest) = res_append (f item) (encode_items f rest)"

section \<open>Data types\<close>

text \<open>
  \<open>1 << current_bit\<close> is an \<open>int\<close>: bit 31 is negative and extended to the upper half of the
  mask, and a shift beyond it is undefined.
\<close>

fun bitmask_loop :: "json_library \<Rightarrow> nat \<Rightarrow> 64 word \<Rightarrow> json list \<Rightarrow> error + 64 word" where
  "bitmask_loop lib current_bit bitmask [] = Inr bitmask"
| "bitmask_loop lib current_bit bitmask (item # rest) =
     res_bind (as_bool lib item) (\<lambda>b.
     res_bind (if \<not> b then Inr bitmask
               else if current_bit \<ge> 32 then Inl Undefined_behaviour
               else Inr (bitmask OR scast (push_bit current_bit (1 :: 32 word)))) (\<lambda>bitmask.
       bitmask_loop lib (current_bit + 1) bitmask rest))"

definition encode_data :: "json_library \<Rightarrow> nat \<Rightarrow> json \<Rightarrow> error + byte list" where
  "encode_data lib n value = res_bind (get_array value) (\<lambda>array_value.
     if length array_value \<noteq> n then Inl (Runtime_error ''Type %s expects array of length %d'')
     else encode_items (\<lambda>item. res_bind (as_unsigned_int lib item) (\<lambda>x. EncodeInteger False x 1)) array_value)"

definition encode_map :: "json_library \<Rightarrow> nat \<Rightarrow> json \<Rightarrow> error + byte list" where
  "encode_map lib n value = res_bind (get_array value) (\<lambda>array_value.
     if length array_value \<noteq> n * 8 then Inl (Runtime_error ''Type %s expects array of length %d, got %d'')
     else res_bind (bitmask_loop lib 0 0 array_value) (\<lambda>bitmask. EncodeInteger False bitmask n))"

definition encode_octstr :: "json_library \<Rightarrow> nat \<Rightarrow> json \<Rightarrow> error + byte list" where
  "encode_octstr lib size_bytes value =
     (if value = JNull then EncodeInteger False (2 ^ (size_bytes * 8) - 1 :: 64 word) size_bytes
      else res_bind (get_array value) (\<lambda>array_value.
        res_append (EncodeInteger False (word_of_nat (length array_value) :: 64 word) size_bytes)
          (encode_items (\<lambda>item. res_bind (as_unsigned_int lib item) (\<lambda>x. EncodeInteger False x 1)) array_value)))"

definition encode_string :: "json_library \<Rightarrow> nat \<Rightarrow> json \<Rightarrow> error + byte list" where
  "encode_string lib size_bytes value =
     (if value = JNull then EncodeInteger False (2 ^ (size_bytes * 8) - 1 :: 64 word) size_bytes
      else res_bind (as_string lib value) (\<lambda>string_value.
        res_append (EncodeInteger False (word_of_nat (length string_value) :: 64 word) size_bytes)
          (Inr (map char_byte string_value))))"

definition encode_struct :: "(AnyType \<Rightarrow> json \<Rightarrow> error + byte list) \<Rightarrow> json \<Rightarrow> error + byte list" where
  "encode_struct E value =
     (if value = JNull then EncodeInteger False (0xFFFF :: 64 word) 2
      else res_bind (get_array value) (\<lambda>array_value.
        res_append (EncodeInteger False (word_of_nat (length array_value) :: 64 word) 2)
          (encode_items (E VariantType) array_value)))"

definition encode_collection :: "(AnyType \<Rightarrow> json \<Rightarrow> error + byte list) \<Rightarrow> json \<Rightarrow> error + byte list" where
  "encode_collection E value = res_bind (get_object value) (\<lambda>object_value.
     res_bind (get_string (member_or_null object_value ''element_type'')) (\<lambda>element_type.
       case string_to_enum DataType_table element_type of
         None \<Rightarrow> Inl (Runtime_error ''Invalid element_type'')
       | Some element \<Rightarrow> res_append (append_enum element)
           (let elements_value = member_or_null object_value ''elements'' in
            if elements_value = JNull then EncodeInteger False (0xFFFF :: 64 word) 2
            else res_bind (get_array elements_value) (\<lambda>elements_arr.
              res_append (EncodeInteger False (word_of_nat (length elements_arr) :: 64 word) 2)
                (encode_items (E (ZclType element)) elements_arr)))))"

definition encode_attribute_id :: "json_library \<Rightarrow> Context \<Rightarrow> json \<Rightarrow> error + byte list" where
  "encode_attribute_id lib ctx value =
     (if value = JNull then append_enum (0xFFFF :: ZclAttributeId)
      else case value of
        JString name \<Rightarrow> (case context_cluster ctx of
            None \<Rightarrow> Inl (Runtime_error ''Unable to decode string attribute identifier in this context'')
          | Some c \<Rightarrow> (case FindByName name (attributes c) of
              None \<Rightarrow> Inl (Runtime_error ''Unknown attribute id'')
            | Some info \<Rightarrow> append_enum (attribute_id info)))
      | _ \<Rightarrow> if is_integer value then res_bind (as_unsigned_int lib value) (\<lambda>x. EncodeInteger False x 2)
             else Inl (Runtime_error ''Expected either string or integer for attribute ID''))"

definition encode_zcl :: "(rat \<Rightarrow> int) \<Rightarrow> json_library \<Rightarrow> Context \<Rightarrow> (AnyType \<Rightarrow> json \<Rightarrow> error + byte list)
    \<Rightarrow> DataType \<Rightarrow> json \<Rightarrow> error + byte list" where
  "encode_zcl floor_log2 lib ctx E datatype value = (case type_case datatype of
       Nodata_case \<Rightarrow> if value \<noteq> JNull then Inl (Runtime_error ''No data expected for type nodata'') else Inr []
     | Data_case n \<Rightarrow> encode_data lib n value
     | Bool_case \<Rightarrow>
         if value = JNull then EncodeInteger False (0xFF :: 8 word) 1
         else res_bind (as_bool lib value) (\<lambda>b. EncodeInteger False (if b then 1 else 0 :: 8 word) 1)
     | Map_case n \<Rightarrow> encode_map lib n value
     | Uint_case n \<Rightarrow> res_bind (as_uint64 lib value) (\<lambda>x. EncodeInteger False x n)
     | Int_case n \<Rightarrow> res_bind (as_int64 lib value) (\<lambda>x. EncodeInteger True x n)
     | Enum_case n \<Rightarrow> res_bind (as_unsigned_int lib value) (\<lambda>x. EncodeInteger False x n)
     | Semi_case \<Rightarrow> res_bind (as_float lib value) (Encode (float_codec floor_log2 10 5 TYPE(16)))
     | Single_case \<Rightarrow> res_bind (as_float lib value) (Encode (float_codec floor_log2 23 8 TYPE(32)))
     | Double_case \<Rightarrow> res_bind (as_double lib value) (Encode (float_codec floor_log2 52 11 TYPE(64)))
     | Octstr_case size_bytes \<Rightarrow> encode_octstr lib size_bytes value
     | String_case size_bytes \<Rightarrow> encode_string lib size_bytes value
     | Struct_case \<Rightarrow> encode_struct E value
     | Array_case \<Rightarrow> encode_collection E value
     | AttribId_case \<Rightarrow> encode_attribute_id lib ctx value
     | Unk_case \<Rightarrow> if value \<noteq> JNull then Inl (Runtime_error ''No data expected for type unk'') else Inr []
     | Default_case \<Rightarrow> Inl (Runtime_error ''Encoding of type %s not implemented''))"

section \<open>Compound types\<close>

definition encode_variant :: "json_library \<Rightarrow> (AnyType \<Rightarrow> json \<Rightarrow> error + byte list) \<Rightarrow> json \<Rightarrow> error + byte list" where
  "encode_variant lib E value =
     (if value = JNull then append_enum (DataType_nodata :: DataType)
      else res_bind (get_object value) (\<lambda>members.
        case map_of members ''type'' of
          None \<Rightarrow> Inl (Runtime_error ''JSON object for variant did not have type property'')
        | Some found_type \<Rightarrow> res_bind (as_string lib found_type) (\<lambda>type_name.
            case string_to_enum DataType_table type_name of
              None \<Rightarrow> Inl (Runtime_error ''Invalid type'')
            | Some datatype \<Rightarrow> res_append (append_enum datatype)
                (E (ZclType datatype) (member_or_null members ''value'')))))"

definition encode_object :: "(AnyType \<Rightarrow> json \<Rightarrow> error + byte list) \<Rightarrow> ObjectEntry list \<Rightarrow> json \<Rightarrow> error + byte list" where
  "encode_object E properties value =
     (if value = JNull \<and> properties = [] then Inr []
      else res_bind (get_object value) (\<lambda>members.
        encode_items (\<lambda>(name, type). E type (member_or_null members name)) properties))"

definition encode_array :: "(AnyType \<Rightarrow> json \<Rightarrow> error + byte list) \<Rightarrow> nat \<Rightarrow> AnyType \<Rightarrow> json \<Rightarrow> error + byte list" where
  "encode_array E length_size element value = res_bind (get_array value) (\<lambda>array_value.
     res_append
       (if length_size > 0 then EncodeInteger False (word_of_nat (length array_value) :: 64 word) length_size else Inr [])
       (encode_items (E element) array_value))"

definition encode_error_or :: "(AnyType \<Rightarrow> json \<Rightarrow> error + byte list) \<Rightarrow> AnyType \<Rightarrow> json \<Rightarrow> error + byte list" where
  "encode_error_or E success_type value = res_bind (get_object value) (\<lambda>members.
     let error_value = member_or_null members ''error''; success_value = member_or_null members ''success''
     in res_bind (if error_value \<noteq> JNull then res_bind (get_unsigned error_value) (\<lambda>w. Inr (ucast w)) else Inr 0)
       (\<lambda>status :: 32 word. res_append (EncodeInteger False status 1)
         (if status = 0 then E success_type success_value
          else if success_value \<noteq> JNull
            then Inl (Runtime_error ''Error-or object should not contain both a non-zero error and success field!'')
          else Inr [])))"

section \<open>The encoder\<close>

primrec encode :: "nat \<Rightarrow> (rat \<Rightarrow> int) \<Rightarrow> json_library \<Rightarrow> Context \<Rightarrow> AnyType \<Rightarrow> json \<Rightarrow> error + byte list" where
  "encode 0 floor_log2 lib ctx type value = Inl Out_of_fuel"
| "encode (Suc fuel) floor_log2 lib ctx type value = (let E = encode fuel floor_log2 lib ctx in case type of
       VariantType \<Rightarrow> encode_variant lib E value
     | XiaomiFF01Type \<Rightarrow> Inl (Runtime_error ''Xiaomi FF01 encoding not implemented'')
     | ZclType datatype \<Rightarrow> encode_zcl floor_log2 lib ctx E datatype value
     | ObjectType properties \<Rightarrow> encode_object E properties value
     | ArrayType length_size element_type \<Rightarrow> encode_array E length_size element_type value
     | ErrorOrType success_type \<Rightarrow> encode_error_or E success_type value)"

lemma encode_Suc [simp]:
  "encode (Suc fuel) fl lib ctx VariantType v = encode_variant lib (encode fuel fl lib ctx) v"
  "encode (Suc fuel) fl lib ctx XiaomiFF01Type v = Inl (Runtime_error ''Xiaomi FF01 encoding not implemented'')"
  "encode (Suc fuel) fl lib ctx (ZclType d) v = encode_zcl fl lib ctx (encode fuel fl lib ctx) d v"
  "encode (Suc fuel) fl lib ctx (ObjectType ps) v = encode_object (encode fuel fl lib ctx) ps v"
  "encode (Suc fuel) fl lib ctx (ArrayType n t) v = encode_array (encode fuel fl lib ctx) n t v"
  "encode (Suc fuel) fl lib ctx (ErrorOrType t) v = encode_error_or (encode fuel fl lib ctx) t v"
  by (simp_all add: Let_def)

declare encode.simps(2) [simp del]

end
