(* ===== verification/DynamicProgress.thy ===== *)
theory DynamicProgress
  imports DynamicEncoding
begin

text \<open>
  Termination of the decoder and the encoder: how many bytes a type takes at least, how much fuel
  is enough, and that more fuel changes nothing. The locale \<open>byte_reader\<close> is what the loops of
  the decoder rely on: an element never gives bytes back.
\<close>

section \<open>Types that take bytes\<close>

fun consuming :: "AnyType \<Rightarrow> bool" where
  "consuming (ZclType d) \<longleftrightarrow> type_case d \<noteq> Nodata_case \<and> type_case d \<noteq> Unk_case"
| "consuming (ObjectType ps) \<longleftrightarrow> list_ex (\<lambda>p. consuming (snd p)) ps"
| "consuming (ArrayType n t) \<longleftrightarrow> n \<noteq> 0"
| "consuming _ \<longleftrightarrow> True"

text \<open>Every element repeated to the end of the data takes at least one byte.\<close>

fun progressing :: "AnyType \<Rightarrow> bool" where
  "progressing (ArrayType n t) \<longleftrightarrow> (n = 0 \<longrightarrow> consuming t) \<and> progressing t"
| "progressing (ObjectType ps) \<longleftrightarrow> list_all (\<lambda>p. progressing (snd p)) ps"
| "progressing (ErrorOrType t) \<longleftrightarrow> progressing t"
| "progressing _ \<longleftrightarrow> True"

fun depth :: "AnyType \<Rightarrow> nat" where
  "depth (ArrayType n t) = Suc (depth t)"
| "depth (ErrorOrType t) = Suc (depth t)"
| "depth (ObjectType ps) = Suc (sum_list (map (\<lambda>p. depth (snd p)) ps))"
| "depth _ = 0"

lemma type_case_lengths:
  "type_case d = Data_case n \<Longrightarrow> 0 < n" "type_case d = Map_case n \<Longrightarrow> 0 < n"
  "type_case d = Uint_case n \<Longrightarrow> 0 < n" "type_case d = Int_case n \<Longrightarrow> 0 < n"
  "type_case d = Enum_case n \<Longrightarrow> 0 < n" "type_case d = Octstr_case n \<Longrightarrow> 0 < n"
  "type_case d = String_case n \<Longrightarrow> 0 < n"
  by (auto simp: type_case_def split: if_splits)

section \<open>Reading never gives bytes back\<close>

text \<open>\<open>takes k d\<close>: a successful \<open>d\<close> leaves at least \<open>k\<close> bytes less.\<close>

definition takes :: "nat \<Rightarrow> 'a decoding \<Rightarrow> bool" where
  "takes k d \<longleftrightarrow> (\<forall>s x s'. d s = Inr (x, s') \<longrightarrow> length (fst s') + k \<le> length (fst s))"

lemma takesD: "takes k d \<Longrightarrow> d s = Inr (x, s') \<Longrightarrow> length (fst s') + k \<le> length (fst s)"
  unfolding takes_def by blast

lemma DecodeUnsigned_loop_takes:
  "DecodeUnsigned_loop shifts v bs = Inr (w, rest) \<Longrightarrow> length bs = length rest + length shifts"
  by (induction shifts v bs rule: DecodeUnsigned_loop.induct) auto

lemma DecodeInteger_takes:
  "DecodeInteger neg n bs = Inr (w, rest) \<Longrightarrow> length bs = length rest + n"
  using DecodeUnsigned_loop_takes [of "byte_shifts n" 0 bs]
  by (fastforce simp: DecodeInteger_def res_bind_eq_Inr byte_shifts_def split: if_splits)

lemma unsigned_dec_takes:
  "dec (unsigned_codec :: 'a::len word codec) bs = Inr (w, rest) \<Longrightarrow> length bs = length rest + LENGTH('a) div 8"
  using DecodeUnsigned_loop_takes [of "byte_shifts (LENGTH('a) div 8)" 0 bs]
  by (simp add: unsigned_codec_def byte_shifts_def)

lemma enum_dec_takes:
  "dec (enum_codec :: 'a::len word codec) bs = Inr (w, rest) \<Longrightarrow> length bs = length rest + LENGTH('a) div 8"
  using unsigned_dec_takes [where 'a = 'a, of bs] by (auto simp: enum_codec_def res_bind_eq_Inr)

locale byte_reader =
  fixes d :: "'a decoding" and k :: nat
  assumes takes: "takes k d"
begin

lemma times_takes: "takes (n * k) (decode_times n d)"
proof (induction n)
  case (Suc n)
  then show ?case using takes by (fastforce simp: takes_def res_bind_eq_Inr)
qed (simp add: takes_def)

lemma until_end_takes: "takes 0 (decode_until_end fuel d)"
proof (induction fuel)
  case (Suc fuel)
  then show ?case using takes by (fastforce simp: takes_def res_bind_eq_Inr)
qed (simp add: takes_def)

lemma until_end_rest: "decode_until_end fuel d s = Inr (xs, s') \<Longrightarrow> fst s' = []"
  by (induction fuel arbitrary: s xs) (auto simp: res_bind_eq_Inr split: if_splits)

lemma until_end_enough:
  assumes "\<And>s. length (fst s) \<le> n \<Longrightarrow> d s \<noteq> Inl Out_of_fuel" "0 < k"
  shows "length (fst s) \<le> n \<Longrightarrow> length (fst s) \<le> fuel \<Longrightarrow> decode_until_end fuel d s \<noteq> Inl Out_of_fuel"
proof (induction fuel arbitrary: s)
  case (Suc fuel)
  have "decode_until_end fuel d s' \<noteq> Inl Out_of_fuel" if "d s = Inr (x, s')" for x s'
    using Suc takesD [OF takes that] assms(2) by simp
  with assms(1) [OF Suc.prems(1)] show ?case by (auto simp: res_bind_eq_Inl)
qed simp

lemma times_enough:
  assumes "\<And>s. length (fst s) \<le> n \<Longrightarrow> d s \<noteq> Inl Out_of_fuel"
  shows "length (fst s) \<le> n \<Longrightarrow> decode_times m d s \<noteq> Inl Out_of_fuel"
proof (induction m arbitrary: s)
  case (Suc m)
  have "decode_times m d s' \<noteq> Inl Out_of_fuel" if "d s = Inr (x, s')" for x s'
    using Suc takesD [OF takes that] by simp
  with assms [OF Suc.prems] show ?case by (auto simp: res_bind_eq_Inl)
qed simp

end

text \<open>A decoder of any type, one level of fuel below.\<close>

definition well_behaved :: "(AnyType \<Rightarrow> json decoding) \<Rightarrow> bool" where
  "well_behaved D \<longleftrightarrow> (\<forall>t. takes (if consuming t then 1 else 0) (D t))"

lemma well_behavedD: "well_behaved D \<Longrightarrow> takes (if consuming t then 1 else 0) (D t)"
  by (simp add: well_behaved_def)

lemma well_behaved_takes: "well_behaved D \<Longrightarrow> D t s = Inr (v, s') \<Longrightarrow> length (fst s') \<le> length (fst s)"
  using takesD [OF well_behavedD] by fastforce

lemma times_well_behaved:
  "well_behaved D \<Longrightarrow> decode_times n (D t) s = Inr (xs, s') \<Longrightarrow> length (fst s') \<le> length (fst s)"
  using takesD [OF byte_reader.times_takes [OF byte_reader.intro [OF well_behavedD]]] by fastforce

lemma reading_takes:
  "(\<And>bs x rest. d bs = Inr (x, rest) \<Longrightarrow> length rest + k \<le> length bs) \<Longrightarrow> takes k (reading d f)"
  by (fastforce simp: takes_def reading_def res_bind_eq_Inr)

lemma decode_string_takes: "0 < n \<Longrightarrow> takes (Suc 0) (decode_string n f e)"
  by (fastforce simp: takes_def decode_string_def res_bind_eq_Inr Let_def split: if_splits dest: DecodeInteger_takes)

lemma decode_zcl_takes:
  assumes "well_behaved D"
  shows "takes (if consuming (ZclType d) then 1 else 0) (decode_zcl D ctx d)"
proof (cases "type_case d")
  case (Data_case n)
  have "byte_reader (reading (DecodeInteger False 1) (\<lambda>x :: 32 word. JUnsigned (ucast x))) 1"
    by (unfold_locales, rule reading_takes) (auto dest: DecodeInteger_takes)
  from byte_reader.times_takes [OF this, of n] show ?thesis
    using Data_case type_case_lengths(1) [OF Data_case]
    by (fastforce simp: decode_zcl_def takes_def res_bind_eq_Inr)
next
  case Struct_case
  then show ?thesis
    by (fastforce simp: decode_zcl_def takes_def decode_struct_def res_bind_eq_Inr split: if_splits
        dest: DecodeInteger_takes times_well_behaved [OF assms])
next
  case Array_case
  then show ?thesis
    by (fastforce simp: decode_zcl_def takes_def decode_collection_def res_bind_eq_Inr split: if_splits
        dest: DecodeInteger_takes enum_dec_takes times_well_behaved [OF assms])
next
  case AttribId_case
  then show ?thesis
    by (fastforce simp: decode_zcl_def takes_def decode_attribute_id_def res_bind_eq_Inr dest: enum_dec_takes)
next
  case (Octstr_case n)
  with type_case_lengths(6) [OF this] show ?thesis by (simp add: decode_zcl_def decode_string_takes)
next
  case (String_case n)
  with type_case_lengths(7) [OF this] show ?thesis by (simp add: decode_zcl_def decode_string_takes)
qed (auto simp: decode_zcl_def takes_def reading_def res_bind_eq_Inr
    dest!: DecodeInteger_takes unsigned_dec_takes dest: type_case_lengths)

lemma decode_properties_takes:
  assumes "well_behaved D"
  shows "decode_properties D ps ret s = Inr (r, s') \<Longrightarrow>
    length (fst s') + (if list_ex (\<lambda>p. consuming (snd p)) ps then 1 else 0) \<le> length (fst s)"
proof (induction ps arbitrary: ret s)
  case (Cons p ps)
  obtain name type where p: "p = (name, type)" by force
  with Cons.prems obtain v s1 where v: "D type s = Inr (v, s1)"
    and rest: "decode_properties D ps (obj_set name v ret) s1 = Inr (r, s')"
    by (auto simp: res_bind_eq_Inr)
  from Cons.IH [OF rest] takesD [OF well_behavedD [OF assms] v] p show ?case by (auto split: if_splits)
qed simp

lemma decode_compound_takes:
  assumes "well_behaved D"
  shows "takes 1 (decode_variant D)" "takes 1 (decode_error_or D t)" "takes 1 (decode_xiaomi fuel f D)"
    "takes (if list_ex (\<lambda>p. consuming (snd p)) ps then 1 else 0) (decode_object D ps)"
    "takes (if n \<noteq> 0 then 1 else 0) (decode_array fuel D n t)"
proof -
  show "takes 1 (decode_variant D)"
    by (fastforce simp: takes_def decode_variant_def res_bind_eq_Inr split: if_splits
        dest: enum_dec_takes well_behaved_takes [OF assms])
  show "takes 1 (decode_error_or D t)"
    by (fastforce simp: takes_def decode_error_or_def res_bind_eq_Inr split: if_splits
        dest: DecodeInteger_takes well_behaved_takes [OF assms])
  show "takes 1 (decode_xiaomi fuel f D)"
    by (fastforce simp: takes_def decode_xiaomi_def res_bind_eq_Inr Let_def dest: DecodeInteger_takes)
  show "takes (if list_ex (\<lambda>p. consuming (snd p)) ps then 1 else 0) (decode_object D ps)"
    using decode_properties_takes [OF assms, of ps "[]"]
    by (fastforce simp: takes_def decode_object_def res_bind_eq_Inr)
  have "decode_until_end fuel (D t) s = Inr (xs, s') \<Longrightarrow> length (fst s') \<le> length (fst s)" for s xs s'
    using byte_reader.until_end_rest [OF byte_reader.intro [OF well_behavedD [OF assms]]] by fastforce
  then show "takes (if n \<noteq> 0 then 1 else 0) (decode_array fuel D n t)"
    by (fastforce simp: takes_def decode_array_def res_bind_eq_Inr split: if_splits
        dest: DecodeInteger_takes times_well_behaved [OF assms])
qed

lemma decode_well_behaved: "well_behaved (decode fuel lib ctx)"
proof (induction fuel)
  case 0
  show ?case by (simp add: well_behaved_def takes_def)
next
  case (Suc fuel)
  note facts = decode_compound_takes [OF Suc] decode_zcl_takes [OF Suc]
  show ?case
    unfolding well_behaved_def
  proof
    fix t
    show "takes (if consuming t then 1 else 0) (decode (Suc fuel) lib ctx t)"
      using facts by (cases t) (simp_all add: takes_def)
  qed
qed

interpretation element_reader: byte_reader "decode fuel lib ctx t" "if consuming t then 1 else 0" for fuel lib ctx t
  by (rule byte_reader.intro [OF well_behavedD [OF decode_well_behaved]])

section \<open>Enough fuel\<close>

lemma not_out_of_fuel [simp]:
  "DecodeUnsigned_loop shifts v bs \<noteq> Inl Out_of_fuel"
  "DecodeInteger neg n bs \<noteq> Inl Out_of_fuel"
  "dec unsigned_codec bs \<noteq> Inl Out_of_fuel"
  "dec enum_codec bs \<noteq> Inl Out_of_fuel"
proof -
  show loop: "DecodeUnsigned_loop shifts v bs \<noteq> Inl Out_of_fuel" for shifts and v :: "'z::len word" and bs
    by (induction shifts v bs rule: DecodeUnsigned_loop.induct) auto
  show "DecodeInteger neg n bs \<noteq> Inl Out_of_fuel"
    using loop by (auto simp: DecodeInteger_def res_bind_eq_Inl split: if_splits)
  show "dec unsigned_codec bs \<noteq> Inl Out_of_fuel" using loop by (simp add: unsigned_codec_def)
  show "dec enum_codec bs \<noteq> Inl Out_of_fuel"
    using loop by (auto simp: enum_codec_def unsigned_codec_def res_bind_eq_Inl)
qed

definition enough :: "nat \<Rightarrow> (AnyType \<Rightarrow> json decoding) \<Rightarrow> bool" where
  "enough n D \<longleftrightarrow> (\<forall>t s. progressing t \<longrightarrow> length (fst s) + depth t < n \<longrightarrow> D t s \<noteq> Inl Out_of_fuel)"

lemma enoughD: "enough n D \<Longrightarrow> progressing t \<Longrightarrow> length (fst s) + depth t < n \<Longrightarrow> D t s \<noteq> Inl Out_of_fuel"
  unfolding enough_def by blast

lemma decode_times_enough:
  assumes "well_behaved D" "enough n D" "progressing t" "length (fst s) + depth t < n"
  shows "decode_times m (D t) s \<noteq> Inl Out_of_fuel"
  using byte_reader.times_enough [OF byte_reader.intro [OF well_behavedD [OF assms(1)]],
      of "length (fst s)" t s m] enoughD [OF assms(2,3)] assms(4)
  by fastforce

lemma decode_until_end_enough:
  assumes "well_behaved D" "enough n D" "progressing t" "consuming t" "length (fst s) + depth t < n"
    and "length (fst s) \<le> fuel"
  shows "decode_until_end fuel (D t) s \<noteq> Inl Out_of_fuel"
  using byte_reader.until_end_enough [OF byte_reader.intro [OF well_behavedD [OF assms(1)]],
      of "length (fst s)" t s fuel] enoughD [OF assms(2,3)] assms(4-6)
  by fastforce

lemma reading_not_out_of_fuel:
  "(\<And>bs. d bs \<noteq> Inl Out_of_fuel) \<Longrightarrow> reading d f s \<noteq> Inl Out_of_fuel"
  by (cases s) (auto simp: reading_def res_bind_eq_Inl)

lemma decode_zcl_enough:
  assumes "well_behaved D" "enough n D" "length (fst s) \<le> n"
  shows "decode_zcl D ctx d s \<noteq> Inl Out_of_fuel"
proof (cases "type_case d")
  case (Data_case k)
  have "byte_reader (reading (DecodeInteger False 1) (\<lambda>x :: 32 word. JUnsigned (ucast x))) 1"
    by (unfold_locales, rule reading_takes) (auto dest: DecodeInteger_takes)
  from byte_reader.times_enough [OF this, of "length (fst s)" s k] Data_case show ?thesis
    by (auto simp: decode_zcl_def res_bind_eq_Inl reading_not_out_of_fuel)
next
  case Struct_case
  have "decode_times m (D VariantType) (bs', att) \<noteq> Inl Out_of_fuel"
    if "DecodeInteger False 2 (fst s) = Inr (w :: 64 word, bs')" for m w bs' att
    using decode_times_enough [OF assms(1,2), of VariantType "(bs', att)"] DecodeInteger_takes [OF that] assms(3) by simp
  with Struct_case show ?thesis
    by (cases s) (auto simp: decode_zcl_def decode_struct_def res_bind_eq_Inl split: if_splits)
next
  case Array_case
  have "decode_times m (D (ZclType e)) (bs', att) \<noteq> Inl Out_of_fuel"
    if "dec enum_codec (fst s) = Inr (e' :: DataType, bs)" "DecodeInteger False 2 bs = Inr (w :: 64 word, bs')"
    for m e e' w bs bs' att
    using decode_times_enough [OF assms(1,2), of "ZclType e" "(bs', att)"] enum_dec_takes [OF that(1)]
      DecodeInteger_takes [OF that(2)] assms(3) by simp
  with Array_case show ?thesis
    by (cases s) (auto simp: decode_zcl_def decode_collection_def res_bind_eq_Inl split: if_splits)
qed (cases s; auto simp: decode_zcl_def decode_string_def decode_attribute_id_def reading_not_out_of_fuel
    res_bind_eq_Inl Let_def split: if_splits)+

lemma decode_properties_enough:
  assumes "well_behaved D" "enough n D"
  shows "list_all (\<lambda>p. progressing (snd p)) ps \<Longrightarrow>
    length (fst s) + sum_list (map (\<lambda>p. depth (snd p)) ps) < n \<Longrightarrow>
    decode_properties D ps ret s \<noteq> Inl Out_of_fuel"
proof (induction ps arbitrary: ret s)
  case (Cons p ps)
  obtain name t where p: "p = (name, t)" by force
  have "D t s \<noteq> Inl Out_of_fuel" using Cons.prems p by (intro enoughD [OF assms(2)]) auto
  moreover have "decode_properties D ps ret' s' \<noteq> Inl Out_of_fuel" if "D t s = Inr (v, s')" for v s' ret'
    using Cons well_behaved_takes [OF assms(1) that] by simp
  ultimately show ?case using p by (auto simp: res_bind_eq_Inl)
qed simp

lemma decode_xiaomi_enough:
  assumes "well_behaved D" "enough n D" "length (fst s) \<le> n" "length (fst s) \<le> fuel"
  shows "decode_xiaomi fuel f D s \<noteq> Inl Out_of_fuel"
proof -
  let ?item = "decoded_then (D (ZclType DataType_uint8)) (\<lambda>item_key.
      decoded_then (D VariantType) (\<lambda>item_value s. Inr ((f item_key, item_value), s)))"
  have reader: "byte_reader ?item 1"
  proof
    show "takes 1 ?item"
      using takesD [OF well_behavedD [OF assms(1), of VariantType]] well_behaved_takes [OF assms(1)]
      by (fastforce simp: takes_def decoded_then_def res_bind_eq_Inr)
  qed
  have item: "?item s' \<noteq> Inl Out_of_fuel" if "length (fst s') < n" for s'
    using that enoughD [OF assms(2), of "ZclType DataType_uint8" s'] enoughD [OF assms(2), of VariantType]
      well_behaved_takes [OF assms(1), of "ZclType DataType_uint8" s']
    by (fastforce simp: decoded_then_def res_bind_eq_Inl)
  have "decode_until_end fuel ?item (take k bs, None) \<noteq> Inl Out_of_fuel"
    if "DecodeInteger False 1 (fst s) = Inr (w :: 64 word, bs)" for k w bs
    by (rule byte_reader.until_end_enough [OF reader, where n = "length bs"])
      (use DecodeInteger_takes [OF that] assms(3,4) item in auto)
  then show ?thesis
    by (cases s) (auto simp: decode_xiaomi_def Let_def res_bind_eq_Inl)
qed

lemma enough_decode: "enough fuel (decode fuel lib ctx)"
proof (induction fuel)
  case (Suc n)
  let ?D = "decode n lib ctx"
  note wb = decode_well_behaved [of n lib ctx]
  show ?case
    unfolding enough_def
  proof (intro allI impI)
    fix t and s :: decoder assume t: "progressing t" "length (fst s) + depth t < Suc n"
    obtain bs att where s: "s = (bs, att)" by force
    show "decode (Suc n) lib ctx t s \<noteq> Inl Out_of_fuel"
    proof (cases t)
      case VariantType
      have "?D t' (bs', att) \<noteq> Inl Out_of_fuel"
        if "dec enum_codec bs = Inr (d :: DataType, bs')" "t' = XiaomiFF01Type \<or> t' = ZclType d" for t' d bs'
        using enoughD [OF Suc, of t' "(bs', att)"] enum_dec_takes [OF that(1)] that(2) t(2) s by auto
      with VariantType s show ?thesis by (auto simp: decode_variant_def res_bind_eq_Inl split: if_splits)
    next
      case XiaomiFF01Type
      with t s decode_xiaomi_enough [OF wb Suc, of s n] show ?thesis by simp
    next
      case (ZclType d)
      with t s decode_zcl_enough [OF wb Suc, of s] show ?thesis by simp
    next
      case (ObjectType ps)
      with t s decode_properties_enough [OF wb Suc, of ps s "[]"] show ?thesis
        by (auto simp: decode_object_def res_bind_eq_Inl)
    next
      case (ArrayType k e)
      have "decode_times m (?D e) (bs', att) \<noteq> Inl Out_of_fuel"
        if "DecodeInteger False k bs = Inr (w :: 64 word, bs')" for m w bs'
        using decode_times_enough [OF wb Suc, of e "(bs', att)"] DecodeInteger_takes [OF that] t s ArrayType by auto
      moreover have "decode_until_end n (?D e) s \<noteq> Inl Out_of_fuel" if "k = 0"
        using decode_until_end_enough [OF wb Suc, of e s n] t s ArrayType that by auto
      ultimately show ?thesis using ArrayType s
        by (auto simp: decode_array_def res_bind_eq_Inl split: if_splits)
    next
      case (ErrorOrType e)
      have "?D e (bs', att) \<noteq> Inl Out_of_fuel" if "DecodeInteger False 1 bs = Inr (w :: 32 word, bs')" for w bs'
        using enoughD [OF Suc, of e "(bs', att)"] DecodeInteger_takes [OF that] t s ErrorOrType by auto
      with ErrorOrType s show ?thesis by (auto simp: decode_error_or_def res_bind_eq_Inl split: if_splits)
    qed
  qed
qed (simp add: enough_def)

section \<open>More fuel changes nothing\<close>

text \<open>\<open>less_fuel r r'\<close>: \<open>r'\<close> is \<open>r\<close>, unless \<open>r\<close> ran out of fuel.\<close>

definition less_fuel :: "error + 'a \<Rightarrow> error + 'a \<Rightarrow> bool" where
  "less_fuel r r' \<longleftrightarrow> r = Inl Out_of_fuel \<or> r' = r"

named_theorems less_fuel_intros \<open>the program constructs keep the order of fuel\<close>

lemma less_fuel_refl [simp, less_fuel_intros]: "less_fuel r r"
  by (simp add: less_fuel_def)

lemma less_fuel_bottom [simp]: "less_fuel (Inl Out_of_fuel) r"
  by (simp add: less_fuel_def)

lemma less_fuel_bind [less_fuel_intros]:
  "less_fuel r r' \<Longrightarrow> (\<And>x. less_fuel (f x) (f' x)) \<Longrightarrow> less_fuel (res_bind r f) (res_bind r' f')"
  by (cases r) (auto simp: less_fuel_def)

lemma less_fuel_if [less_fuel_intros]:
  "less_fuel a a' \<Longrightarrow> less_fuel b b' \<Longrightarrow> less_fuel (if c then a else b) (if c then a' else b')"
  by simp

lemma less_fuel_prod [less_fuel_intros]:
  "(\<And>x y. less_fuel (f x y) (f' x y)) \<Longrightarrow> less_fuel (case p of (x, y) \<Rightarrow> f x y) (case p of (x, y) \<Rightarrow> f' x y)"
  by (cases p) simp

lemma less_fuel_times [less_fuel_intros]:
  "(\<And>s. less_fuel (d s) (d' s)) \<Longrightarrow> less_fuel (decode_times n d s) (decode_times n d' s)"
  by (induction n arbitrary: s) (auto intro!: less_fuel_intros)

lemma less_fuel_until_end [less_fuel_intros]:
  assumes "\<And>s. less_fuel (d s) (d' s)"
  shows "less_fuel (decode_until_end n d s) (decode_until_end (Suc n) d' s)"
proof (induction n arbitrary: s)
  case (Suc n)
  show ?case
    by (simp only: decode_until_end.simps(2) [of "Suc n" d'] decode_until_end.simps(2) [of n d])
      (intro less_fuel_intros assms Suc)
qed simp

lemma less_fuel_properties:
  assumes "\<And>t s. less_fuel (D t s) (D' t s)"
  shows "less_fuel (decode_properties D ps ret s) (decode_properties D' ps ret s)"
proof (induction ps arbitrary: ret s)
  case (Cons p ps)
  obtain name t where p: "p = (name, t)" by force
  show ?case unfolding p decode_properties.simps by (intro less_fuel_intros assms Cons.IH)
qed simp

lemma less_fuel_zcl:
  "(\<And>t s. less_fuel (D t s) (D' t s)) \<Longrightarrow> less_fuel (decode_zcl D ctx d s) (decode_zcl D' ctx d s)"
  by (cases "type_case d") (auto simp: decode_zcl_def decode_struct_def decode_collection_def intro!: less_fuel_intros)

lemma decode_more_fuel: "less_fuel (decode n lib ctx t s) (decode (Suc n) lib ctx t s)"
proof (induction n arbitrary: t s)
  case (Suc n)
  let ?D = "decode n lib ctx" and ?D' = "decode (Suc n) lib ctx"
  show ?case
  proof (cases t)
    case VariantType
    have "less_fuel (decode_variant ?D s) (decode_variant ?D' s)"
      unfolding decode_variant_def by (intro less_fuel_intros Suc)
    with VariantType show ?thesis by (simp only: decode_Suc)
  next
    case XiaomiFF01Type
    have "less_fuel (decode_xiaomi n (to_string lib) ?D s) (decode_xiaomi (Suc n) (to_string lib) ?D' s)"
      unfolding decode_xiaomi_def decoded_then_def Let_def by (intro less_fuel_intros Suc)
    with XiaomiFF01Type show ?thesis by (simp only: decode_Suc)
  next
    case (ZclType d)
    with less_fuel_zcl [of ?D ?D', OF Suc] show ?thesis by (simp only: decode_Suc)
  next
    case (ObjectType ps)
    have "less_fuel (decode_object ?D ps s) (decode_object ?D' ps s)"
      unfolding decode_object_def by (intro less_fuel_intros less_fuel_properties Suc)
    with ObjectType show ?thesis by (simp only: decode_Suc)
  next
    case (ArrayType k e)
    have "less_fuel (decode_array n ?D k e s) (decode_array (Suc n) ?D' k e s)"
      unfolding decode_array_def by (intro less_fuel_intros Suc)
    with ArrayType show ?thesis by (simp only: decode_Suc)
  next
    case (ErrorOrType e)
    have "less_fuel (decode_error_or ?D e s) (decode_error_or ?D' e s)"
      unfolding decode_error_or_def by (intro less_fuel_intros Suc)
    with ErrorOrType show ?thesis by (simp only: decode_Suc)
  qed
qed simp

lemma decode_fuel_irrelevant:
  assumes "progressing t" "length (fst s) + depth t < n" "n \<le> m"
  shows "decode m lib ctx t s = decode n lib ctx t s"
  using assms(3)
proof (induction m rule: dec_induct)
  case (step k)
  have "decode k lib ctx t s \<noteq> Inl Out_of_fuel"
    using assms(1,2) step(1) by (intro enoughD [OF enough_decode]) auto
  with decode_more_fuel [of k lib ctx t s] step(3) show ?case by (simp add: less_fuel_def)
qed simp

section \<open>The encoder\<close>

text \<open>The library's conversions do not use the model's own error.\<close>

definition library_ok :: "json_library \<Rightarrow> bool" where
  "library_ok lib \<longleftrightarrow> (\<forall>v. as_unsigned_int lib v \<noteq> Inl Out_of_fuel \<and> as_uint64 lib v \<noteq> Inl Out_of_fuel \<and>
     as_int64 lib v \<noteq> Inl Out_of_fuel \<and> as_bool lib v \<noteq> Inl Out_of_fuel \<and> as_string lib v \<noteq> Inl Out_of_fuel \<and>
     as_float lib v \<noteq> Inl Out_of_fuel \<and> as_double lib v \<noteq> Inl Out_of_fuel)"

lemma EncodeInteger_not_out_of_fuel [simp]: "EncodeInteger neg v n \<noteq> Inl Out_of_fuel"
  by (simp add: EncodeInteger_def Let_def)

lemma encode_unsigned_not_out_of_fuel [simp]: "enc (unsigned_codec :: 'a::len word codec) v sp \<noteq> Inl Out_of_fuel"
proof -
  have "EncodeUnsigned_loop v shifts sp \<noteq> Inl Out_of_fuel" for shifts and v :: "'a word"
    by (induction v shifts sp rule: EncodeUnsigned_loop.induct) (auto simp: res_bind_eq_Inl)
  then show ?thesis by (simp add: unsigned_codec_def)
qed

lemma GetSize_unsigned: "GetSize (unsigned_codec :: 'a::len word codec) v = Inr (LENGTH('a) div 8)"
  by (simp add: unsigned_codec_def)

lemma append_enum_not_out_of_fuel [simp]: "append_enum v \<noteq> Inl Out_of_fuel"
  by (auto simp: append_enum_def Encode_def enum_codec_def res_bind_eq_Inl GetSize_unsigned split: if_splits)

lemma get_not_out_of_fuel [simp]:
  "get_array v \<noteq> Inl Out_of_fuel" "get_object v \<noteq> Inl Out_of_fuel" "get_string v \<noteq> Inl Out_of_fuel"
  "get_unsigned v \<noteq> Inl Out_of_fuel"
  by (auto simp: get_array_def get_object_def get_string_def get_unsigned_def split: json.splits)

lemma res_append_eq_Inl: "res_append a b = Inl e \<longleftrightarrow> a = Inl e \<or> (\<exists>x. a = Inr x) \<and> b = Inl e"
  by (cases a) (auto simp: res_append_def res_bind_eq_Inl)

lemma encode_items_not_out_of_fuel:
  "(\<And>x. x \<in> set xs \<Longrightarrow> f x \<noteq> Inl Out_of_fuel) \<Longrightarrow> encode_items f xs \<noteq> Inl Out_of_fuel"
  by (induction xs) (auto simp: res_append_eq_Inl)

lemma Float_bits_not_out_of_fuel [simp]: "Float_bits fl MAN EXP v \<noteq> Inl Out_of_fuel"
  by (auto simp: Float_bits_def normal_mantissa_def Let_def res_bind_eq_Inl split: fp.splits if_splits)

lemma Encode_float_not_out_of_fuel [simp]: "Encode (float_codec fl MAN EXP IT) v \<noteq> Inl Out_of_fuel"
  by (auto simp: Encode_def float_codec_def res_bind_eq_Inl GetSize_unsigned)

lemma bitmask_not_out_of_fuel: "library_ok lib \<Longrightarrow> bitmask_loop lib i m xs \<noteq> Inl Out_of_fuel"
  by (induction lib i m xs rule: bitmask_loop.induct) (auto simp: library_ok_def res_bind_eq_Inl split: if_splits)

lemma size_member: "size (member_or_null ms k) < size (JObject ms)"
proof -
  have "size (member_or_null ms k) \<le> size_list (size_prod (\<lambda>_. 0) size) ms"
    by (induction ms) (auto simp: member_or_null_def split: option.splits)
  then show ?thesis by simp
qed

lemma size_element: "x \<in> set xs \<Longrightarrow> size x < size (JArray xs)"
  by (induction xs) auto

definition enough_encoder :: "nat \<Rightarrow> (AnyType \<Rightarrow> json \<Rightarrow> error + byte list) \<Rightarrow> bool" where
  "enough_encoder n E \<longleftrightarrow> (\<forall>t v. depth t + size v < n \<longrightarrow> E t v \<noteq> Inl Out_of_fuel)"

lemma enough_encoderD: "enough_encoder n E \<Longrightarrow> depth t + size v < n \<Longrightarrow> E t v \<noteq> Inl Out_of_fuel"
  unfolding enough_encoder_def by blast

lemma encode_elements_enough:
  assumes "enough_encoder n E" "get_array v = Inr xs" "depth t + size v \<le> n"
  shows "encode_items (E t) xs \<noteq> Inl Out_of_fuel"
proof (rule encode_items_not_out_of_fuel)
  fix x assume "x \<in> set xs"
  moreover have "v = JArray xs" using assms(2) by (auto simp: get_array_def split: json.splits)
  ultimately show "E t x \<noteq> Inl Out_of_fuel"
    using assms(3) size_element by (intro enough_encoderD [OF assms(1)]) fastforce
qed

lemma get_object_size:
  "get_object v = Inr ms \<Longrightarrow> size (member_or_null ms k) < size v"
  using size_member by (auto simp: get_object_def split: json.splits)

lemma encode_zcl_enough:
  assumes lib: "library_ok lib" and E: "enough_encoder n E" "size v \<le> n"
  shows "encode_zcl fl lib ctx E d v \<noteq> Inl Out_of_fuel"
proof (cases "type_case d")
  case Struct_case
  then show ?thesis
    using encode_elements_enough [OF E(1), of v _ VariantType] E(2)
    by (auto simp: encode_zcl_def encode_struct_def res_bind_eq_Inl res_append_eq_Inl)
next
  case Array_case
  have "encode_items (E (ZclType e)) xs \<noteq> Inl Out_of_fuel"
    if "get_object v = Inr ms" "get_array (member_or_null ms k) = Inr xs" for e xs ms k
    using encode_elements_enough [OF E(1) that(2), of "ZclType e"] get_object_size [OF that(1), of k] E(2) by simp
  with Array_case show ?thesis
    by (auto simp: encode_zcl_def encode_collection_def res_bind_eq_Inl Let_def res_append_eq_Inl
        split: option.splits if_splits simp: res_append_eq_Inl)
next
  case (Data_case k)
  have "encode_items (\<lambda>item. res_bind (as_unsigned_int lib item) (\<lambda>x. EncodeInteger False x 1)) xs \<noteq> Inl Out_of_fuel" for xs
    using lib by (intro encode_items_not_out_of_fuel) (auto simp: library_ok_def res_bind_eq_Inl)
  with Data_case show ?thesis by (auto simp: encode_zcl_def encode_data_def res_bind_eq_Inl split: if_splits)
next
  case (Octstr_case k)
  have "encode_items (\<lambda>item. res_bind (as_unsigned_int lib item) (\<lambda>x. EncodeInteger False x 1)) xs \<noteq> Inl Out_of_fuel" for xs
    using lib by (intro encode_items_not_out_of_fuel) (auto simp: library_ok_def res_bind_eq_Inl)
  with Octstr_case show ?thesis
    by (auto simp: encode_zcl_def encode_octstr_def res_bind_eq_Inl res_append_eq_Inl split: if_splits)
next
  case (Map_case k)
  with bitmask_not_out_of_fuel [OF lib] show ?thesis
    by (auto simp: encode_zcl_def encode_map_def res_bind_eq_Inl split: if_splits)
next
  case (String_case k)
  with lib show ?thesis
    by (auto simp: encode_zcl_def encode_string_def res_bind_eq_Inl library_ok_def
        simp: res_append_eq_Inl split: if_splits)
qed (use lib in \<open>auto simp: encode_zcl_def library_ok_def res_bind_eq_Inl encode_attribute_id_def
      split: if_splits json.splits option.splits\<close>)

lemma enough_encode: "library_ok lib \<Longrightarrow> enough_encoder fuel (encode fuel fl lib ctx)"
proof (induction fuel)
  case (Suc n)
  let ?E = "encode n fl lib ctx"
  from Suc have E: "enough_encoder n ?E" by simp
  show ?case
    unfolding enough_encoder_def
  proof (intro allI impI)
    fix t and v :: json assume t: "depth t + size v < Suc n"
    show "encode (Suc n) fl lib ctx t v \<noteq> Inl Out_of_fuel"
    proof (cases t)
      case VariantType
      have "?E (ZclType d) (member_or_null ms k) \<noteq> Inl Out_of_fuel" if "get_object v = Inr ms" for d ms k
        using t get_object_size [OF that, of k] by (intro enough_encoderD [OF E]) simp
      with VariantType Suc.prems show ?thesis
        by (auto simp: encode_variant_def res_bind_eq_Inl library_ok_def split: option.splits
            simp: res_append_eq_Inl)
    next
      case (ZclType d)
      with t encode_zcl_enough [OF Suc.prems E, of v] show ?thesis by simp
    next
      case (ObjectType ps)
      have "?E t' (member_or_null ms name) \<noteq> Inl Out_of_fuel"
        if "get_object v = Inr ms" "(name, t') \<in> set ps" for ms name t'
      proof (rule enough_encoderD [OF E])
        have "depth t' \<le> sum_list (map (\<lambda>p. depth (snd p)) ps)"
          using that(2) by (force intro: member_le_sum_list)
        with t ObjectType get_object_size [OF that(1), of name]
        show "depth t' + size (member_or_null ms name) < n" by simp
      qed
      with ObjectType show ?thesis
        by (auto simp: encode_object_def res_bind_eq_Inl intro!: encode_items_not_out_of_fuel)
    next
      case (ArrayType k e)
      with t encode_elements_enough [OF E, of v _ e] show ?thesis
        by (auto simp: encode_array_def res_bind_eq_Inl simp: res_append_eq_Inl)
    next
      case (ErrorOrType e)
      have "?E e (member_or_null ms k) \<noteq> Inl Out_of_fuel" if "get_object v = Inr ms" for ms k
        using t ErrorOrType get_object_size [OF that, of k] by (intro enough_encoderD [OF E]) simp
      moreover have "?E e JNull \<noteq> Inl Out_of_fuel"
        using t ErrorOrType by (intro enough_encoderD [OF E]) simp
      ultimately show ?thesis
        using ErrorOrType by (auto simp: encode_error_or_def res_bind_eq_Inl Let_def simp: res_append_eq_Inl split: if_splits)
    qed simp
  qed
qed (simp add: enough_encoder_def)

section \<open>Properties\<close>

text \<open>
  C32: when every element that is repeated to the end of the data takes at least one byte, the
  decoder ends: with fuel above the number of bytes and the depth of the type it returns or throws,
  and its result does not depend on the fuel.
\<close>

theorem decoder_terminates:
  assumes "progressing t"
  shows "\<exists>r. r \<noteq> Inl Out_of_fuel \<and> (\<forall>n > length bs + depth t. decode n lib ctx t (bs, att) = r)"
proof (intro exI conjI allI impI)
  let ?n = "Suc (length bs + depth t)"
  show "decode ?n lib ctx t (bs, att) \<noteq> Inl Out_of_fuel"
    using assms by (intro enoughD [OF enough_decode]) auto
  show "decode n lib ctx t (bs, att) = decode ?n lib ctx t (bs, att)" if "length bs + depth t < n" for n
    using assms that by (intro decode_fuel_irrelevant) auto
qed

text \<open>The types whose elements take no bytes at all.\<close>

fun idle :: "AnyType \<Rightarrow> bool" where
  "idle (ZclType d) \<longleftrightarrow> type_case d = Nodata_case \<or> type_case d = Unk_case"
| "idle (ObjectType ps) \<longleftrightarrow> list_all (\<lambda>p. idle (snd p)) ps"
| "idle _ \<longleftrightarrow> False"

lemma decode_idle: "idle t \<Longrightarrow> decode n lib ctx t s = Inl Out_of_fuel \<or> (\<exists>v. decode n lib ctx t s = Inr (v, s))"
proof (induction n arbitrary: t s)
  case (Suc n)
  show ?case
  proof (cases t)
    case (ObjectType ps)
    have "decode_properties (decode n lib ctx) ps ret s = Inl Out_of_fuel
        \<or> (\<exists>r. decode_properties (decode n lib ctx) ps ret s = Inr (r, s))"
      if "list_all (\<lambda>p. idle (snd p)) ps" for ret
      using that
    proof (induction ps arbitrary: ret)
      case (Cons p ps)
      obtain name t' where p: "p = (name, t')" by force
      with Cons.prems have ih: "\<And>ret. decode_properties (decode n lib ctx) ps ret s = Inl Out_of_fuel
          \<or> (\<exists>r. decode_properties (decode n lib ctx) ps ret s = Inr (r, s))" and "idle t'"
        using Cons.IH by auto
      from Suc.IH [OF \<open>idle t'\<close>, of s] show ?case
      proof
        assume "\<exists>v. decode n lib ctx t' s = Inr (v, s)"
        then obtain v where "decode n lib ctx t' s = Inr (v, s)" by blast
        with p ih [of "obj_set name v ret"] show ?thesis by simp
      qed (simp add: p)
    qed simp
    from this [of "[]"] ObjectType Suc.prems show ?thesis by (auto simp: decode_object_def)
  qed (use Suc.prems in \<open>auto simp: decode_zcl_def\<close>)
qed simp

text \<open>
  C33: a type that repeats an element without bytes to the end of the data never finishes on data:
  whatever the fuel, it runs out. The database accepts such a type, for instance
  \<open>repeated:nodata\<close>.
\<close>

theorem idle_repetition_never_ends:
  assumes "idle t"
  shows "decode n lib ctx (ArrayType 0 t) (b # bs, att) = Inl Out_of_fuel
    \<and> ParseTypeFromPTree m ''repeated:nodata'' tree = Some (ArrayType 0 (ZclType DataType_nodata))"
proof
  have loop: "decode_until_end k (decode n lib ctx t) (b # bs, att) = Inl Out_of_fuel" for k n
  proof (induction k)
    case (Suc k)
    with decode_idle [OF assms, of n lib ctx "(b # bs, att)"] show ?case by auto
  qed simp
  show "decode n lib ctx (ArrayType 0 t) (b # bs, att) = Inl Out_of_fuel"
    by (cases n) (simp_all add: decode_array_def loop)
  have "stringStartsWith ''repeated:nodata'' ''repeated:'' = Some ''nodata''" by (simp add: stringStartsWith_def)
  moreover have "stringStartsWith ''nodata'' prefix = None"
    if "prefix \<in> {''repeated:'', ''arr8:'', ''arr16:'', ''error_or:''}" for prefix
    using that by (auto simp: stringStartsWith_def)
  moreover have "string_to_enum DataType_table ''nodata'' = Some DataType_nodata"
    using data_type.parse_name [of DataType_nodata "''nodata''"] by (simp add: DataType_table_def)
  ultimately show "ParseTypeFromPTree m ''repeated:nodata'' tree = Some (ArrayType 0 (ZclType DataType_nodata))"
    by (simp add: ParseTypeFromPTree.simps(1) [of m "''repeated:nodata''"] ParseTypeFromPTree.simps(1) [of m "''nodata''"])
qed

text \<open>
  C34: the encoder always ends: with fuel above the depth of the type and the size of the value it
  returns or throws.
\<close>

theorem encoder_terminates:
  assumes "library_ok lib" "depth t + size v < n"
  shows "encode n floor_log2 lib ctx t v \<noteq> Inl Out_of_fuel"
  using enough_encoderD [OF enough_encode [OF assms(1)] assms(2)] .

section \<open>Examples\<close>

text \<open>The type of the global command \<open>Report Attributes\<close>.\<close>

definition reports_type :: AnyType where
  "reports_type = ArrayType 0 (ObjectType [(''Attribute identifier'', ZclType DataType_attribId),
     (''Attribute data'', VariantType)])"

lemma progressing_reports_type [simp]: "progressing reports_type"
  by (simp add: reports_type_def type_case_def)

theorem decoder_terminates_witness:
  "\<exists>r. r \<noteq> Inl Out_of_fuel \<and>
     (\<forall>n > length [0x05, 0x00, 0x42, 0x01, 0x41 :: byte] + depth reports_type.
        decode n (strict_library (\<lambda>_. [])) \<lparr> context_cluster = None \<rparr> reports_type ([0x05, 0x00, 0x42, 0x01, 0x41], None) = r)"
  by (rule decoder_terminates [OF progressing_reports_type])

theorem idle_repetition_never_ends_witness:
  "\<forall>n. decode n (strict_library (\<lambda>_. [])) \<lparr> context_cluster = None \<rparr>
     (ArrayType 0 (ObjectType [(''nothing'', ZclType DataType_nodata)])) ([0], None) = Inl Out_of_fuel"
  using idle_repetition_never_ends [of "ObjectType [(''nothing'', ZclType DataType_nodata)]"]
  by (simp add: type_case_def)

lemma strict_library_ok: "library_ok (strict_library text_of)"
  by (auto simp: library_ok_def strict_library_def split: json.splits)

theorem encoder_terminates_witness:
  "encode 5 (\<lambda>_. 0) (strict_library (\<lambda>_. [])) \<lparr> context_cluster = None \<rparr> (ArrayType 1 (ZclType DataType_bool))
     (JArray [JBool True, JNull]) \<noteq> Inl Out_of_fuel"
  by (rule encoder_terminates [OF strict_library_ok]) simp

end
