(* ===== verification/Hub.thy ===== *)
theory Hub
  imports ZclEndpoint ClusterLookup DynamicProgress
begin

text \<open>
  The hub itself, \<^verbatim>\<open>src/main.cpp\<close>: it turns MQTT messages into ZCL commands and frames from the
  dongle into MQTT messages.

  The handlers run in one thread. A future the hub asks for is a promise of the request layer, and
  what \<open>then\<close> attaches to it is kept under that promise in \<open>waiting\<close>. With the immediate executor
  it runs inside the handler that calls the promise; here it runs when that handler is done, which
  leaves the same state, because such a handler calls one promise and the continuation only appends
  to the list of handlers. A call of \<open>MqttWrapper::Publish\<close> appends to the log \<open>published\<close>. Futures
  that are only logged are dropped. \<open>hangs\<close> is set when a decoder never returns.
\<close>

section \<open>Environment and state\<close>

text \<open>
  \<open>tao::json::from_string\<close>, \<open>std::log2\<close>, and \<open>std::regex_match\<close> for the patterns that contain the
  instance name: a pattern and a text give the texts of the groups, or throw when the pattern is
  not one.
\<close>

record environment =
  env_json :: json_library
  from_string :: "string \<Rightarrow> error + json"
  env_log2 :: "rat \<Rightarrow> int"
  full_match :: "string \<Rightarrow> string \<Rightarrow> error + string list option"

record settings =
  mqtt_prefix :: string
  instance_id :: string
  mqtt_recursive_publish :: bool
  cluster_db :: ClusterDb

record publication =
  topic_name :: string
  message_text :: string
  publish_qos :: "8 word"
  publish_retain :: bool

datatype hub_continuation =
    Publish_linkquality "IEEEAddress future" IncomingMsg
  | Publish_command "IEEEAddress future" "8 word" ClusterInfo CommandInfo "byte list"
  | Send_encoded "ShortAddress future" "8 word" ClusterInfo CommandInfo "byte list"

record hub =
  hub_api :: api
  hub_endpoint :: endpoint
  waiting :: "(promise \<times> hub_continuation) list"
  published :: "publication list"
  hangs :: bool

type_synonym 'a step = "hub \<Rightarrow> hub \<times> (error + 'a)"

definition done_step :: "unit step" where
  "done_step s = (s, Inr ())"

definition step_with :: "(error + 'a) \<Rightarrow> ('a \<Rightarrow> 'b step) \<Rightarrow> 'b step" where
  "step_with r k s = (case r of Inl e \<Rightarrow> (s, Inl e) | Inr x \<Rightarrow> k x s)"

text \<open>A request whose future gets a continuation, and one whose future is only logged.\<close>

definition request :: "'a future call \<Rightarrow> ('a future \<Rightarrow> hub_continuation) \<Rightarrow> unit step" where
  "request m k s = (case m (hub_api s) of
       (a, Inl e) \<Rightarrow> (s\<lparr> hub_api := a \<rparr>, Inl e)
     | (a, Inr f) \<Rightarrow> (case f of Future p d \<Rightarrow>
         (s\<lparr> hub_api := a, waiting := waiting s @ [(p, k f)] \<rparr>, Inr ())))"

definition detached :: "'a future call \<Rightarrow> unit step" where
  "detached m s = (case m (hub_api s) of (a, r) \<Rightarrow> (s\<lparr> hub_api := a \<rparr>, res_bind r (\<lambda>f. Inr ())))"

text \<open>\<open>mqtt::qos::at_least_once\<close> and no retain, as in every call of the hub.\<close>

definition at_least_once :: "8 word" where "at_least_once = 1"

definition Publish :: "string \<Rightarrow> string \<Rightarrow> hub \<Rightarrow> hub" where
  "Publish topic message s = s\<lparr> published := published s @ [\<lparr> topic_name = topic, message_text = message,
     publish_qos = at_least_once, publish_retain = False \<rparr>] \<rparr>"

section \<open>Topics\<close>

definition MakePrefixEndWithSlash :: "string \<Rightarrow> string" where
  "MakePrefixEndWithSlash s = (if length s > 0 \<and> s ! (length s - 1) \<noteq> CHR ''/'' then s @ ''/'' else s)"

definition MakeNameSafeForMqtt :: "string \<Rightarrow> string" where
  "MakeNameSafeForMqtt name = filter (\<lambda>c. c \<noteq> CHR ''/'') name"

definition starts_with :: "string \<Rightarrow> string \<Rightarrow> bool" where
  "starts_with s p \<longleftrightarrow> take (length p) s = p"

definition controlTopic :: string where "controlTopic = ''control/''"

text \<open>
  The fixed patterns \<open>([0-9a-fA-F]+)/([0-9]+)/out/([^/]+)\<close> and
  \<open>([0-9a-fA-F]+)/([0-9]+)/out/([^/]+)/([^/]+)\<close>: no group contains a slash, so the text is split there.
\<close>

fun split_slash :: "string \<Rightarrow> string list" where
  "split_slash [] = [[]]"
| "split_slash (c # cs) = (if c = CHR ''/'' then [] # split_slash cs
     else (case split_slash cs of [] \<Rightarrow> [[c]] | w # ws \<Rightarrow> (c # w) # ws))"

definition digits_of_base :: "nat \<Rightarrow> string \<Rightarrow> bool" where
  "digits_of_base base s \<longleftrightarrow> s \<noteq> [] \<and> list_all (is_digit_in base) s"

definition match_command_short :: "string \<Rightarrow> (string \<times> string \<times> string) option" where
  "match_command_short topic = (case split_slash topic of
       [a, b, out, c] \<Rightarrow>
         if digits_of_base 16 a \<and> digits_of_base 10 b \<and> out = ''out'' \<and> c \<noteq> [] then Some (a, b, c) else None
     | _ \<Rightarrow> None)"

definition match_command_long :: "string \<Rightarrow> (string \<times> string \<times> string \<times> string) option" where
  "match_command_long topic = (case split_slash topic of
       [a, b, out, c, d] \<Rightarrow>
         if digits_of_base 16 a \<and> digits_of_base 10 b \<and> out = ''out'' \<and> c \<noteq> [] \<and> d \<noteq> [] then Some (a, b, c, d) else None
     | _ \<Rightarrow> None)"

section \<open>From MQTT to the dongle\<close>

definition OnPublishPermitJoin :: "string \<Rightarrow> unit step" where
  "OnPublishPermitJoin message = step_with (stoul message 0) (\<lambda>(seconds, endpos).
     if endpos \<noteq> length message then done_step
     else detached (ZdoMgmtPermitJoin 15 0xFFFC (word_of_nat (if seconds \<ge> 0xFF then 0xFE else seconds)) 0))"

definition OnPublishDirectJoin :: "IEEEAddress \<Rightarrow> unit step" where
  "OnPublishDirectJoin device_address = detached (ZdoMgmtDirectJoin 0x0000 device_address)"

text \<open>
  The encoder and the decoder with fuel that is enough (\<open>encoder_terminates\<close>, \<open>decoder_terminates\<close>).
\<close>

definition Encode_json :: "environment \<Rightarrow> Context \<Rightarrow> AnyType \<Rightarrow> json \<Rightarrow> error + byte list" where
  "Encode_json env ctx t v = encode (Suc (depth t + size v)) (env_log2 env) (env_json env) ctx t v"

definition Decode_json :: "environment \<Rightarrow> Context \<Rightarrow> AnyType \<Rightarrow> byte list \<Rightarrow> error + (json \<times> byte list)" where
  "Decode_json env ctx t bs = Decode_any (Suc (length bs + depth t)) (env_json env) ctx t bs"

definition hub_SendCommand :: "environment \<Rightarrow> IEEEAddress \<Rightarrow> 8 word \<Rightarrow> ClusterInfo \<Rightarrow> CommandInfo \<Rightarrow> json \<Rightarrow> unit step" where
  "hub_SendCommand env destination_address destination_endpoint cluster_info command_info json_data =
     (case Encode_json env \<lparr> context_cluster = Some cluster_info \<rparr> (ObjectType (command_data command_info)) json_data of
        Inl e \<Rightarrow> done_step
      | Inr payload \<Rightarrow> request (UtilAddrmgrExtAddrLookup destination_address)
          (\<lambda>f. Send_encoded f destination_endpoint cluster_info command_info payload))"

definition OnPublishCommandLong :: "environment \<Rightarrow> settings \<Rightarrow> IEEEAddress \<Rightarrow> 8 word \<Rightarrow> string \<Rightarrow> string \<Rightarrow> string
    \<Rightarrow> unit step" where
  "OnPublishCommandLong env cfg destination_address destination_endpoint cluster_nm command_nm message =
     (case ClusterByName cluster_nm (cluster_db cfg) of
        None \<Rightarrow> done_step
      | Some cluster_info \<Rightarrow>
          (case CommandByName (ClusterDb.cluster_id cluster_info) ZclDirection_ClientToServer command_nm (cluster_db cfg) of
             None \<Rightarrow> done_step
           | Some command_info \<Rightarrow>
               (case (if length message > 0 then from_string env message else Inr JNull) of
                  Inl e \<Rightarrow> done_step
                | Inr json_data \<Rightarrow> hub_SendCommand env destination_address destination_endpoint cluster_info command_info json_data)))"

definition OnPublishCommandShort :: "environment \<Rightarrow> settings \<Rightarrow> IEEEAddress \<Rightarrow> 8 word \<Rightarrow> string \<Rightarrow> string \<Rightarrow> unit step" where
  "OnPublishCommandShort env cfg destination_address destination_endpoint cluster_nm message =
     (case ClusterByName cluster_nm (cluster_db cfg) of
        None \<Rightarrow> done_step
      | Some cluster_info \<Rightarrow>
          (case res_bind (from_string env message) get_object of
             Inl e \<Rightarrow> done_step
           | Inr obj_message \<Rightarrow>
               (case map_of obj_message ''command'' of
                  None \<Rightarrow> done_step
                | Some found_command \<Rightarrow> step_with (get_string found_command) (\<lambda>name.
                    case CommandByName (ClusterDb.cluster_id cluster_info) ZclDirection_ClientToServer name (cluster_db cfg) of
                      None \<Rightarrow> done_step
                    | Some command_info \<Rightarrow>
                        let arguments = (case map_of obj_message ''arguments'' of None \<Rightarrow> JNull | Some found \<Rightarrow> found)
                        in hub_SendCommand env destination_address destination_endpoint cluster_info command_info arguments))))"

definition OnPublish_control :: "environment \<Rightarrow> settings \<Rightarrow> string \<Rightarrow> string \<Rightarrow> unit step" where
  "OnPublish_control env cfg topic message =
     (let instance_prefix = MakePrefixEndWithSlash (instance_id cfg) in
      if topic = ''permitjoin'' then OnPublishPermitJoin message
      else step_with (full_match env (instance_prefix @ ''permitjoin'') topic) (\<lambda>permitjoin.
        if permitjoin \<noteq> None then OnPublishPermitJoin message
        else step_with (full_match env (instance_prefix @ ''directjoin/([0-9a-fA-F]+)'') topic) (\<lambda>directjoin.
          case directjoin of
            None \<Rightarrow> done_step
          | Some groups \<Rightarrow> step_with (stoul (groups ! 0) 16) (\<lambda>(a, _). OnPublishDirectJoin (word_of_nat a)))))"

text \<open>The body of the \<open>try\<close> block, and the handler, which swallows the exception.\<close>

definition OnPublish_try :: "environment \<Rightarrow> settings \<Rightarrow> string \<Rightarrow> string \<Rightarrow> unit step" where
  "OnPublish_try env cfg topic message =
     (if \<not> starts_with topic (mqtt_prefix cfg) then done_step
      else let topic = drop (length (mqtt_prefix cfg)) topic in
        if starts_with topic controlTopic then OnPublish_control env cfg (drop (length controlTopic) topic) message
        else case match_command_short topic of
          Some (a, b, c) \<Rightarrow> step_with (stoul a 16) (\<lambda>(address, _). step_with (stoul b 10) (\<lambda>(endpoint, _).
            OnPublishCommandShort env cfg (word_of_nat address) (word_of_nat endpoint) c message))
        | None \<Rightarrow> (case match_command_long topic of
            Some (a, b, c, d) \<Rightarrow> step_with (stoul a 16) (\<lambda>(address, _). step_with (stoul b 10) (\<lambda>(endpoint, _).
              OnPublishCommandLong env cfg (word_of_nat address) (word_of_nat endpoint) c d message))
          | None \<Rightarrow> done_step))"

definition OnPublish :: "environment \<Rightarrow> settings \<Rightarrow> string \<Rightarrow> string \<Rightarrow> hub \<Rightarrow> hub" where
  "OnPublish env cfg topic message s = fst (OnPublish_try env cfg topic message s)"

section \<open>From the dongle to MQTT\<close>

text \<open>\<open>boost::format("%016X")\<close> of an address.\<close>

definition show_address :: "IEEEAddress \<Rightarrow> string" where
  "show_address a = show_HEX_padded 16 (unat a)"

definition OnPermitJoinHelper :: "settings \<Rightarrow> string \<Rightarrow> 8 word \<Rightarrow> hub \<Rightarrow> hub" where
  "OnPermitJoinHelper cfg instance_nm duration =
     Publish (mqtt_prefix cfg @ ''report/'' @ MakePrefixEndWithSlash instance_nm @ ''permitjoin'') (show_dec (unat duration))"

definition OnPermitJoin :: "settings \<Rightarrow> 8 word \<Rightarrow> hub \<Rightarrow> hub" where
  "OnPermitJoin cfg duration s =
     (let s = OnPermitJoinHelper cfg [] duration s
      in if length (instance_id cfg) > 0 then OnPermitJoinHelper cfg (instance_id cfg) duration s else s)"

definition OnTcDevice :: "environment \<Rightarrow> settings \<Rightarrow> ShortAddress \<Rightarrow> IEEEAddress \<Rightarrow> ShortAddress \<Rightarrow> hub \<Rightarrow> hub" where
  "OnTcDevice env cfg network_address ieee_address parent_address =
     Publish (mqtt_prefix cfg @ ''report/trustcenter_device'')
       (to_string (env_json env) (object [(''network_address'', JUnsigned (ucast network_address)),
          (''ieee_address'', JString (show_address ieee_address)),
          (''parent_address'', JUnsigned (ucast parent_address))]))"

definition OnEndDeviceAnnounce :: "environment \<Rightarrow> settings \<Rightarrow> ShortAddress \<Rightarrow> ShortAddress \<Rightarrow> IEEEAddress \<Rightarrow> 8 word
    \<Rightarrow> hub \<Rightarrow> hub" where
  "OnEndDeviceAnnounce env cfg source network_address ieee_address capabilities =
     Publish (mqtt_prefix cfg @ ''report/end_device_announce'')
       (to_string (env_json env) (object [(''source'', JUnsigned (ucast source)),
          (''network_address'', JUnsigned (ucast network_address)),
          (''ieee_address'', JString (show_address ieee_address)),
          (''capabilities'', JSigned (ucast capabilities))]))"

definition hub_OnIncomingMsg :: "IncomingMsg \<Rightarrow> unit step" where
  "hub_OnIncomingMsg message =
     request (UtilAddrmgrNwkAddrLookup (msg_SrcAddr message)) (\<lambda>f. Publish_linkquality f message)"

lemma size_object_item: "item \<in> set ms \<Longrightarrow> size (snd item) < size (JObject ms)"
proof -
  have "item \<in> set ms \<Longrightarrow> size (snd item) \<le> size_list (size_prod (\<lambda>_. 0) size) ms"
    by (induction ms) (auto simp: prod.size_gen)
  then show "item \<in> set ms \<Longrightarrow> size (snd item) < size (JObject ms)" by simp
qed

text \<open>The topics and texts \<open>PublishValue\<close> publishes, in order.\<close>

function PublishValue :: "(json \<Rightarrow> string) \<Rightarrow> bool \<Rightarrow> string \<Rightarrow> json \<Rightarrow> (string \<times> string) list" where
  "PublishValue text_of recursive topic value = (topic, text_of value) #
     (if recursive then
        (case value of
           JObject object_value \<Rightarrow>
             concat (map (\<lambda>item. PublishValue text_of recursive (topic @ ''/'' @ fst item) (snd item)) object_value)
         | JArray array_value \<Rightarrow>
             concat (map (\<lambda>index. PublishValue text_of recursive (topic @ ''/'' @ show_dec index) (array_value ! index))
               [0..<length array_value])
         | _ \<Rightarrow> [])
      else [])"
  by pat_completeness auto
termination
proof (relation "measure (\<lambda>(_, _, _, v). size v)", goal_cases)
  case (2 f r t v array_value index)
  then show ?case using size_element [of "array_value ! index" array_value] by simp
next
  case (3 f r t v object_value item)
  then show ?case using size_object_item [of item object_value] by simp
qed simp

declare PublishValue.simps [simp del]

definition publish_all :: "(string \<times> string) list \<Rightarrow> hub \<Rightarrow> hub" where
  "publish_all ps s = foldl (\<lambda>s (topic, message). Publish topic message s) s ps"

definition JsonGetProperty :: "json \<Rightarrow> string \<Rightarrow> json" where
  "JsonGetProperty object_value property = (case object_value of
       JObject object_map \<Rightarrow> (case map_of object_map property of None \<Rightarrow> JNull | Some found \<Rightarrow> found)
     | _ \<Rightarrow> JNull)"

definition JsonAsArray :: "json \<Rightarrow> json list" where
  "JsonAsArray array_value = (case array_value of JArray xs \<Rightarrow> xs | _ \<Rightarrow> [])"

text \<open>The part of a topic that names the attribute of a report.\<close>

definition report_subtopic :: "environment \<Rightarrow> json \<Rightarrow> string" where
  "report_subtopic env i = (case i of
       JString name \<Rightarrow> name
     | JUnsigned w \<Rightarrow> ''0x'' @ show_HEX_padded 4 (unat w)
     | _ \<Rightarrow> to_string (env_json env) i)"

text \<open>A repeated object type with an attribute identifier as its first property.\<close>

definition repeated_reports :: "CommandInfo \<Rightarrow> (string \<times> ObjectEntry \<times> ObjectEntry) option" where
  "repeated_reports command_info = (case command_data command_info of
       (name, ArrayType _ (ObjectType (i # v # _))) # _ \<Rightarrow>
         if snd i = ZclType DataType_attribId then Some (name, i, v) else None
     | _ \<Rightarrow> None)"

definition command_topic :: "settings \<Rightarrow> IEEEAddress \<Rightarrow> 8 word \<Rightarrow> ClusterInfo \<Rightarrow> CommandInfo \<Rightarrow> string" where
  "command_topic cfg source endpoint cluster_info command_info =
     mqtt_prefix cfg @ show_address source @ ''/'' @ show_dec (unat endpoint) @ ''/in/''
       @ cluster_name cluster_info @ ''/'' @ command_name command_info"

definition command_publications :: "environment \<Rightarrow> settings \<Rightarrow> string \<Rightarrow> CommandInfo \<Rightarrow> json \<Rightarrow> (string \<times> string) list" where
  "command_publications env cfg topic command_info json_payload =
     (let publish = PublishValue (to_string (env_json env)) (mqtt_recursive_publish cfg) in
      publish topic json_payload @
      (case repeated_reports command_info of
         None \<Rightarrow> []
       | Some (name, i, v) \<Rightarrow> concat (map (\<lambda>report.
           publish (topic @ ''/'' @ report_subtopic env (JsonGetProperty report (fst i))) (JsonGetProperty report (fst v)))
           (JsonAsArray (JsonGetProperty json_payload name)))))"

definition OnZclCommand_decoded :: "environment \<Rightarrow> settings \<Rightarrow> IEEEAddress \<Rightarrow> 8 word \<Rightarrow> ClusterInfo \<Rightarrow> CommandInfo
    \<Rightarrow> byte list \<Rightarrow> hub \<Rightarrow> hub" where
  "OnZclCommand_decoded env cfg source endpoint cluster_info command_info payload s =
     (case Decode_json env \<lparr> context_cluster = Some cluster_info \<rparr> (ObjectType (command_data command_info)) payload of
        Inl e \<Rightarrow> if e = Out_of_fuel then s\<lparr> hangs := True \<rparr> else s
      | Inr (json_payload, parsed_until) \<Rightarrow>
          publish_all (command_publications env cfg (command_topic cfg source endpoint cluster_info command_info)
            command_info json_payload) s)"

definition OnZclCommand :: "settings \<Rightarrow> on_command \<Rightarrow> unit step" where
  "OnZclCommand cfg command =
     (case ClusterById (ZclEndpoint.cluster_id command) (cluster_db cfg) of
        None \<Rightarrow> done_step
      | Some cluster_info \<Rightarrow>
          (case CommandById (ZclEndpoint.cluster_id command) (ZclEndpoint.command_id command)
              (is_global_command command) (command_direction command) (cluster_db cfg) of
             None \<Rightarrow> done_step
           | Some command_info \<Rightarrow> request (UtilAddrmgrNwkAddrLookup (source_address command))
               (\<lambda>f. Publish_command f (source_endpoint command) cluster_info command_info (command_payload command))))"

section \<open>Events\<close>

text \<open>What runs when a future has its value; an exception is only logged.\<close>

definition run_continuation :: "environment \<Rightarrow> settings \<Rightarrow> hub_continuation \<Rightarrow> error + byte list \<Rightarrow> hub \<Rightarrow> hub" where
  "run_continuation env cfg k r s = (case k of
       Publish_linkquality (Future p d) message \<Rightarrow> (case res_bind r d of
           Inl e \<Rightarrow> s
         | Inr ieee_addr \<Rightarrow> Publish (mqtt_prefix cfg @ show_address ieee_addr @ ''/linkquality'')
             (show_dec (unat (msg_LinkQuality message))) s)
     | Publish_command (Future p d) endpoint cluster_info command_info payload \<Rightarrow> (case res_bind r d of
           Inl e \<Rightarrow> s
         | Inr source \<Rightarrow> OnZclCommand_decoded env cfg source endpoint cluster_info command_info payload s)
     | Send_encoded (Future p d) destination_endpoint cluster_info command_info payload \<Rightarrow> (case res_bind r d of
           Inl e \<Rightarrow> s
         | Inr short_address \<Rightarrow>
             (case SendCommand short_address destination_endpoint (ClusterDb.cluster_id cluster_info)
                 (is_global command_info) ZclDirection_ClientToServer (ClusterDb.command_id command_info) payload
                 (hub_endpoint s, hub_api s) of
                ((ep, a), result) \<Rightarrow> s\<lparr> hub_endpoint := ep, hub_api := a \<rparr>)))"

definition resume :: "environment \<Rightarrow> settings \<Rightarrow> promise \<Rightarrow> error + byte list \<Rightarrow> hub \<Rightarrow> hub" where
  "resume env cfg p r s = (case map_of (waiting s) p of
       None \<Rightarrow> s
     | Some k \<Rightarrow> if hangs s then s
         else run_continuation env cfg k r (s\<lparr> waiting := filter (\<lambda>(q, _). q \<noteq> p) (waiting s) \<rparr>))"

text \<open>The slots of the signals of the request layer; the endpoint's own slot was connected first.\<close>

definition on_event :: "environment \<Rightarrow> settings \<Rightarrow> event \<Rightarrow> hub \<Rightarrow> hub" where
  "on_event env cfg ev s = (if hangs s then s else case ev of
       Incoming_msg message \<Rightarrow>
         (case Listener message (hub_endpoint s) of
            (ep, commands) \<Rightarrow> fst (hub_OnIncomingMsg message
              (foldl (\<lambda>s command. fst (OnZclCommand cfg command s)) (s\<lparr> hub_endpoint := ep \<rparr>) commands)))
     | Permit_join duration \<Rightarrow> OnPermitJoin cfg duration s
     | Trustcenter_device network_address ieee_address parent_address \<Rightarrow>
         OnTcDevice env cfg network_address ieee_address parent_address s
     | End_device_announce source network_address ieee_address capabilities \<Rightarrow>
         OnEndDeviceAnnounce env cfg source network_address ieee_address capabilities s
     | _ \<Rightarrow> s)"

text \<open>What a handler of the request layer has emitted and settled is passed on to the hub.\<close>

definition after_api :: "environment \<Rightarrow> settings \<Rightarrow> api \<Rightarrow> hub \<Rightarrow> hub" where
  "after_api env cfg a s =
     (let old = hub_api s;
          s = foldl (\<lambda>s ev. on_event env cfg ev s) (s\<lparr> hub_api := a \<rparr>) (drop (length (emitted old)) (emitted a))
      in foldl (\<lambda>s (p, r). resume env cfg p r s) s (drop (length (settled old)) (settled a)))"

datatype hub_event =
    Frame_received ZnpCommandType ZnpCommand "byte list"
  | Timer_expired timer
  | Mqtt_received string string

definition hub_step :: "environment \<Rightarrow> settings \<Rightarrow> hub_event \<Rightarrow> hub \<Rightarrow> hub" where
  "hub_step env cfg ev s = (if hangs s then s else case ev of
       Frame_received type command payload \<Rightarrow> after_api env cfg (OnFrame type command payload (hub_api s)) s
     | Timer_expired t \<Rightarrow> after_api env cfg (TimerExpired t (hub_api s)) s
     | Mqtt_received topic message \<Rightarrow> OnPublish env cfg topic message s)"

definition hub_run :: "environment \<Rightarrow> settings \<Rightarrow> hub_event list \<Rightarrow> hub \<Rightarrow> hub" where
  "hub_run env cfg evs s = foldl (\<lambda>s ev. hub_step env cfg ev s) s evs"

definition hub_ctor :: "api \<Rightarrow> endpoint \<Rightarrow> hub" where
  "hub_ctor a ep = \<lparr> hub_api = a, hub_endpoint = ep, waiting = [], published = [], hangs = False \<rparr>"

end
