(* ===== verification/HubTopics.thy ===== *)
theory HubTopics
  imports Hub
begin

text \<open>
  The topics of \<open>OnPublish\<close> and of the hub's own publications: which texts the patterns match, which
  topics the hub publishes under, that none of these is taken for a command, and what recursive
  publishing publishes.
\<close>

section \<open>Splitting a topic\<close>

lemma split_slash_nonempty [simp]: "split_slash s \<noteq> []"
  by (induction s) (auto split: list.split)

lemma split_slash_word: "CHR ''/'' \<notin> set w \<Longrightarrow> split_slash w = [w]"
  by (induction w) auto

lemma split_slash_append: "CHR ''/'' \<notin> set w \<Longrightarrow> split_slash (w @ CHR ''/'' # rest) = w # split_slash rest"
  by (induction w) auto

lemma digit_char_neq:
  assumes "d < 16"
  shows "digit_char d \<noteq> CHR ''/''" "digit_char d \<noteq> CHR ''c''"
proof -
  show "digit_char d \<noteq> CHR ''/''"
  proof
    assume "digit_char d = CHR ''/''"
    then have "of_char (digit_char d) = (47 :: nat)" by simp
    with assms show False by (auto simp: of_char_digit_char split: if_splits)
  qed
  show "digit_char d \<noteq> CHR ''c''"
  proof
    assume "digit_char d = CHR ''c''"
    then have "of_char (digit_char d) = (99 :: nat)" by simp
    with assms show False by (auto simp: of_char_digit_char split: if_splits)
  qed
qed

lemma digits_of_shown_base:
  assumes "\<forall>d \<in> set ds. d < base" "ds \<noteq> []" "base \<le> 16"
  shows "digits_of_base base (map digit_char ds)" "CHR ''/'' \<notin> set (map digit_char ds)"
proof -
  show "digits_of_base base (map digit_char ds)"
    using digits_of_shown(2) [of base ds] assms by (simp add: digits_of_base_def list_all_iff)
  show "CHR ''/'' \<notin> set (map digit_char ds)"
  proof
    assume "CHR ''/'' \<in> set (map digit_char ds)"
    then obtain d where d: "d \<in> set ds" "digit_char d = CHR ''/''" by auto
    then have "d < 16" using assms(1,3) by fastforce
    with d(2) digit_char_neq(1) show False by simp
  qed
qed

lemma show_dec_digits: "digits_of_base 10 (show_dec n)" "CHR ''/'' \<notin> set (show_dec n)"
  using digits_of_shown_base [OF nat_digits_all nat_digits_nonempty, of 10 n] by (simp_all add: show_dec_def)

lemma show_address_digits: "digits_of_base 16 (show_address a)" "CHR ''/'' \<notin> set (show_address a)"
  using digits_of_shown_base [OF padded_digits_facts(1,2), of 16 "unat a"]
  by (simp_all add: show_address_def show_HEX_padded_digits)

lemma stoul_show_address: "stoul (show_address a) 16 = Inr (unat a, length (show_address a))"
proof -
  have "unat a < 2 ^ LENGTH(64)" by (rule unsigned_less)
  then show ?thesis unfolding show_address_def by (intro stoul_show_HEX_padded) (simp add: ULONG_MAX_def)
qed

text \<open>No address starts like the control topic.\<close>

lemma not_control: "\<not> starts_with (show_address a @ rest) controlTopic"
proof
  assume h: "starts_with (show_address a @ rest) controlTopic"
  obtain c cs where c: "show_address a = c # cs"
    using show_address_digits(1) [of a] by (cases "show_address a") (auto simp: digits_of_base_def)
  with h have "c = CHR ''c''" by (simp add: starts_with_def controlTopic_def)
  moreover obtain d ds where "padded_digits 16 (unat a) = d # ds"
    using padded_digits_facts(2) [of 16 "unat a"] by (cases "padded_digits 16 (unat a)") auto
  moreover from this have "c = digit_char d" "d < 16"
    using c padded_digits_facts(1) [of 16 "unat a"] by (auto simp: show_address_def show_HEX_padded_digits)
  ultimately show False using digit_char_neq(2) by simp
qed

section \<open>Routing\<close>

lemma starts_with_append [simp]: "starts_with (p @ s) p"
  by (simp add: starts_with_def)

lemmas split_simps = split_slash_append split_slash_word show_address_digits show_dec_digits

lemma match_long:
  assumes "CHR ''/'' \<notin> set c" "CHR ''/'' \<notin> set d" "c \<noteq> []" "d \<noteq> []"
  shows "match_command_short (show_address a @ ''/'' @ show_dec n @ ''/out/'' @ c @ ''/'' @ d) = None"
    "match_command_long (show_address a @ ''/'' @ show_dec n @ ''/out/'' @ c @ ''/'' @ d) = Some (show_address a, show_dec n, c, d)"
  using assms split_slash_append [of "''out''" "c @ CHR ''/'' # d"]
  by (simp_all add: match_command_short_def match_command_long_def split_simps)

lemma match_short:
  assumes "CHR ''/'' \<notin> set c" "c \<noteq> []"
  shows "match_command_short (show_address a @ ''/'' @ show_dec n @ ''/out/'' @ c) = Some (show_address a, show_dec n, c)"
  using assms split_slash_append [of "''out''" c]
  by (simp add: match_command_short_def split_simps)

lemma route_long:
  assumes "CHR ''/'' \<notin> set c" "CHR ''/'' \<notin> set d" "c \<noteq> []" "d \<noteq> []" "n \<le> ULONG_MAX"
  shows "OnPublish_try env cfg (mqtt_prefix cfg @ show_address a @ ''/'' @ show_dec n @ ''/out/'' @ c @ ''/'' @ d) message
    = OnPublishCommandLong env cfg a (word_of_nat n) c d message"
  unfolding OnPublish_try_def Let_def
  using match_long [OF assms(1-4)] assms(5) not_control
  by (simp add: stoul_show_address stoul_show_dec step_with_def [abs_def])

lemma route_short:
  assumes "CHR ''/'' \<notin> set c" "c \<noteq> []" "n \<le> ULONG_MAX"
  shows "OnPublish_try env cfg (mqtt_prefix cfg @ show_address a @ ''/'' @ show_dec n @ ''/out/'' @ c) message
    = OnPublishCommandShort env cfg a (word_of_nat n) c message"
  unfolding OnPublish_try_def Let_def
  using match_short [OF assms(1,2)] assms(3) not_control
  by (simp add: stoul_show_address stoul_show_dec step_with_def [abs_def])

section \<open>The hub's own publications\<close>

inductive own_topic :: "settings \<Rightarrow> string \<Rightarrow> bool" for cfg where
  own_report: "own_topic cfg (mqtt_prefix cfg @ ''report/'' @ rest)"
| own_linkquality: "own_topic cfg (mqtt_prefix cfg @ show_address a @ ''/linkquality'')"
| own_command: "own_topic cfg (mqtt_prefix cfg @ show_address a @ ''/'' @ show_dec n @ ''/in/'' @ rest)"

lemma own_topic_ignored:
  assumes "own_topic cfg topic"
  shows "OnPublish_try env cfg topic message = done_step"
  using assms
proof cases
  case (own_report rest)
  have "split_slash (''report/'' @ rest) = ''report'' # split_slash rest"
    using split_slash_append [of "''report''" rest] by simp
  moreover have "\<not> digits_of_base 16 ''report''" by (simp add: digits_of_base_def is_digit_in_def digit_value_def)
  ultimately show ?thesis
    using own_report by (simp add: OnPublish_try_def starts_with_def controlTopic_def match_command_short_def
        match_command_long_def split: list.split)
next
  case (own_linkquality a)
  then show ?thesis
    using not_control by (simp add: OnPublish_try_def Let_def match_command_short_def match_command_long_def split_simps)
next
  case (own_command a n rest)
  have "split_slash (''in/'' @ rest) = ''in'' # split_slash rest"
    using split_slash_append [of "''in''" rest] by simp
  then have "split_slash (show_address a @ ''/'' @ show_dec n @ ''/in/'' @ rest) = show_address a # show_dec n # ''in'' # split_slash rest"
    by (simp add: split_simps)
  then show ?thesis
    using own_command not_control
    by (simp add: OnPublish_try_def Let_def match_command_short_def match_command_long_def split: list.split)
qed

section \<open>The values below a JSON value\<close>

text \<open>What recursive publishing is meant to publish: every value below the given one, under its path.\<close>

inductive json_at :: "json \<Rightarrow> string list \<Rightarrow> json \<Rightarrow> bool" where
  json_here: "json_at v [] v"
| json_member: "(k, u) \<in> set ms \<Longrightarrow> json_at u path v \<Longrightarrow> json_at (JObject ms) (k # path) v"
| json_element: "i < length xs \<Longrightarrow> json_at (xs ! i) path v \<Longrightarrow> json_at (JArray xs) (show_dec i # path) v"

definition path_topic :: "string list \<Rightarrow> string" where
  "path_topic path = concat (map (\<lambda>k. ''/'' @ k) path)"

lemma path_topic_simps [simp]: "path_topic [] = []" "path_topic (k # path) = ''/'' @ k @ path_topic path"
  by (simp_all add: path_topic_def)

lemma PublishValue_here: "(topic, text_of v) \<in> set (PublishValue text_of r topic v)"
  by (subst PublishValue.simps) simp

lemma PublishValue_complete:
  "json_at v path u \<Longrightarrow> (topic @ path_topic path, text_of u) \<in> set (PublishValue text_of True topic v)"
proof (induction arbitrary: topic rule: json_at.induct)
  case (json_here v)
  then show ?case using PublishValue_here [of topic text_of v] by simp
next
  case (json_member k u ms path v)
  from json_member.IH [of "topic @ ''/'' @ k"] json_member.hyps(1) show ?case
    by (subst PublishValue.simps) (auto intro!: bexI [of _ "(k, u)"])
next
  case (json_element i xs path v)
  from json_element.IH [of "topic @ ''/'' @ show_dec i"] json_element.hyps(1) show ?case
    by (subst PublishValue.simps) (auto intro!: bexI [of _ i])
qed

lemma PublishValue_sound:
  "(t, m) \<in> set (PublishValue text_of r topic v) \<Longrightarrow>
   \<exists>path u. json_at v path u \<and> t = topic @ path_topic path \<and> m = text_of u"
proof (induction text_of r topic v arbitrary: t m rule: PublishValue.induct)
  case (1 text_of r topic v)
  from "1.prems" consider "t = topic" "m = text_of v"
    | k u ms where "r" "v = JObject ms" "(k, u) \<in> set ms" "(t, m) \<in> set (PublishValue text_of r (topic @ ''/'' @ k) u)"
    | i xs where "r" "v = JArray xs" "i < length xs" "(t, m) \<in> set (PublishValue text_of r (topic @ ''/'' @ show_dec i) (xs ! i))"
    by (subst (asm) PublishValue.simps) (auto split: if_splits json.splits)
  then show ?case
  proof cases
    case 1
    then show ?thesis by (intro exI [of _ "[]"] exI [of _ v]) (simp add: json_here)
  next
    case 2
    from "1.IH"(2) [OF 2(1,2,3), of t m] 2(4) obtain path w where
      "json_at u path w" "t = (topic @ ''/'' @ k) @ path_topic path" "m = text_of w" by auto
    with 2 json_member show ?thesis by (intro exI [of _ "k # path"] exI [of _ w]) auto
  next
    case 3
    from "1.IH"(1) [OF 3(1,2), of i t m] 3(3,4) obtain path w where
      "json_at (xs ! i) path w" "t = (topic @ ''/'' @ show_dec i) @ path_topic path" "m = text_of w" by auto
    with 3 json_element show ?thesis by (intro exI [of _ "show_dec i # path"] exI [of _ w]) auto
  qed
qed

lemma PublishValue_topics: "(t, m) \<in> set (PublishValue text_of r topic v) \<Longrightarrow> \<exists>rest. t = topic @ rest"
  using PublishValue_sound by blast

lemma own_command_publications:
  assumes "(t, m) \<in> set (command_publications env cfg (command_topic cfg source endpoint c k) k v)"
  shows "own_topic cfg t"
proof -
  from assms obtain rest where "t = command_topic cfg source endpoint c k @ rest"
    by (fastforce simp: command_publications_def Let_def split: option.splits dest: PublishValue_topics)
  then have "t = mqtt_prefix cfg @ show_address source @ ''/'' @ show_dec (unat endpoint) @ ''/in/''
      @ (cluster_name c @ ''/'' @ command_name k @ rest)"
    by (simp add: command_topic_def)
  then show ?thesis using own_command by simp
qed

section \<open>Properties\<close>

text \<open>
  C28: recursive publishing publishes exactly the values below the published one, each under the
  topic followed by its path of member names and element numbers.
\<close>

theorem published_values:
  "(t, m) \<in> set (PublishValue text_of True topic v) \<longleftrightarrow>
   (\<exists>path u. json_at v path u \<and> t = topic @ path_topic path \<and> m = text_of u)"
  using PublishValue_sound PublishValue_complete by blast

text \<open>
  A message under an address as it is printed, a decimal endpoint number and the names of a
  cluster and a command is handled as that command for that address. The endpoint is taken modulo
  256, so that the numbers from 256 on address another endpoint instead of being refused.
\<close>

theorem command_topic_routed:
  assumes "CHR ''/'' \<notin> set c" "CHR ''/'' \<notin> set d" "c \<noteq> []" "d \<noteq> []" "n \<le> ULONG_MAX"
  shows "OnPublish env cfg (mqtt_prefix cfg @ show_address a @ ''/'' @ show_dec n @ ''/out/'' @ c @ ''/'' @ d) message s
      = fst (OnPublishCommandLong env cfg a (word_of_nat (n mod 256)) c d message s)
    \<and> OnPublish env cfg (mqtt_prefix cfg @ show_address a @ ''/'' @ show_dec n @ ''/out/'' @ c) message s
      = fst (OnPublishCommandShort env cfg a (word_of_nat (n mod 256)) c message s)"
proof -
  have "word_of_nat (n mod 256) = (word_of_nat n :: 8 word)"
    by (rule word_unat_eq_iff [THEN iffD2]) (simp add: unat_of_nat)
  then show ?thesis
    unfolding OnPublish_def route_long [OF assms] route_short [OF assms(1,3,5)] by (simp only:)
qed

section \<open>Example\<close>

text \<open>A hub with an empty cluster database, and an environment that reads one JSON text.\<close>

definition example_env :: environment where
  "example_env = \<lparr> env_json = strict_library (\<lambda>_. []),
     from_string = (\<lambda>s. if s = ''{}'' then Inr (JObject []) else Inl (Runtime_error ''not JSON'')),
     env_log2 = (\<lambda>_. 0), full_match = (\<lambda>p s. Inr (if s = p then Some [] else None)) \<rparr>"

definition example_settings :: "ClusterDb \<Rightarrow> settings" where
  "example_settings db = \<lparr> mqtt_prefix = ''Hub/'', instance_id = [], mqtt_recursive_publish = False, cluster_db = db \<rparr>"

definition example_hub :: hub where
  "example_hub = hub_ctor started (ZclEndpoint_ctor 1)"

theorem command_topic_routed_witness:
  "OnPublish example_env (example_settings ClusterDb_ctor)
     (''Hub/'' @ show_address 0x158D00012A3B4C @ ''/'' @ show_dec 257 @ ''/out/'' @ ''OnOff'' @ ''/'' @ ''On'') [] example_hub
   = fst (OnPublishCommandLong example_env (example_settings ClusterDb_ctor) 0x158D00012A3B4C 1 ''OnOff'' ''On'' [] example_hub)"
  using command_topic_routed [where c = "''OnOff''" and d = "''On''" and n = 257 and env = example_env
      and cfg = "example_settings ClusterDb_ctor" and a = "0x158D00012A3B4C" and message = "[]" and s = example_hub]
  by (simp add: ULONG_MAX_def example_settings_def)

end
