(* ===== verification/HubInvariants.thy ===== *)
theory HubInvariants
  imports HubTopics
begin

text \<open>
  What every event leaves intact. The locale \<open>hub_invariant\<close> lists the ways in which the handlers of
  the hub change its state; an invariant of these holds in every run. There are two instances: the
  request layer stays in one of its own runs and every waiting continuation belongs to an allocated
  promise, and everything published is under one of the hub's own topics.
\<close>

section \<open>Calls of the request layer\<close>

definition proper :: "'a future call \<Rightarrow> bool" where
  "proper m \<longleftrightarrow> (\<forall>a. api_run a \<longrightarrow> (case m a of (a', r) \<Rightarrow>
     api_run a' \<and> next_promise a \<le> next_promise a' \<and> settled a' = settled a \<and> emitted a' = emitted a \<and>
     (\<forall>p d. r = Inr (Future p d) \<longrightarrow> next_promise a \<le> p \<and> p < next_promise a')))"

lemma properD:
  assumes "proper m" "m a = (a', r)" "api_run a"
  shows "api_run a'" "next_promise a \<le> next_promise a'" "settled a' = settled a" "emitted a' = emitted a"
    "r = Inr (Future p d) \<Longrightarrow> next_promise a \<le> p \<and> p < next_promise a'"
  using assms unfolding proper_def by fastforce+

lemma properI:
  assumes "\<And>a a' r. api_run a \<Longrightarrow> m a = (a', r) \<Longrightarrow> api_run a' \<and> next_promise a \<le> next_promise a' \<and>
    settled a' = settled a \<and> emitted a' = emitted a \<and>
    (\<forall>p d. r = Inr (Future p d) \<longrightarrow> next_promise a \<le> p \<and> p < next_promise a')"
  shows "proper m"
  unfolding proper_def
proof (intro allI impI)
  fix a assume run: "api_run a"
  obtain a' r where m: "m a = (a', r)" by force
  show "case m a of (a', r) \<Rightarrow> api_run a' \<and> next_promise a \<le> next_promise a' \<and>
    settled a' = settled a \<and> emitted a' = emitted a \<and>
    (\<forall>p d. r = Inr (Future p d) \<longrightarrow> next_promise a \<le> p \<and> p < next_promise a')"
    unfolding m prod.case by (rule assms [OF run m])
qed

lemma RawSReq_any_cases:
  obtains port evs r where "RawSReq_any command possible_responses payload s =
    (s\<lparr> next_promise := Suc (next_promise s), handlers := handlers s @ [SReq possible_responses (next_promise s)],
        raw := port, outputs := outputs s @ evs \<rparr>, r)" "r = Inr (Future (next_promise s) Inr) \<or> (\<exists>e. r = Inl e)"
proof (cases "length payload \<le> 255")
  case True
  from RawSReq_any_ok [OF this, of command possible_responses s] that show ?thesis by blast
next
  case False
  then have "RawSReq_any command possible_responses payload s = (s\<lparr> next_promise := Suc (next_promise s),
      handlers := handlers s @ [SReq possible_responses (next_promise s)], raw := raw s, outputs := outputs s @ [] \<rparr>,
      Inl (Runtime_error ''ZNP Command Payload size should not exceed 255 bytes''))"
    using RawSReq_any_oversized [of payload command possible_responses s] by simp
  with that show ?thesis by blast
qed

lemma proper_RawSReq: "proper (RawSReq command payload)"
proof (rule properI)
  fix a a' r
  assume run: "api_run a" and m: "RawSReq command payload a = (a', r)"
  then have run': "api_run a'" unfolding RawSReq_def by (rule api_request)
  obtain port evs r' where eq: "RawSReq command payload a = (a\<lparr> next_promise := Suc (next_promise a),
      handlers := handlers a @ [SReq [command] (next_promise a)], raw := port, outputs := outputs a @ evs \<rparr>, r')"
    and r': "r' = Inr (Future (next_promise a) Inr) \<or> (\<exists>e. r' = Inl e)"
    unfolding RawSReq_def by (rule RawSReq_any_cases)
  with m run' show "api_run a' \<and> next_promise a \<le> next_promise a' \<and> settled a' = settled a \<and> emitted a' = emitted a \<and>
      (\<forall>p d. r = Inr (Future p d) \<longrightarrow> next_promise a \<le> p \<and> p < next_promise a')"
    by auto
qed

lemma proper_call_then: "proper m \<Longrightarrow> proper (call_then m g)"
proof (rule properI)
  fix a a' r
  assume m: "proper m" and run: "api_run a" and c: "call_then m g a = (a', r)"
  obtain r' where r': "m a = (a', r')" "r = res_bind r' (\<lambda>f. Inr (future_then f g))"
    using c by (cases "m a") (auto simp: call_then_def)
  note facts = properD [OF m r'(1) run]
  have "next_promise a \<le> p \<and> p < next_promise a'" if "r = Inr (Future p d)" for p d
  proof -
    from that r'(2) obtain p' d' where f: "r' = Inr (Future p' d')" "future_then (Future p' d') g = Future p d"
      by (auto simp: res_bind_eq_Inr) (metis future.exhaust)
    then have "p' = p" by (simp add: future_then_def)
    with facts(5) [OF f(1)] show ?thesis by simp
  qed
  with facts(1-4) show "api_run a' \<and> next_promise a \<le> next_promise a' \<and> settled a' = settled a \<and> emitted a' = emitted a \<and>
      (\<forall>p d. r = Inr (Future p d) \<longrightarrow> next_promise a \<le> p \<and> p < next_promise a')" by blast
qed

lemma proper_call_with: "(\<And>x. proper (m x)) \<Longrightarrow> proper (call_with r m)"
  by (cases r) (auto simp: proper_def call_with_def)

lemma proper_WaitAfter:
  "proper (WaitAfter (call_then (RawSReq command payload) first) type rsp timeout data_prefix)"
proof (rule properI)
  fix a a' r
  assume run: "api_run a" and w: "WaitAfter (call_then (RawSReq command payload) first) type rsp timeout data_prefix a = (a', r)"
  then have run': "api_run a'" by (rule api_request_wait)
  obtain b rb where b: "call_then (RawSReq command payload) first a = (b, rb)" by force
  note facts = properD [OF proper_call_then [OF proper_RawSReq] b run]
  show "api_run a' \<and> next_promise a \<le> next_promise a' \<and> settled a' = settled a \<and> emitted a' = emitted a \<and>
      (\<forall>p d. r = Inr (Future p d) \<longrightarrow> next_promise a \<le> p \<and> p < next_promise a')"
    using w facts(2-4) run' by (auto simp: WaitAfter_def b Let_def split: sum.splits future.splits)
qed

lemmas proper_requests =
  proper_call_with proper_call_then proper_WaitAfter proper_RawSReq

lemma proper_calls [simp]:
  "proper (UtilAddrmgrNwkAddrLookup address)" "proper (UtilAddrmgrExtAddrLookup device)"
  "proper (ZdoMgmtPermitJoin mode dst duration tc)" "proper (ZdoMgmtDirectJoin dst' device)"
  "proper (AfDataRequest dst dst_ep src_ep cluster tid options radius data)"
  unfolding UtilAddrmgrNwkAddrLookup_def UtilAddrmgrExtAddrLookup_def ZdoMgmtPermitJoin_def ZdoMgmtDirectJoin_def
    AfDataRequest_def
  by (intro proper_requests)+

section \<open>Invariants of the hub\<close>

locale hub_invariant =
  fixes cfg :: settings and I :: "hub \<Rightarrow> bool"
  assumes I_run: "I s \<Longrightarrow> api_run (hub_api s)"
    and I_api: "I s \<Longrightarrow> api_run a \<Longrightarrow> next_promise (hub_api s) \<le> next_promise a \<Longrightarrow> I (s\<lparr> hub_api := a \<rparr>)"
    and I_waiting: "I s \<Longrightarrow> api_run a \<Longrightarrow> next_promise (hub_api s) \<le> p \<Longrightarrow> p < next_promise a \<Longrightarrow>
      I (s\<lparr> hub_api := a, waiting := waiting s @ [(p, k)] \<rparr>)"
    and I_taken: "I s \<Longrightarrow> I (s\<lparr> waiting := filter (\<lambda>(q, _). q \<noteq> p) (waiting s) \<rparr>)"
    and I_publish: "I s \<Longrightarrow> own_topic cfg topic \<Longrightarrow> I (Publish topic message s)"
    and I_endpoint: "I s \<Longrightarrow> I (s\<lparr> hub_endpoint := ep \<rparr>)"
    and I_hangs: "I s \<Longrightarrow> I (s\<lparr> hangs := True \<rparr>)"
begin

definition keeps :: "'a step \<Rightarrow> bool" where
  "keeps m \<longleftrightarrow> (\<forall>s. I s \<longrightarrow> I (fst (m s)))"

lemma keepsD: "keeps m \<Longrightarrow> I s \<Longrightarrow> I (fst (m s))"
  by (simp add: keeps_def)

lemma keeps_request [intro!]:
  assumes m: "proper m"
  shows "keeps (request m k)"
  unfolding keeps_def
proof (intro allI impI)
  fix s assume inv: "I s"
  obtain a r where a: "m (hub_api s) = (a, r)" by force
  note facts = properD [OF m a I_run [OF inv]]
  show "I (fst (request m k s))"
  proof (cases r)
    case (Inl e)
    with I_api [OF inv facts(1,2)] a show ?thesis by (simp add: request_def)
  next
    case (Inr f)
    obtain p d where f: "f = Future p d" by (cases f)
    with facts(5) Inr I_waiting [OF inv facts(1)] a show ?thesis by (simp add: request_def)
  qed
qed

lemma keeps_detached [intro!]: "proper m \<Longrightarrow> keeps (detached m)"
  unfolding keeps_def
proof (intro allI impI)
  fix s assume m: "proper m" and inv: "I s"
  obtain a r where a: "m (hub_api s) = (a, r)" by force
  note facts = properD [OF m a I_run [OF inv]]
  from I_api [OF inv facts(1,2)] show "I (fst (detached m s))" by (simp add: detached_def a)
qed

lemma keeps_with [intro!]: "(\<And>x. keeps (k x)) \<Longrightarrow> keeps (step_with r k)"
  by (cases r) (auto simp: step_with_def keeps_def)

lemma keeps_done [intro!]: "keeps done_step"
  by (simp add: keeps_def done_step_def)

lemma keeps_SendCommand [intro!]: "keeps (hub_SendCommand env a e c cmd v)"
  unfolding hub_SendCommand_def by (auto split: sum.split)

lemma keeps_PermitJoin [intro!]: "keeps (OnPublishPermitJoin message)"
  unfolding OnPublishPermitJoin_def by (intro keeps_with) (auto split: if_split prod.split)

lemma keeps_DirectJoin [intro!]: "keeps (OnPublishDirectJoin a)"
  unfolding OnPublishDirectJoin_def by auto

lemma keeps_commands [intro!]:
  "keeps (OnPublishCommandLong env db a e c k message)" "keeps (OnPublishCommandShort env db a e c message)"
  unfolding OnPublishCommandLong_def OnPublishCommandShort_def Let_def
  by (auto split: option.split sum.split)

lemma keeps_control [intro!]: "keeps (OnPublish_control env cfg' topic message)"
  unfolding OnPublish_control_def Let_def by (auto split: option.split if_split prod.split)

lemma I_OnPublish:
  assumes "I s"
  shows "I (OnPublish env cfg' topic message s)"
proof -
  have "keeps (OnPublish_try env cfg' topic message)"
    unfolding OnPublish_try_def Let_def by (auto split: option.split if_split prod.split)
  with assms show ?thesis by (simp add: keeps_def OnPublish_def)
qed

lemma I_publish_all: "I s \<Longrightarrow> (\<And>t m. (t, m) \<in> set ps \<Longrightarrow> own_topic cfg t) \<Longrightarrow> I (publish_all ps s)"
  unfolding publish_all_def
proof (induction ps arbitrary: s)
  case (Cons p ps)
  obtain t m where p: "p = (t, m)" by force
  with Cons.prems have "I (Publish t m s)" by (intro I_publish) auto
  moreover have "own_topic cfg t'" if "(t', m') \<in> set ps" for t' m' using Cons.prems(2) [of t' m'] that by simp
  ultimately have "I (foldl (\<lambda>s (topic, message). Publish topic message s) (Publish t m s) ps)" by (rule Cons.IH)
  with p show ?case by simp
qed simp

lemma I_SendCommand:
  assumes "I s" "SendCommand short e c g d i payload (hub_endpoint s, hub_api s) = ((ep, a), r)"
  shows "I (s\<lparr> hub_endpoint := ep, hub_api := a \<rparr>)"
proof -
  have run: "api_run (hub_api s)" using assms(1) by (rule I_run)
  obtain n where m: "call_with (Encode ZclFrame_codec (command_frame g d n i payload))
      (AfDataRequest short e (endpoint_number ep) c 0 0 30) (hub_api s) = (a, r)"
    using assms(2) by (auto simp: SendCommand_def Let_def NextTransSeqNumFor_def split: prod.splits)
  have "proper (call_with (Encode ZclFrame_codec (command_frame g d n i payload))
      (AfDataRequest short e (endpoint_number ep) c 0 0 30))" by (intro proper_call_with proper_calls)
  from I_api [OF I_endpoint [OF assms(1), of ep] properD(1) [OF this m run]] properD(2) [OF this m run]
  show ?thesis by simp
qed

lemma I_run_continuation: "I s \<Longrightarrow> I (run_continuation env cfg k r s)"
  unfolding run_continuation_def OnZclCommand_decoded_def
  by (auto split: hub_continuation.split future.split sum.split prod.split
      intro: I_SendCommand I_hangs I_publish own_linkquality I_publish_all own_command_publications)

lemma I_resume: "I s \<Longrightarrow> I (resume env cfg p r s)"
  unfolding resume_def by (auto split: option.split intro: I_run_continuation I_taken)

lemma I_fold: "(\<And>s x. I s \<Longrightarrow> I (f s x)) \<Longrightarrow> I s \<Longrightarrow> I (foldl f s xs)"
  by (induction xs arbitrary: s) auto

lemma I_on_event:
  assumes "I s"
  shows "I (on_event env cfg ev s)"
proof -
  have command: "I (fst (OnZclCommand cfg c s))" if "I s" for c s
  proof -
    have "keeps (OnZclCommand cfg c)" unfolding OnZclCommand_def by (auto split: option.split)
    with that show ?thesis by (simp add: keeps_def)
  qed
  have message: "I (fst (hub_OnIncomingMsg m s))" if "I s" for m s
  proof -
    have "keeps (hub_OnIncomingMsg m)" unfolding hub_OnIncomingMsg_def by auto
    with that show ?thesis by (simp add: keeps_def)
  qed
  have report: "I (Publish (mqtt_prefix cfg @ ''report/'' @ t) x s)" if "I s" for t x s
    using that own_report by (rule I_publish)
  have permit: "I (OnPermitJoinHelper cfg i d s)" if "I s" for i d s
    using report [OF that, of "MakePrefixEndWithSlash i @ ''permitjoin''"] by (simp add: OnPermitJoinHelper_def)
  show ?thesis
  proof (cases ev)
    case (Incoming_msg m)
    have "I (fst (hub_OnIncomingMsg m (foldl (\<lambda>s c. fst (OnZclCommand cfg c s)) (s\<lparr> hub_endpoint := ep \<rparr>) cs)))" for ep cs
      by (intro message I_fold command I_endpoint assms)
    with assms Incoming_msg show ?thesis by (auto simp: on_event_def split: prod.split)
  next
    case (Trustcenter_device n a p)
    with assms report [of s "''trustcenter_device''"] show ?thesis by (simp add: on_event_def OnTcDevice_def)
  next
    case (End_device_announce src n a c)
    with assms report [of s "''end_device_announce''"] show ?thesis by (simp add: on_event_def OnEndDeviceAnnounce_def)
  qed (use assms permit in \<open>simp_all add: on_event_def OnPermitJoin_def Let_def\<close>)
qed

lemma I_after_api:
  assumes "I s" "api_run a" "next_promise (hub_api s) \<le> next_promise a"
  shows "I (after_api env cfg a s)"
  unfolding after_api_def Let_def case_prod_beta'
  by (intro I_fold I_resume I_on_event I_api assms)

lemma I_step:
  assumes "I s"
  shows "I (hub_step env cfg ev s)"
proof -
  have "next_promise (TimerExpired t a) = next_promise a" for t a
    by (auto simp: TimerExpired_def split: option.split)
  with assms I_run [OF assms] I_OnPublish show ?thesis
    by (cases ev) (auto simp: hub_step_def intro!: I_after_api api_frame api_timer)
qed

lemma I_hub_run: "I s \<Longrightarrow> I (hub_run env cfg evs s)"
  unfolding hub_run_def by (rule I_fold [OF I_step])

end

section \<open>The two invariants\<close>

definition hub_inv :: "hub \<Rightarrow> bool" where
  "hub_inv s \<longleftrightarrow> api_run (hub_api s) \<and> distinct (map fst (waiting s)) \<and>
     (\<forall>(p, k) \<in> set (waiting s). p < next_promise (hub_api s))"

definition own_publications :: "settings \<Rightarrow> hub \<Rightarrow> bool" where
  "own_publications cfg s \<longleftrightarrow> hub_inv s \<and> (\<forall>p \<in> set (published s). own_topic cfg (topic_name p))"

lemma hub_inv_taken: "hub_inv s \<Longrightarrow> hub_inv (s\<lparr> waiting := filter (\<lambda>(q, _). q \<noteq> p) (waiting s) \<rparr>)"
  by (auto simp: hub_inv_def distinct_map_filter)

lemma hub_inv_waiting:
  assumes "hub_inv s" "api_run a" "next_promise (hub_api s) \<le> p" "p < next_promise a"
  shows "hub_inv (s\<lparr> hub_api := a, waiting := waiting s @ [(p, k)] \<rparr>)"
proof -
  have "q < next_promise (hub_api s)" if "q \<in> fst ` set (waiting s)" for q
    using assms(1) that by (auto simp: hub_inv_def)
  then have "q < p" if "q \<in> fst ` set (waiting s)" for q using assms(3) that by fastforce
  then have "p \<notin> fst ` set (waiting s)" "\<forall>q \<in> fst ` set (waiting s). q < next_promise a"
    using assms(4) by (blast, force)
  with assms show ?thesis by (auto simp: hub_inv_def)
qed

lemma hub_inv_published [simp]: "hub_inv (s\<lparr> published := ps \<rparr>) \<longleftrightarrow> hub_inv s"
  by (simp add: hub_inv_def)

interpretation layer: hub_invariant cfg hub_inv for cfg
  by unfold_locales (auto simp: hub_inv_taken [simplified] hub_inv_waiting, auto simp: hub_inv_def Publish_def)

interpretation own: hub_invariant cfg "own_publications cfg" for cfg
  by unfold_locales (auto simp: own_publications_def Publish_def layer.I_run layer.I_api layer.I_waiting layer.I_taken
      intro: layer.I_publish layer.I_endpoint layer.I_hangs)

lemma hub_run_inv: "api_run a \<Longrightarrow> hub_inv (hub_run env cfg evs (hub_ctor a ep))"
  by (rule layer.I_hub_run) (simp add: hub_inv_def hub_ctor_def)

lemma publish_all_eq: "publish_all ps s = s\<lparr> published := published s @ map (\<lambda>(t, m). \<lparr> topic_name = t, message_text = m,
     publish_qos = at_least_once, publish_retain = False \<rparr>) ps \<rparr>"
  unfolding publish_all_def by (induction ps arbitrary: s) (auto simp: Publish_def)

section \<open>Properties\<close>

text \<open>
  C27: the hub never reacts to its own publications: whatever it has published in a run, a message
  received under the same topic changes nothing.
\<close>

theorem own_publications_ignored:
  assumes "api_run a" "p \<in> set (published (hub_run env cfg evs (hub_ctor a ep)))"
  shows "OnPublish env cfg (topic_name p) message s = s"
proof -
  have "own_publications cfg (hub_ctor a ep)"
    using assms(1) by (simp add: own_publications_def hub_inv_def hub_ctor_def)
  from own.I_hub_run [OF this] assms(2) have "own_topic cfg (topic_name p)" by (auto simp: own_publications_def)
  then show ?thesis by (simp add: OnPublish_def own_topic_ignored done_step_def)
qed

section \<open>Example\<close>

text \<open>A device is announced, and the report comes back.\<close>

theorem own_publications_ignored_witness:
  "OnPublish example_env (example_settings ClusterDb_ctor) ''Hub/report/permitjoin'' ''60'' example_hub = example_hub"
proof -
  let ?ev = "Frame_received ZnpCommandType_AREQ (ZdoCmd ZdoCommand_PERMIT_JOIN_IND) [60]"
  have "OnFrame ZnpCommandType_AREQ (ZdoCmd ZdoCommand_PERMIT_JOIN_IND) [60] started = started\<lparr> emitted := [Permit_join 60] \<rparr>"
    by (simp add: OnFrame_def OnFrame_loop.simps ctor_simps command_defs decode_event_def event_dec_def struct_dec_def
        codec_simps emit_def Let_def)
  moreover have "show_dec 60 = ''60''" by code_simp
  ultimately have "published (hub_run example_env (example_settings ClusterDb_ctor) [?ev] example_hub)
      = [\<lparr> topic_name = ''Hub/report/permitjoin'', message_text = ''60'', publish_qos = at_least_once, publish_retain = False \<rparr>]"
    by (simp add: hub_run_def hub_step_def example_hub_def hub_ctor_def after_api_def on_event_def OnPermitJoin_def
        OnPermitJoinHelper_def example_settings_def Publish_def ctor_simps MakePrefixEndWithSlash_def)
  then show ?thesis
    using own_publications_ignored [OF started_run, of _ example_env "example_settings ClusterDb_ctor" "[?ev]" "ZclEndpoint_ctor 1"]
    by (auto simp: example_hub_def)
qed

end
