(* ===== verification/HubFlow.thy ===== *)
theory HubFlow
  imports HubInvariants
begin

text \<open>
  The composition of the parts: a command published over MQTT becomes a frame for the device once its
  short address is known, and a command received from a device becomes MQTT messages once its long
  address is known.
\<close>

section \<open>Requests and answers\<close>

text \<open>The frames given to the port.\<close>

definition sent_frames :: "api \<Rightarrow> (ZnpCommandType \<times> ZnpCommand \<times> byte list) list" where
  "sent_frames a = List.map_filter (\<lambda>e. case e of On_sent t c p \<Rightarrow> Some (t, c, p) | _ \<Rightarrow> None) (outputs a)"

lemma SendFrame_fits:
  assumes "length payload \<le> 255"
  obtains port evs where "SendFrame type command payload s = Inr (port, evs @ [On_sent type command payload])"
    "evs = [] \<or> (\<exists>b. evs = [Async_write b])"
  using assms by (cases "TrySend (s\<lparr> send_queue := send_queue s @ [frame_buffer type command payload] \<rparr>)")
    (auto simp: SendFrame_def TrySend_def split: if_splits list.splits)

lemma RawSReq_sends:
  assumes "length payload \<le> 255"
  obtains port evs where "RawSReq command payload a = (a\<lparr> next_promise := Suc (next_promise a),
      handlers := handlers a @ [SReq [command] (next_promise a)], raw := port, outputs := outputs a @ evs \<rparr>,
      Inr (Future (next_promise a) Inr))"
    "List.map_filter (\<lambda>e. case e of On_sent t c p \<Rightarrow> Some (t, c, p) | _ \<Rightarrow> None) evs = [(ZnpCommandType_SREQ, command, payload)]"
proof -
  obtain port evs where s: "SendFrame ZnpCommandType_SREQ command payload (raw a) = Inr (port, evs @ [On_sent ZnpCommandType_SREQ command payload])"
    and evs: "evs = [] \<or> (\<exists>b. evs = [Async_write b])"
    by (rule SendFrame_fits [OF assms])
  show thesis
  proof (rule that)
    show "RawSReq command payload a = (a\<lparr> next_promise := Suc (next_promise a),
        handlers := handlers a @ [SReq [command] (next_promise a)], raw := port,
        outputs := outputs a @ evs @ [On_sent ZnpCommandType_SREQ command payload] \<rparr>, Inr (Future (next_promise a) Inr))"
      using s by (simp add: RawSReq_def RawSReq_any_def raw_SendFrame_def Let_def)
    show "List.map_filter (\<lambda>e. case e of On_sent t c p \<Rightarrow> Some (t, c, p) | _ \<Rightarrow> None)
        (evs @ [On_sent ZnpCommandType_SREQ command payload]) = [(ZnpCommandType_SREQ, command, payload)]"
      using evs by (auto simp: List.map_filter_def)
  qed
qed

lemma answered:
  assumes "handlers a = pre @ SReq [command] p # post" "unclaimed pre ZnpCommandType_SRSP command data a"
    and "map_of (continuations a) p = None"
  shows "OnFrame ZnpCommandType_SRSP command data a
    = a\<lparr> handlers := filter (\<lambda>h. \<not> expired a h) pre @ post, settled := settled a @ [(p, Inr data)] \<rparr>"
  using response_settles [OF assms(1,2)] assms(3) by (simp add: call_promise_plain)

lemma run_facts:
  assumes "api_run a"
  shows "map_of (continuations a) (next_promise a + k) = None" "map_of (settled a) (next_promise a + k) = None"
  using continuations_fresh [OF run_keys_fresh [OF assms]] settled_fresh [OF run_api_inv [OF assms]] by simp_all

lemma waiting_fresh: "hub_inv s \<Longrightarrow> map_of (waiting s) (next_promise (hub_api s) + k) = None"
  by (fastforce simp: hub_inv_def map_of_eq_None_iff)

section \<open>The address lookups\<close>

definition nwk_lookup :: ZnpCommand where "nwk_lookup = UtilCmd UtilCommand_ADDRMGR_NWK_ADDR_LOOKUP"
definition ext_lookup :: ZnpCommand where "ext_lookup = UtilCmd UtilCommand_ADDRMGR_EXT_ADDR_LOOKUP"

lemma lookup_requests:
  "UtilAddrmgrNwkAddrLookup short = call_then (RawSReq nwk_lookup (le_bytes 2 short)) (Decode unsigned_codec)"
  "UtilAddrmgrExtAddrLookup long = call_then (RawSReq ext_lookup (le_bytes 8 long)) (Decode unsigned_codec)"
  using uint16.encode_img [of short] uint64.encode_img [of long]
  by (auto simp: UtilAddrmgrNwkAddrLookup_def UtilAddrmgrExtAddrLookup_def call_with_def nwk_lookup_def ext_lookup_def)

lemma request_sends:
  assumes "length payload \<le> 255"
  obtains port evs where "request (call_then (RawSReq command payload) d) k s = (s\<lparr> hub_api := (hub_api s)\<lparr>
      next_promise := Suc (next_promise (hub_api s)), handlers := handlers (hub_api s) @ [SReq [command] (next_promise (hub_api s))],
      raw := port, outputs := outputs (hub_api s) @ evs \<rparr>,
      waiting := waiting s @ [(next_promise (hub_api s), k (Future (next_promise (hub_api s)) (\<lambda>bs. d bs)))] \<rparr>, Inr ())"
    "List.map_filter (\<lambda>e. case e of On_sent t c p \<Rightarrow> Some (t, c, p) | _ \<Rightarrow> None) evs = [(ZnpCommandType_SREQ, command, payload)]"
proof (rule RawSReq_sends [OF assms, of command "hub_api s"])
  fix port evs
  assume "RawSReq command payload (hub_api s) = ((hub_api s)\<lparr> next_promise := Suc (next_promise (hub_api s)),
      handlers := handlers (hub_api s) @ [SReq [command] (next_promise (hub_api s))], raw := port,
      outputs := outputs (hub_api s) @ evs \<rparr>, Inr (Future (next_promise (hub_api s)) Inr))"
    and evs: "List.map_filter (\<lambda>e. case e of On_sent t c p \<Rightarrow> Some (t, c, p) | _ \<Rightarrow> None) evs = [(ZnpCommandType_SREQ, command, payload)]"
  then show thesis by (intro that [OF _ evs]) (simp add: request_def call_then_def future_then_def)
qed

lemma request_effect:
  assumes "length payload \<le> 255"
  obtains a where "fst (request (call_then (RawSReq command payload) d) k s) = s\<lparr> hub_api := a,
      waiting := waiting s @ [(next_promise (hub_api s), k (Future (next_promise (hub_api s)) (\<lambda>bs. d bs)))] \<rparr>"
    "handlers a = handlers (hub_api s) @ [SReq [command] (next_promise (hub_api s))]"
    "next_promise a = Suc (next_promise (hub_api s))" "timers a = timers (hub_api s)"
    "continuations a = continuations (hub_api s)"
    "sent_frames a = sent_frames (hub_api s) @ [(ZnpCommandType_SREQ, command, payload)]"
proof (rule request_sends [OF assms, of command d k s])
  fix port evs
  let ?a = "(hub_api s)\<lparr> next_promise := Suc (next_promise (hub_api s)),
      handlers := handlers (hub_api s) @ [SReq [command] (next_promise (hub_api s))], raw := port, outputs := outputs (hub_api s) @ evs \<rparr>"
  assume eq: "request (call_then (RawSReq command payload) d) k s = (s\<lparr> hub_api := ?a,
      waiting := waiting s @ [(next_promise (hub_api s), k (Future (next_promise (hub_api s)) (\<lambda>bs. d bs)))] \<rparr>, Inr ())"
    and evs: "List.map_filter (\<lambda>e. case e of On_sent t c p \<Rightarrow> Some (t, c, p) | _ \<Rightarrow> None) evs = [(ZnpCommandType_SREQ, command, payload)]"
  show thesis
    by (rule that [of ?a]) (use evs in \<open>simp_all add: eq sent_frames_def List.map_filter_def\<close>)
qed

lemma AfDataRequest_sends:
  assumes "length Data \<le> 245"
  shows "sent_frames (fst (AfDataRequest DstAddr DstEndpoint SrcEndpoint ClusterId TransId Options Radius Data a)) =
    sent_frames a @ [(ZnpCommandType_SREQ, AfCmd AfCommand_DATA_REQUEST, le_bytes 2 DstAddr @ [DstEndpoint, SrcEndpoint]
      @ le_bytes 2 ClusterId @ [TransId, Options, Radius, word_of_nat (length Data)] @ Data)]"
proof -
  let ?payload = "le_bytes 2 DstAddr @ [DstEndpoint, SrcEndpoint] @ le_bytes 2 ClusterId
      @ [TransId, Options, Radius, word_of_nat (length Data)] @ Data"
  have size: "GetSize (vector_codec unsigned_codec) Data = Inr (Suc (length Data))"
    by (simp add: vector_codec_def sum_sizes_bytes)
  have bytes_written: "enc (vector_codec unsigned_codec) Data (Suc (length Data)) = Inr (word_of_nat (length Data) # Data, 0)"
    using bytes.write_law [of Data "Suc (length Data)"] concat_le_bytes_1 [of Data] assms
    by (simp add: vector_ok_def list_all_iff vector_img_def)
  define P where "P = ?payload"
  have payload: "Encode (pair_codec unsigned_codec (pair_codec unsigned_codec (pair_codec unsigned_codec
      (pair_codec unsigned_codec (pair_codec unsigned_codec (pair_codec unsigned_codec (pair_codec unsigned_codec
      (vector_codec unsigned_codec))))))))
      (DstAddr, DstEndpoint, SrcEndpoint, ClusterId, TransId, Options, Radius, Data) = Inr P"
    by (simp add: P_def Encode_def pair_codec_def codec_simps size bytes_written numeral_2_eq_2)
  have "length P \<le> 255" using assms by (simp add: P_def)
  then obtain port evs where sends: "RawSReq (AfCmd AfCommand_DATA_REQUEST) P a = (a\<lparr> next_promise := Suc (next_promise a),
      handlers := handlers a @ [SReq [AfCmd AfCommand_DATA_REQUEST] (next_promise a)], raw := port, outputs := outputs a @ evs \<rparr>,
      Inr (Future (next_promise a) Inr))"
    and evs: "List.map_filter (\<lambda>e. case e of On_sent t c p \<Rightarrow> Some (t, c, p) | _ \<Rightarrow> None) evs
      = [(ZnpCommandType_SREQ, AfCmd AfCommand_DATA_REQUEST, P)]"
    by (rule RawSReq_sends)
  have "outputs (fst (AfDataRequest DstAddr DstEndpoint SrcEndpoint ClusterId TransId Options Radius Data a)) = outputs a @ evs"
    by (simp add: AfDataRequest_def call_with_def payload call_then_def WaitAfter_def sends future_then_def Let_def)
  then have "sent_frames (fst (AfDataRequest DstAddr DstEndpoint SrcEndpoint ClusterId TransId Options Radius Data a)) =
      sent_frames a @ [(ZnpCommandType_SREQ, AfCmd AfCommand_DATA_REQUEST, P)]"
    using evs by (simp add: sent_frames_def List.map_filter_def)
  then show ?thesis by (simp only: P_def)
qed

text \<open>A frame that answers a waiting request runs its continuation.\<close>

definition answered_api :: "frame_handler list \<Rightarrow> frame_handler list \<Rightarrow> promise \<Rightarrow> byte list \<Rightarrow> api \<Rightarrow> api" where
  "answered_api pre post p data a = a\<lparr> handlers := filter (\<lambda>h. \<not> expired a h) pre @ post, settled := settled a @ [(p, Inr data)] \<rparr>"

lemma answered_api_fields [simp]:
  "sent_frames (answered_api pre post p data a) = sent_frames a"
  "outputs (answered_api pre post p data a) = outputs a" "emitted (answered_api pre post p data a) = emitted a"
  "next_promise (answered_api pre post p data a) = next_promise a"
  "handlers (answered_api pre post p data a) = filter (\<lambda>h. \<not> expired a h) pre @ post"
  "timers (answered_api pre post p data a) = timers a" "continuations (answered_api pre post p data a) = continuations a"
  by (simp_all add: answered_api_def sent_frames_def)

lemma answer_step:
  assumes hs: "handlers (hub_api s) = pre @ SReq [cmd] p # post" and free: "unclaimed pre ZnpCommandType_SRSP cmd data (hub_api s)"
    and plain: "map_of (continuations (hub_api s)) p = None"
    and w: "waiting s = w1 @ (p, k) # w2" "p \<notin> fst ` set w1" "p \<notin> fst ` set w2" and live: "\<not> hangs s"
  shows "hub_step env cfg (Frame_received ZnpCommandType_SRSP cmd data) s
    = run_continuation env cfg k (Inr data) (s\<lparr> hub_api := answered_api pre post p data (hub_api s), waiting := w1 @ w2 \<rparr>)"
proof -
  have frame: "OnFrame ZnpCommandType_SRSP cmd data (hub_api s) = answered_api pre post p data (hub_api s)"
    unfolding answered_api_def by (rule answered [OF hs free plain])
  have found: "map_of (waiting s) p = Some k"
    using w by (simp add: map_of_append map_of_eq_None_iff [symmetric] map_add_def)
  have others: "filter (\<lambda>(q, _). q \<noteq> p) w1 = w1" "filter (\<lambda>(q, _). q \<noteq> p) w2 = w2"
    using w(2,3) by (force simp: filter_id_conv)+
  have "hub_step env cfg (Frame_received ZnpCommandType_SRSP cmd data) s
      = resume env cfg p (Inr data) (s\<lparr> hub_api := answered_api pre post p data (hub_api s) \<rparr>)"
    using live by (simp add: hub_step_def after_api_def frame Let_def answered_api_def)
  then show ?thesis using found live others by (simp add: resume_def w(1))
qed

section \<open>Reachable states\<close>

definition hub_reachable :: "environment \<Rightarrow> settings \<Rightarrow> hub \<Rightarrow> bool" where
  "hub_reachable env cfg s \<longleftrightarrow> (\<exists>a ep evs. api_run a \<and> s = hub_run env cfg evs (hub_ctor a ep))"

lemma reachable_inv: "hub_reachable env cfg s \<Longrightarrow> hub_inv s"
  by (auto simp: hub_reachable_def hub_run_inv)

text \<open>The first half of the way of a command: the message makes the hub ask for the short address.\<close>

lemma command_looked_up:
  fixes address :: IEEEAddress and e :: "8 word"
  assumes live: "\<not> hangs s"
    and names: "CHR ''/'' \<notin> set c" "CHR ''/'' \<notin> set d" "c \<noteq> []" "d \<noteq> []"
    and found: "ClusterByName c (cluster_db cfg) = Some cluster"
      "CommandByName (ClusterDb.cluster_id cluster) ZclDirection_ClientToServer d (cluster_db cfg) = Some command"
    and json: "message \<noteq> []" "from_string env message = Inr v"
      "Encode_json env \<lparr> context_cluster = Some cluster \<rparr> (ObjectType (command_data command)) v = Inr payload"
  obtains a where "hub_step env cfg
      (Mqtt_received (mqtt_prefix cfg @ show_address address @ ''/'' @ show_dec (unat e) @ ''/out/'' @ c @ ''/'' @ d) message) s
      = s\<lparr> hub_api := a, waiting := waiting s @ [(next_promise (hub_api s),
          Send_encoded (Future (next_promise (hub_api s)) (\<lambda>bs. Decode unsigned_codec bs)) e cluster command payload)] \<rparr>"
    "handlers a = handlers (hub_api s) @ [SReq [ext_lookup] (next_promise (hub_api s))]"
    "timers a = timers (hub_api s)" "continuations a = continuations (hub_api s)"
    "sent_frames a = sent_frames (hub_api s) @ [(ZnpCommandType_SREQ, ext_lookup, le_bytes 8 address)]"
proof -
  have "unat e < 2 ^ LENGTH(8)" by (rule unsigned_less)
  then have e: "unat e \<le> ULONG_MAX" by (simp add: ULONG_MAX_def)
  have "hub_step env cfg
      (Mqtt_received (mqtt_prefix cfg @ show_address address @ ''/'' @ show_dec (unat e) @ ''/out/'' @ c @ ''/'' @ d) message) s
    = fst (request (call_then (RawSReq ext_lookup (le_bytes 8 address)) (Decode unsigned_codec))
        (\<lambda>f. Send_encoded f e cluster command payload) s)"
    using live unfolding hub_step_def OnPublish_def hub_event.case route_long [OF names e]
    using found json by (simp add: OnPublishCommandLong_def hub_SendCommand_def lookup_requests)
  then show thesis
    using request_effect [of "le_bytes 8 address" ext_lookup "Decode unsigned_codec"
        "\<lambda>f. Send_encoded f e cluster command payload" s thesis] that by simp
qed

text \<open>The first half of the way of a received message: two lookups of the long address.\<close>

lemma message_looked_up:
  assumes live: "\<not> hangs s" and layer: "handlers (hub_api s) = handlers (ZnpApi_ctor interface) @ later"
    and msg: "msg_Data m = ZclFrame_img (command_frame global direction seq_num i payload)" "length (msg_Data m) \<le> 255"
      "direction < 2" "msg_DstEndpoint m = endpoint_number (hub_endpoint s)"
      "last_msg (hub_endpoint s) (msg_SrcAddr m) \<noteq> Some (msg_Data m)"
    and found: "ClusterById (msg_ClusterId m) (cluster_db cfg) = Some cluster"
      "CommandById (msg_ClusterId m) i global direction (cluster_db cfg) = Some command"
  obtains a where "hub_step env cfg (Frame_received ZnpCommandType_AREQ (AfCmd AfCommand_INCOMING_MSG) (IncomingMsg_img m @ trailing)) s
      = s\<lparr> hub_api := a, hub_endpoint := fst (Listener m (hub_endpoint s)), waiting := waiting s @
          [(next_promise (hub_api s), Publish_command (Future (next_promise (hub_api s)) (\<lambda>bs. Decode unsigned_codec bs))
              (msg_SrcEndpoint m) cluster command payload),
           (Suc (next_promise (hub_api s)), Publish_linkquality (Future (Suc (next_promise (hub_api s)))
              (\<lambda>bs. Decode unsigned_codec bs)) m)] \<rparr>"
    "handlers a = handlers (hub_api s) @ [SReq [nwk_lookup] (next_promise (hub_api s)), SReq [nwk_lookup] (Suc (next_promise (hub_api s)))]"
    "timers a = timers (hub_api s)" "continuations a = continuations (hub_api s)"
proof -
  let ?a = "hub_api s" and ?n = "next_promise (hub_api s)"
  let ?ep = "fst (Listener m (hub_endpoint s))"
  let ?k1 = "\<lambda>f. Publish_command f (msg_SrcEndpoint m) cluster command payload"
  let ?k2 = "\<lambda>f. Publish_linkquality f m"
  let ?lookup = "request (call_then (RawSReq nwk_lookup (le_bytes 2 (msg_SrcAddr m))) (Decode unsigned_codec))"
  let ?s0 = "s\<lparr> hub_api := ?a\<lparr> emitted := emitted ?a @ [Incoming_msg m] \<rparr>, hub_endpoint := ?ep \<rparr>"
  have heard: "snd (Listener m (hub_endpoint s)) = [\<lparr> source_address = msg_SrcAddr m, source_endpoint = msg_SrcEndpoint m,
      cluster_id = msg_ClusterId m, is_global_command = global, command_direction = direction, command_id = i,
      command_payload = payload \<rparr>]"
    using msg by (intro sent_command_heard [of _ _ seq_num]) (simp_all add: Encode_ZclFrame)
  have "hub_step env cfg (Frame_received ZnpCommandType_AREQ (AfCmd AfCommand_INCOMING_MSG) (IncomingMsg_img m @ trailing)) s
      = fst (?lookup ?k2 (fst (?lookup ?k1 ?s0)))"
    using live registered_event_emitted [OF layer msg(2)] heard found
    by (simp add: hub_step_def after_api_def on_event_def OnZclCommand_def hub_OnIncomingMsg_def lookup_requests
        case_prod_beta' Let_def)
  moreover obtain a1 where a1: "fst (?lookup ?k1 ?s0) = ?s0\<lparr> hub_api := a1, waiting := waiting s @ [(?n, ?k1 (Future ?n (\<lambda>bs. Decode unsigned_codec bs)))] \<rparr>"
      "handlers a1 = handlers ?a @ [SReq [nwk_lookup] ?n]" "next_promise a1 = Suc ?n" "timers a1 = timers ?a"
      "continuations a1 = continuations ?a"
    by (rule request_effect [of "le_bytes 2 (msg_SrcAddr m)" nwk_lookup "Decode unsigned_codec" ?k1 ?s0]) simp_all
  moreover let ?s1 = "fst (?lookup ?k1 ?s0)"
  obtain a2 where a2: "fst (?lookup ?k2 ?s1) = ?s1\<lparr> hub_api := a2, waiting := waiting ?s1 @ [(Suc ?n, ?k2 (Future (Suc ?n) (\<lambda>bs. Decode unsigned_codec bs)))] \<rparr>"
      "handlers a2 = handlers ?a @ [SReq [nwk_lookup] ?n, SReq [nwk_lookup] (Suc ?n)]" "timers a2 = timers ?a"
      "continuations a2 = continuations ?a"
    by (rule request_effect [of "le_bytes 2 (msg_SrcAddr m)" nwk_lookup "Decode unsigned_codec" ?k2 ?s1])
      (use a1 in simp_all)
  ultimately show thesis by (intro that [of a2]) simp_all
qed

section \<open>Properties\<close>

text \<open>
  C1: a command that is published for a device, under the names of a cluster and of one of its
  commands and with arguments that can be encoded, is sent to that device: the hub asks the dongle
  for the short address, and when it has the answer it sends the ZCL frame with the encoded
  arguments and the next sequence number of that device to the device's endpoint.
\<close>

theorem published_command_sent:
  fixes address :: IEEEAddress and short :: ShortAddress
  assumes reach: "hub_reachable env cfg s" "\<not> hangs s"
    and names: "CHR ''/'' \<notin> set c" "CHR ''/'' \<notin> set d" "c \<noteq> []" "d \<noteq> []"
    and found: "ClusterByName c (cluster_db cfg) = Some cluster"
      "CommandByName (ClusterDb.cluster_id cluster) ZclDirection_ClientToServer d (cluster_db cfg) = Some command"
    and json: "message \<noteq> []" "from_string env message = Inr v"
      "Encode_json env \<lparr> context_cluster = Some cluster \<rparr> (ObjectType (command_data command)) v = Inr payload"
    and fits: "length payload \<le> 242"
    and free: "unclaimed (handlers (hub_api s)) ZnpCommandType_SRSP ext_lookup (le_bytes 2 short) (hub_api s)"
  shows "sent_frames (hub_api (hub_run env cfg
      [Mqtt_received (mqtt_prefix cfg @ show_address address @ ''/'' @ show_dec (unat (e :: 8 word)) @ ''/out/'' @ c @ ''/'' @ d) message,
       Frame_received ZnpCommandType_SRSP ext_lookup (le_bytes 2 short)] s))
    = sent_frames (hub_api s) @
      [(ZnpCommandType_SREQ, ext_lookup, le_bytes 8 address),
       (ZnpCommandType_SREQ, AfCmd AfCommand_DATA_REQUEST,
        let frame = ZclFrame_img (command_frame (is_global command) ZclDirection_ClientToServer
          (index_default (send_trans_seq_nums (hub_endpoint s)) 0 short) (ClusterDb.command_id command) payload)
        in le_bytes 2 short @ [e, endpoint_number (hub_endpoint s)] @ le_bytes 2 (ClusterDb.cluster_id cluster)
          @ [0, 0, 30, word_of_nat (length frame)] @ frame)]"
proof -
  let ?a = "hub_api s" and ?n = "next_promise (hub_api s)"
  let ?frame = "ZclFrame_img (command_frame (is_global command) ZclDirection_ClientToServer
      (index_default (send_trans_seq_nums (hub_endpoint s)) 0 short) (ClusterDb.command_id command) payload)"
  let ?topic = "mqtt_prefix cfg @ show_address address @ ''/'' @ show_dec (unat e) @ ''/out/'' @ c @ ''/'' @ d"
  let ?k = "\<lambda>f. Send_encoded f e cluster command payload"
  note inv = reachable_inv [OF reach(1)]
  then have run: "api_run ?a" by (simp add: hub_inv_def)
  obtain a1 where s1: "hub_step env cfg (Mqtt_received ?topic message) s = s\<lparr> hub_api := a1,
        waiting := waiting s @ [(?n, ?k (Future ?n (\<lambda>bs. Decode unsigned_codec bs)))] \<rparr>"
      "handlers a1 = handlers ?a @ [SReq [ext_lookup] ?n]" "timers a1 = timers ?a" "continuations a1 = continuations ?a"
      "sent_frames a1 = sent_frames ?a @ [(ZnpCommandType_SREQ, ext_lookup, le_bytes 8 address)]"
    by (rule command_looked_up [OF reach(2) names found json])
  let ?a2 = "answered_api (handlers ?a) [] ?n (le_bytes 2 short) a1"
  have step: "hub_run env cfg [Mqtt_received ?topic message, Frame_received ZnpCommandType_SRSP ext_lookup (le_bytes 2 short)] s
      = run_continuation env cfg (?k (Future ?n (\<lambda>bs. Decode unsigned_codec bs))) (Inr (le_bytes 2 short))
         (s\<lparr> hub_api := ?a2, waiting := waiting s \<rparr>)"
    unfolding hub_run_def foldl_Cons foldl_Nil s1(1)
    by (subst answer_step [where pre = "handlers ?a" and post = "[]" and p = ?n and ?w1.0 = "waiting s" and ?w2.0 = "[]"
          and k = "?k (Future ?n (\<lambda>bs. Decode unsigned_codec bs))"])
      (use s1(2-4) free unclaimed_cong [of ?a a1] run_facts(1) [OF run, of 0] waiting_fresh [OF inv, of 0]
        reach(2) in \<open>simp_all add: map_of_eq_None_iff\<close>)
  have short: "Decode unsigned_codec (le_bytes 2 short) = Inr short" by (rule uint16.decode_img) simp
  have "length ?frame \<le> 245" using fits by (simp add: ZclFrame_img_def command_frame_def)
  note sent = AfDataRequest_sends [OF this, of short e "endpoint_number (hub_endpoint s)" "ClusterDb.cluster_id cluster" 0 0 30 ?a2]
  with s1(5) short show ?thesis
    unfolding step
    by (simp add: run_continuation_def SendCommand_def NextTransSeqNumFor_def call_with_def Encode_ZclFrame Let_def case_prod_beta')
qed

lemma unclaimed_append [simp]:
  "unclaimed (xs @ ys) type cmd data a \<longleftrightarrow> unclaimed xs type cmd data a \<and> unclaimed ys type cmd data a"
  by (simp add: unclaimed_def)

lemma unclaimed_filter: "unclaimed hs type cmd data a \<Longrightarrow> unclaimed (filter P hs) type cmd data a"
  by (auto simp: unclaimed_def list_all_iff)

lemma ctor_handlers_unclaimed: "unclaimed (handlers (ZnpApi_ctor interface)) ZnpCommandType_SRSP cmd data a"
  by (simp add: ZnpApi_ctor_def AddSimpleEventHandler_def unclaimed_def awaits_def command_defs)

text \<open>
  C2: a command that a device sends to the hub's endpoint is published: when the dongle has told the
  long address, the decoded payload appears under the topic of the device, endpoint, cluster and
  command (and once more per attribute for reports), followed by the link quality of the message.
\<close>

theorem received_command_published:
  fixes address :: IEEEAddress
  assumes reach: "hub_reachable env cfg s" "\<not> hangs s"
    and layer: "handlers (hub_api s) = handlers (ZnpApi_ctor interface) @ later"
      "unclaimed later ZnpCommandType_SRSP nwk_lookup (le_bytes 8 address) (hub_api s)"
    and msg: "msg_Data m = ZclFrame_img (command_frame global direction seq_num i payload)" "length (msg_Data m) \<le> 255"
      "direction < 2" "msg_DstEndpoint m = endpoint_number (hub_endpoint s)"
      "last_msg (hub_endpoint s) (msg_SrcAddr m) \<noteq> Some (msg_Data m)"
    and found: "ClusterById (msg_ClusterId m) (cluster_db cfg) = Some cluster"
      "CommandById (msg_ClusterId m) i global direction (cluster_db cfg) = Some command"
    and decoded: "Decode_json env \<lparr> context_cluster = Some cluster \<rparr> (ObjectType (command_data command)) payload = Inr (v, rest)"
  shows "published (hub_run env cfg
      [Frame_received ZnpCommandType_AREQ (AfCmd AfCommand_INCOMING_MSG) (IncomingMsg_img m @ trailing),
       Frame_received ZnpCommandType_SRSP nwk_lookup (le_bytes 8 address),
       Frame_received ZnpCommandType_SRSP nwk_lookup (le_bytes 8 address)] s)
    = published s @ map (\<lambda>(t, x). \<lparr> topic_name = t, message_text = x, publish_qos = at_least_once, publish_retain = False \<rparr>)
        (command_publications env cfg (command_topic cfg address (msg_SrcEndpoint m) cluster command) command v
         @ [(mqtt_prefix cfg @ show_address address @ ''/linkquality'', show_dec (unat (msg_LinkQuality m)))])"
proof -
  let ?a = "hub_api s" and ?n = "next_promise (hub_api s)"
  let ?ep = "fst (Listener m (hub_endpoint s))"
  let ?k1 = "\<lambda>f. Publish_command f (msg_SrcEndpoint m) cluster command payload"
  let ?k2 = "\<lambda>f. Publish_linkquality f m"
  note inv = reachable_inv [OF reach(1)]
  then have run: "api_run ?a" by (simp add: hub_inv_def)
  let ?s2 = "\<lambda>a. s\<lparr> hub_api := a, hub_endpoint := ?ep, waiting := waiting s @ [(?n, ?k1 (Future ?n (\<lambda>bs. Decode unsigned_codec bs))),
      (Suc ?n, ?k2 (Future (Suc ?n) (\<lambda>bs. Decode unsigned_codec bs)))] \<rparr>"
  obtain a2 where a2: "hub_step env cfg (Frame_received ZnpCommandType_AREQ (AfCmd AfCommand_INCOMING_MSG) (IncomingMsg_img m @ trailing)) s = ?s2 a2"
      "handlers a2 = handlers ?a @ [SReq [nwk_lookup] ?n, SReq [nwk_lookup] (Suc ?n)]" "timers a2 = timers ?a"
      "continuations a2 = continuations ?a"
    by (rule message_looked_up [OF reach(2) layer(1) msg found])
  have free: "unclaimed (handlers ?a) ZnpCommandType_SRSP nwk_lookup (le_bytes 8 address) a2"
    using layer ctor_handlers_unclaimed unclaimed_cong [of ?a a2 later] a2(3) by simp
  have fresh: "?n \<notin> fst ` set (waiting s)" "Suc ?n \<notin> fst ` set (waiting s)"
    using waiting_fresh [OF inv, of 0] waiting_fresh [OF inv, of 1] by (simp_all add: map_of_eq_None_iff)
  have long: "Decode unsigned_codec (le_bytes 8 address) = Inr address" by (rule uint64.decode_img) simp
  let ?b1 = "answered_api (handlers ?a) [SReq [nwk_lookup] (Suc ?n)] ?n (le_bytes 8 address) a2"
  let ?pubs = "command_publications env cfg (command_topic cfg address (msg_SrcEndpoint m) cluster command) command v"
  let ?s3 = "publish_all ?pubs ((?s2 a2)\<lparr> hub_api := ?b1,
      waiting := waiting s @ [(Suc ?n, ?k2 (Future (Suc ?n) (\<lambda>bs. Decode unsigned_codec bs)))] \<rparr>)"
  have second: "hub_step env cfg (Frame_received ZnpCommandType_SRSP nwk_lookup (le_bytes 8 address)) (?s2 a2) = ?s3"
    by (subst answer_step [where pre = "handlers ?a" and post = "[SReq [nwk_lookup] (Suc ?n)]" and p = ?n
          and ?w1.0 = "waiting s" and k = "?k1 (Future ?n (\<lambda>bs. Decode unsigned_codec bs))"
          and ?w2.0 = "[(Suc ?n, ?k2 (Future (Suc ?n) (\<lambda>bs. Decode unsigned_codec bs)))]"])
      (use a2(2-4) free fresh reach(2) run_facts(1) [OF run, of 0] long decoded in
        \<open>simp_all add: run_continuation_def OnZclCommand_decoded_def\<close>)
  have third: "published (hub_step env cfg (Frame_received ZnpCommandType_SRSP nwk_lookup (le_bytes 8 address)) ?s3)
      = published ?s3 @ [\<lparr> topic_name = mqtt_prefix cfg @ show_address address @ ''/linkquality'',
          message_text = show_dec (unat (msg_LinkQuality m)), publish_qos = at_least_once, publish_retain = False \<rparr>]"
    by (subst answer_step [where pre = "filter (\<lambda>h. \<not> expired a2 h) (handlers ?a)" and post = "[]" and p = "Suc ?n"
          and ?w1.0 = "waiting s" and k = "?k2 (Future (Suc ?n) (\<lambda>bs. Decode unsigned_codec bs))" and ?w2.0 = "[]"])
      (use a2(2-4) unclaimed_filter [OF free] unclaimed_cong [of a2 ?b1] fresh reach(2) run_facts(1) [OF run, of 1] long in
        \<open>simp_all add: run_continuation_def Publish_def publish_all_eq\<close>)
  show ?thesis
    unfolding hub_run_def foldl_Cons foldl_Nil a2(1) second using third by (simp add: publish_all_eq)
qed

section \<open>Examples\<close>

definition example_command :: CommandInfo where
  "example_command = \<lparr> command_id = 2, command_name = ''Toggle'', is_global = False, command_data = [] \<rparr>"

definition example_cluster :: ClusterInfo where
  "example_cluster = (empty_cluster 6)\<lparr> cluster_name := ''OnOff'',
     commands_clientToServer := fst (Add command_id command_name example_command empty_list) \<rparr>"

definition example_db :: ClusterDb where
  "example_db = \<lparr> clusters = fst (Add ClusterDb.cluster_id cluster_name example_cluster empty_list),
     global_commands = empty_list \<rparr>"

lemma example_db_lookups:
  "ClusterByName ''OnOff'' example_db = Some example_cluster" "ClusterById 6 example_db = Some example_cluster"
  "CommandByName 6 ZclDirection_ClientToServer ''Toggle'' example_db = Some example_command"
  "CommandById 6 2 False ZclDirection_ClientToServer example_db = Some example_command"
  by (simp_all add: ClusterByName_def ClusterById_def CommandByName_def CommandById_def GlobalCommandByName_def
      example_db_def example_cluster_def example_command_def FindByName_def FindById_def Add_def empty_list_def
      empty_cluster_def)

lemma example_cluster_simps [simp]:
  "ClusterDb.cluster_id example_cluster = 6" "cluster_name example_cluster = ''OnOff''"
  "command_name example_command = ''Toggle''" "ClusterDb.command_id example_command = 2"
  "is_global example_command = False" "command_data example_command = []"
  by (simp_all add: example_cluster_def example_command_def empty_cluster_def)

lemma example_hub_reachable: "hub_reachable env cfg example_hub"
  by (auto simp: hub_reachable_def example_hub_def hub_run_def intro!: exI [of _ started] exI [of _ "[]"] started_run)

lemma example_hub_simps [simp]:
  "hangs example_hub = False" "hub_api example_hub = started" "hub_endpoint example_hub = ZclEndpoint_ctor 1"
  "published example_hub = []"
  by (simp_all add: example_hub_def hub_ctor_def)

lemma example_env_simps [simp]:
  "from_string example_env ''{}'' = Inr (JObject [])"
  "Encode_json example_env ctx (ObjectType []) (JObject []) = Inr []"
  "Decode_json example_env ctx (ObjectType []) [] = Inr (JObject [], [])"
  by (simp_all add: example_env_def Encode_json_def Decode_json_def encode_object_def Decode_any_def decode_object_def)

lemma example_settings_simps [simp]:
  "mqtt_prefix (example_settings db) = ''Hub/''" "cluster_db (example_settings db) = db"
  "mqtt_recursive_publish (example_settings db) = False"
  by (simp_all add: example_settings_def)

lemma example_bytes: "le_bytes 2 (0x1234 :: 16 word) = [0x34, 0x12]" "le_bytes 2 (6 :: 16 word) = [6, 0]"
  unfolding numeral_2_eq_2 by simp_all

lemma started_sent: "sent_frames started = []"
  by (simp add: sent_frames_def ctor_simps List.map_filter_def)

theorem published_command_sent_witness:
  "sent_frames (hub_api (hub_run example_env (example_settings example_db)
      [Mqtt_received (''Hub/'' @ show_address 0x158D00012A3B4C @ ''/'' @ show_dec (unat (1 :: 8 word)) @ ''/out/'' @ ''OnOff'' @ ''/'' @ ''Toggle'') ''{}'',
       Frame_received ZnpCommandType_SRSP ext_lookup (le_bytes 2 (0x1234 :: 16 word))] example_hub))
    = [(ZnpCommandType_SREQ, ext_lookup, le_bytes 8 (0x158D00012A3B4C :: 64 word)),
       (ZnpCommandType_SREQ, AfCmd AfCommand_DATA_REQUEST, [0x34, 0x12, 1, 1, 6, 0, 0, 0, 30, 3, 1, 0, 2])]"
proof -
  have data: "ZclFrame_img (command_frame (is_global example_command) ZclDirection_ClientToServer
      (index_default (send_trans_seq_nums (hub_endpoint example_hub)) 0 (0x1234 :: 16 word))
      (ClusterDb.command_id example_command) []) = [1, 0, 2]"
    by (simp add: ZclFrame_img_def command_frame_def frame_control_def ZclEndpoint_ctor_def index_default_def)
  have number: "endpoint_number (hub_endpoint example_hub) = 1" by (simp add: ZclEndpoint_ctor_def)
  show ?thesis
    using published_command_sent [where env = example_env and cfg = "example_settings example_db" and s = example_hub
        and c = "''OnOff''" and d = "''Toggle''" and e = 1 and address = "0x158D00012A3B4C" and short = "0x1234"
        and cluster = example_cluster and command = example_command and message = "''{}''" and v = "JObject []" and payload = "[]",
        OF example_hub_reachable] example_db_lookups
    unfolding data number Let_def
    by (simp only: example_hub_simps example_settings_simps example_cluster_simps example_env_simps example_bytes
        started_unclaimed started_sent simp_thms refl) simp
qed

theorem received_command_published_witness:
  "published (hub_run example_env (example_settings example_db)
      [Frame_received ZnpCommandType_AREQ (AfCmd AfCommand_INCOMING_MSG) (IncomingMsg_img toggle @ [0]),
       Frame_received ZnpCommandType_SRSP nwk_lookup (le_bytes 8 (0x158D00012A3B4C :: 64 word)),
       Frame_received ZnpCommandType_SRSP nwk_lookup (le_bytes 8 (0x158D00012A3B4C :: 64 word))] example_hub)
    = [\<lparr> topic_name = ''Hub/'' @ show_address 0x158D00012A3B4C @ ''/'' @ show_dec (unat (1 :: 8 word)) @ ''/in/OnOff/Toggle'',
         message_text = [], publish_qos = at_least_once, publish_retain = False \<rparr>,
       \<lparr> topic_name = ''Hub/'' @ show_address 0x158D00012A3B4C @ ''/linkquality'', message_text = show_dec (unat (msg_LinkQuality toggle)),
         publish_qos = at_least_once, publish_retain = False \<rparr>]"
proof -
  have data: "msg_Data toggle = ZclFrame_img (command_frame False ZclDirection_ClientToServer 5 2 [])"
    by (simp add: Encode_ZclFrame)
  have short: "length (msg_Data toggle) \<le> 255"
    by (simp add: Encode_ZclFrame ZclFrame_img_def command_frame_def)
  have text_of: "PublishValue (to_string (env_json example_env)) False topic v = [(topic, [])]" for topic v
    by (subst PublishValue.simps) (simp add: example_env_def strict_library_def)
  have pubs: "command_publications example_env (example_settings example_db) topic example_command v = [(topic, [])]" for topic v
    by (simp add: command_publications_def text_of repeated_reports_def)
  have fresh: "last_msg (hub_endpoint example_hub) (msg_SrcAddr toggle) \<noteq> Some (msg_Data toggle)"
    "msg_DstEndpoint toggle = endpoint_number (hub_endpoint example_hub)"
    by (simp_all add: ZclEndpoint_ctor_def)
  have layer: "handlers (hub_api example_hub) = handlers (ZnpApi_ctor port_ctor) @ []" "\<not> hangs example_hub"
    "unclaimed [] ZnpCommandType_SRSP nwk_lookup (le_bytes 8 (0x158D00012A3B4C :: 64 word)) (hub_api example_hub)"
    by (simp_all add: unclaimed_def)
  have found: "ClusterById (msg_ClusterId toggle) (cluster_db (example_settings example_db)) = Some example_cluster"
    "CommandById (msg_ClusterId toggle) 2 False ZclDirection_ClientToServer (cluster_db (example_settings example_db)) = Some example_command"
    using example_db_lookups by simp_all
  have decoded: "Decode_json example_env \<lparr> context_cluster = Some example_cluster \<rparr> (ObjectType (command_data example_command)) [] = Inr (JObject [], [])"
    by simp
  show ?thesis
    using received_command_published [OF example_hub_reachable layer(2,1,3) data short _ fresh(2,1) found decoded,
        of "[0]"]
    by (simp add: pubs command_topic_def)
qed

end
