(* ===== verification/MqttWrapper.thy ===== *)
theory MqttWrapper
  imports Prelude "HOL-Library.AList" "HOL-Library.Multiset" "HOL-Library.FSet" "HOL-Library.List_Lexorder"
    "HOL-Library.Product_Lexorder" "HOL-Library.Char_ord"
begin

text \<open>
  The MQTT connection, \<^verbatim>\<open>src/mqtt_wrapper_impl.h\<close>: the queue of messages while there is no
  connection, the messages that wait for their acknowledgement, the subscriptions that are repeated
  after every connect, and the reconnect timer.

  The member functions and the handlers of the client run one after the other on a serial queue, in
  the order in which they were posted: each is an event, and the events are taken in that order. The
  calls of the client of the mqtt library are the log \<open>client_calls\<close>; the packet identifiers it hands
  out are the argument \<open>packet_ids\<close>, the result of the \<open>n\<close>-th call of \<open>acquire_unique_packet_id\<close>,
  which may throw. The callback of an item is called for a number that stands for its
  \<open>stlab::package\<close>. A map is an association list, a set of topics a finite set, which the source iterates in
  the order of its elements.
\<close>

section \<open>State\<close>

datatype ConnectionState = Disconnected | Connecting | Connected

definition qos_at_most_once :: "8 word" where "qos_at_most_once = 0"
definition qos_at_least_once :: "8 word" where "qos_at_least_once = 1"
definition qos_exactly_once :: "8 word" where "qos_exactly_once = 2"

text \<open>\<open>mqtt::connect_return_code::accepted\<close>\<close>

definition accepted :: "8 word" where "accepted = 0"

record PublishQueueItem =
  item_topic :: string
  item_message :: string
  item_qos :: "8 word"
  item_retain :: bool
  item_callback :: nat

type_synonym subscription = "string \<times> 8 word"

text \<open>What the completion handler of an asynchronous publish does.\<close>

datatype completion = Call_back nat | Post_callback "16 word"

datatype client_call =
    Client_connect
  | Async_subscribe "subscription list"
  | Async_publish "16 word" string string "8 word" bool completion

record wrapper =
  connection :: ConnectionState
  publish_queue :: "PublishQueueItem list"
  publish_inprogress :: "(16 word \<times> PublishQueueItem) list"
  subscriptions :: "subscription fset"
  reconnect_timer :: bool
  ids_acquired :: nat
  next_callback :: nat
  sending :: "nat list"
  client_calls :: "client_call list"
  callbacks :: "(nat \<times> bool) list"
  publish_futures :: "(nat \<times> (error + unit)) list"
  on_publish :: "(string \<times> string \<times> 8 word \<times> bool) list"

text \<open>
  \<open>state_\<close> has no initialiser: its first value is the argument. \<open>PostConstructor\<close> sets the handlers
  and connects.
\<close>

definition MqttWrapperImpl :: "ConnectionState \<Rightarrow> wrapper" where
  "MqttWrapperImpl state = \<lparr> connection = state, publish_queue = [], publish_inprogress = [], subscriptions = {||},
     reconnect_timer = False, ids_acquired = 0, next_callback = 0, sending = [], client_calls = [], callbacks = [],
     publish_futures = [], on_publish = [] \<rparr>"

definition call_client :: "client_call \<Rightarrow> wrapper \<Rightarrow> wrapper" where
  "call_client c w = w\<lparr> client_calls := client_calls w @ [c] \<rparr>"

definition PostConstructor :: "wrapper \<Rightarrow> wrapper" where
  "PostConstructor w = call_client Client_connect w"

definition call_back :: "nat \<Rightarrow> bool \<Rightarrow> wrapper \<Rightarrow> wrapper" where
  "call_back n failed w = w\<lparr> callbacks := callbacks w @ [(n, failed)] \<rparr>"

section \<open>Publishing and subscribing\<close>

definition SafePublish :: "(nat \<Rightarrow> error + 16 word) \<Rightarrow> PublishQueueItem \<Rightarrow> wrapper \<Rightarrow> wrapper \<times> (error + unit)" where
  "SafePublish packet_ids item w =
     (if connection w \<noteq> Connected then (w\<lparr> publish_queue := publish_queue w @ [item] \<rparr>, Inr ())
      else if item_qos item = qos_at_most_once then
        (call_client (Async_publish 0 (item_topic item) (item_message item) (item_qos item) (item_retain item)
             (Call_back (item_callback item))) (w\<lparr> sending := sending w @ [item_callback item] \<rparr>), Inr ())
      else (case packet_ids (ids_acquired w) of
          Inl e \<Rightarrow> (w\<lparr> ids_acquired := Suc (ids_acquired w) \<rparr>, Inl e)
        | Inr packet_id \<Rightarrow>
            (call_client (Async_publish packet_id (item_topic item) (item_message item) (item_qos item) (item_retain item)
                 (Post_callback packet_id))
               (w\<lparr> ids_acquired := Suc (ids_acquired w),
                   publish_inprogress := AList.update packet_id item (publish_inprogress w) \<rparr>), Inr ())))"

text \<open>
  \<open>Publish\<close> returns the future of the task that runs \<open>SafePublish\<close>, which has its value when that
  task is done; the future of the package, which would wait for the callback, is never returned.
\<close>

definition Publish_task :: "(nat \<Rightarrow> error + 16 word) \<Rightarrow> string \<Rightarrow> string \<Rightarrow> 8 word \<Rightarrow> bool \<Rightarrow> wrapper \<Rightarrow> wrapper" where
  "Publish_task packet_ids topic message qos retain w =
     (let n = next_callback w;
          item = \<lparr> item_topic = topic, item_message = message, item_qos = qos, item_retain = retain, item_callback = n \<rparr>;
          (w, r) = SafePublish packet_ids item (w\<lparr> next_callback := Suc n \<rparr>)
      in w\<lparr> publish_futures := publish_futures w @ [(n, r)] \<rparr>)"

definition SafeSubscribe :: "subscription fset \<Rightarrow> wrapper \<Rightarrow> wrapper" where
  "SafeSubscribe new w =
     (let w = w\<lparr> subscriptions := subscriptions w |\<union>| new \<rparr>
      in if connection w = Connected then call_client (Async_subscribe (sorted_list_of_fset new)) w else w)"

definition Subscribe :: "subscription fset \<Rightarrow> wrapper \<Rightarrow> wrapper" where
  "Subscribe topics w = (if topics = {||} then w else SafeSubscribe topics w)"

section \<open>Handlers of the client\<close>

text \<open>The loop over the copy of the queue; an exception leaves it, and the copy is gone.\<close>

fun publish_queued :: "(nat \<Rightarrow> error + 16 word) \<Rightarrow> PublishQueueItem list \<Rightarrow> wrapper \<Rightarrow> wrapper" where
  "publish_queued packet_ids [] w = w"
| "publish_queued packet_ids (item # queue_copy) w =
     (case SafePublish packet_ids item w of
        (w, Inl e) \<Rightarrow> w
      | (w, Inr _) \<Rightarrow> publish_queued packet_ids queue_copy w)"

definition ConnAckHandler :: "(nat \<Rightarrow> error + 16 word) \<Rightarrow> 8 word \<Rightarrow> wrapper \<Rightarrow> wrapper" where
  "ConnAckHandler packet_ids connack_return_code w =
     (if connack_return_code \<noteq> accepted then w
      else
        let w = w\<lparr> connection := Connected \<rparr>;
            w = (if subscriptions w \<noteq> {||} then call_client (Async_subscribe (sorted_list_of_fset (subscriptions w))) w else w)
        in publish_queued packet_ids (publish_queue w) (w\<lparr> publish_queue := [] \<rparr>))"

definition StartReconnectTimer :: "wrapper \<Rightarrow> wrapper" where
  "StartReconnectTimer w = w\<lparr> reconnect_timer := True \<rparr>"

definition ErrorHandler :: "wrapper \<Rightarrow> wrapper" where
  "ErrorHandler w = StartReconnectTimer (w\<lparr> connection := Disconnected \<rparr>)"

definition FinishHandler :: "wrapper \<Rightarrow> wrapper" where
  "FinishHandler w = StartReconnectTimer (w\<lparr> connection := Disconnected \<rparr>)"

datatype timer_result = Timer_ok | Timer_aborted | Timer_failed

text \<open>The handler of a cancelled wait is called with \<open>operation_aborted\<close>, while the new wait goes on.\<close>

definition OnReconnectTimer :: "timer_result \<Rightarrow> wrapper \<Rightarrow> wrapper" where
  "OnReconnectTimer ec w =
     (if ec = Timer_aborted then w
      else let w = w\<lparr> reconnect_timer := False \<rparr>
        in if ec = Timer_failed then w
           else if connection w \<noteq> Disconnected then w
           else call_client Client_connect w)"

definition AsyncPublishCallback :: "16 word \<Rightarrow> bool \<Rightarrow> wrapper \<Rightarrow> wrapper" where
  "AsyncPublishCallback packet_id failed w =
     (if failed then
        (case map_of (publish_inprogress w) packet_id of
           None \<Rightarrow> w
         | Some item \<Rightarrow> call_back (item_callback item) True
             (w\<lparr> publish_inprogress := AList.delete packet_id (publish_inprogress w) \<rparr>))
      else w)"

definition PublishAcknowledgedHandler :: "16 word \<Rightarrow> wrapper \<Rightarrow> wrapper" where
  "PublishAcknowledgedHandler packet_id w =
     (case map_of (publish_inprogress w) packet_id of
        None \<Rightarrow> w
      | Some item \<Rightarrow> if item_qos item \<noteq> qos_at_least_once then w
          else call_back (item_callback item) False
            (w\<lparr> publish_inprogress := AList.delete packet_id (publish_inprogress w) \<rparr>))"

definition PublishCompletedHandler :: "16 word \<Rightarrow> wrapper \<Rightarrow> wrapper" where
  "PublishCompletedHandler packet_id w =
     (case map_of (publish_inprogress w) packet_id of
        None \<Rightarrow> w
      | Some item \<Rightarrow> if item_qos item \<noteq> qos_exactly_once then w
          else call_back (item_callback item) False
            (w\<lparr> publish_inprogress := AList.delete packet_id (publish_inprogress w) \<rparr>))"

text \<open>The completion handler of a publish without acknowledgement runs once.\<close>

definition sent_at_most_once :: "nat \<Rightarrow> bool \<Rightarrow> wrapper \<Rightarrow> wrapper" where
  "sent_at_most_once n failed w =
     (if n \<in> set (sending w) then call_back n failed (w\<lparr> sending := remove1 n (sending w) \<rparr>) else w)"

text \<open>\<open>mqtt::publish::get_qos\<close> and \<open>is_retain\<close> read the fixed header.\<close>

record header_reader =
  get_qos :: "8 word \<Rightarrow> 8 word"
  is_retain :: "8 word \<Rightarrow> bool"

definition PublishHandler :: "header_reader \<Rightarrow> 8 word \<Rightarrow> string \<Rightarrow> string \<Rightarrow> wrapper \<Rightarrow> wrapper" where
  "PublishHandler reader fixed_header topic_name message w =
     w\<lparr> on_publish := on_publish w @ [(topic_name, message, get_qos reader fixed_header, is_retain reader fixed_header)] \<rparr>"

section \<open>Events\<close>

datatype mqtt_event =
    Publish_called string string "8 word" bool
  | Subscribe_called "subscription fset"
  | Conn_ack bool "8 word"
  | Connection_error
  | Connection_finished
  | Reconnect_timer timer_result
  | Sent_once nat bool
  | Publish_sent "16 word" bool
  | Pub_ack "16 word"
  | Pub_comp "16 word"
  | Message_arrived "8 word" string string

definition mqtt_step :: "(nat \<Rightarrow> error + 16 word) \<Rightarrow> header_reader \<Rightarrow> mqtt_event \<Rightarrow> wrapper \<Rightarrow> wrapper" where
  "mqtt_step packet_ids reader ev w = (case ev of
       Publish_called topic message qos retain \<Rightarrow> Publish_task packet_ids topic message qos retain w
     | Subscribe_called topics \<Rightarrow> Subscribe topics w
     | Conn_ack sp code \<Rightarrow> ConnAckHandler packet_ids code w
     | Connection_error \<Rightarrow> ErrorHandler w
     | Connection_finished \<Rightarrow> FinishHandler w
     | Reconnect_timer ec \<Rightarrow> OnReconnectTimer ec w
     | Sent_once n failed \<Rightarrow> sent_at_most_once n failed w
     | Publish_sent packet_id failed \<Rightarrow> AsyncPublishCallback packet_id failed w
     | Pub_ack packet_id \<Rightarrow> PublishAcknowledgedHandler packet_id w
     | Pub_comp packet_id \<Rightarrow> PublishCompletedHandler packet_id w
     | Message_arrived fixed_header topic message \<Rightarrow> PublishHandler reader fixed_header topic message w)"

definition mqtt_run :: "(nat \<Rightarrow> error + 16 word) \<Rightarrow> header_reader \<Rightarrow> mqtt_event list \<Rightarrow> wrapper \<Rightarrow> wrapper" where
  "mqtt_run packet_ids reader evs w = foldl (\<lambda>w ev. mqtt_step packet_ids reader ev w) w evs"

definition mqtt_start :: "ConnectionState \<Rightarrow> wrapper" where
  "mqtt_start state = PostConstructor (MqttWrapperImpl state)"

lemma mqtt_run_simps [simp]:
  "mqtt_run ids r [] w = w" "mqtt_run ids r (ev # evs) w = mqtt_run ids r evs (mqtt_step ids r ev w)"
  "mqtt_run ids r (evs @ evs') w = mqtt_run ids r evs' (mqtt_run ids r evs w)"
  by (simp_all add: mqtt_run_def)

end
