(* ===== verification/MqttDelivery.thy ===== *)
theory MqttDelivery
  imports MqttWrapper
begin

text \<open>
  What the MQTT connection promises: messages reach the client in the order in which they were
  published and none is dropped while the connection is down, the callback of a message is called at
  most once, and every connect repeats all subscriptions. A message that was handed to the client and
  not acknowledged is not sent again after a reconnect.
\<close>

section \<open>Order\<close>

type_synonym message = "string \<times> string \<times> 8 word \<times> bool"

definition item_of :: "PublishQueueItem \<Rightarrow> message" where
  "item_of i = (item_topic i, item_message i, item_qos i, item_retain i)"

definition sent_of :: "client_call \<Rightarrow> message option" where
  "sent_of c = (case c of Async_publish packet_id topic message qos retain k \<Rightarrow> Some (topic, message, qos, retain) | _ \<Rightarrow> None)"

text \<open>The messages handed to the client, those that wait, and those that a run is asked to publish.\<close>

definition messages_sent :: "wrapper \<Rightarrow> message list" where
  "messages_sent w = List.map_filter sent_of (client_calls w)"

definition messages_taken :: "wrapper \<Rightarrow> message list" where
  "messages_taken w = messages_sent w @ map item_of (publish_queue w)"

definition asked :: "mqtt_event list \<Rightarrow> message list" where
  "asked evs = List.map_filter (\<lambda>ev. case ev of Publish_called t m q r \<Rightarrow> Some (t, m, q, r) | _ \<Rightarrow> None) evs"

definition never_throws :: "(nat \<Rightarrow> error + 16 word) \<Rightarrow> bool" where
  "never_throws ids \<longleftrightarrow> (\<forall>n. \<exists>packet_id. ids n = Inr packet_id)"

text \<open>A connected wrapper has nothing queued.\<close>

definition flowing :: "wrapper \<Rightarrow> bool" where
  "flowing w \<longleftrightarrow> (connection w = Connected \<longrightarrow> publish_queue w = [])"

lemma map_filter_append [simp]: "List.map_filter f (xs @ ys) = List.map_filter f xs @ List.map_filter f ys"
  by (simp add: List.map_filter_def)

lemma map_filter_simps' [simp]:
  "List.map_filter f [] = []"
  "List.map_filter f (x # xs) = (case f x of None \<Rightarrow> List.map_filter f xs | Some y \<Rightarrow> y # List.map_filter f xs)"
  by (auto simp: List.map_filter_def split: option.split)

lemmas wrapper_defs = call_client_def call_back_def sent_of_def

lemma SafePublish_facts:
  assumes "SafePublish ids item w = (w', r)" "flowing w" "never_throws ids"
  shows "messages_taken w' = messages_taken w @ [item_of item]" "flowing w'" "r = Inr ()" "connection w' = connection w"
proof -
  obtain packet_id where p: "ids (ids_acquired w) = Inr packet_id" using assms(3) by (auto simp: never_throws_def)
  then show "messages_taken w' = messages_taken w @ [item_of item]" "flowing w'" "r = Inr ()" "connection w' = connection w"
    using assms(1,2)
    by (auto simp: SafePublish_def messages_taken_def messages_sent_def item_of_def flowing_def wrapper_defs split: if_splits)
qed

lemma publish_queued_facts:
  assumes "never_throws ids" "connection w = Connected" "publish_queue w = []"
  shows "messages_sent (publish_queued ids items w) = messages_sent w @ map item_of items
    \<and> publish_queue (publish_queued ids items w) = [] \<and> connection (publish_queued ids items w) = Connected"
  using assms
proof (induction items arbitrary: w)
  case (Cons item items)
  obtain w1 r where s: "SafePublish ids item w = (w1, r)" by fastforce
  have "flowing w" using Cons.prems by (simp add: flowing_def)
  note facts = SafePublish_facts [OF s this Cons.prems(1)]
  then have "publish_queue w1 = []" using Cons.prems by (simp add: flowing_def)
  with facts Cons show ?case by (simp add: s messages_taken_def)
qed simp

lemma step_order:
  assumes "flowing w" "never_throws ids"
  shows "flowing (mqtt_step ids reader ev w)" (is ?flowing)
    and "messages_taken (mqtt_step ids reader ev w) = messages_taken w @ asked [ev]" (is ?taken)
proof -
  have "?flowing \<and> ?taken"
  proof (cases ev)
    case (Publish_called t m q r)
    let ?item = "\<lparr> item_topic = t, item_message = m, item_qos = q, item_retain = r, item_callback = next_callback w \<rparr>"
    obtain w1 x where s: "SafePublish ids ?item (w\<lparr> next_callback := Suc (next_callback w) \<rparr>) = (w1, x)" by fastforce
    have "flowing (w\<lparr> next_callback := Suc (next_callback w) \<rparr>)" using assms(1) by (simp add: flowing_def)
    note facts = SafePublish_facts [OF s this assms(2)]
    then show ?thesis
      using s by (simp add: Publish_called mqtt_step_def Publish_task_def Let_def messages_taken_def messages_sent_def
          asked_def item_of_def flowing_def)
  next
    case (Conn_ack sp code)
    define w1 where "w1 = (let w = w\<lparr> connection := Connected \<rparr>
      in if subscriptions w \<noteq> {||} then call_client (Async_subscribe (sorted_list_of_fset (subscriptions w))) w else w)"
    have "publish_queue w1 = publish_queue w" "messages_sent w1 = messages_sent w" "connection w1 = Connected"
      by (simp_all add: w1_def Let_def messages_sent_def wrapper_defs)
    moreover have "ConnAckHandler ids code w = (if code \<noteq> accepted then w else publish_queued ids (publish_queue w1) (w1\<lparr> publish_queue := [] \<rparr>))"
      by (simp add: ConnAckHandler_def w1_def Let_def)
    ultimately show ?thesis
      using assms publish_queued_facts [OF assms(2), of "w1\<lparr> publish_queue := [] \<rparr>" "publish_queue w"]
      by (simp add: Conn_ack mqtt_step_def messages_taken_def messages_sent_def asked_def flowing_def)
  qed (use assms(1) in \<open>auto simp: mqtt_step_def Subscribe_def SafeSubscribe_def Let_def messages_taken_def messages_sent_def
      asked_def flowing_def ErrorHandler_def FinishHandler_def StartReconnectTimer_def OnReconnectTimer_def
      sent_at_most_once_def AsyncPublishCallback_def PublishAcknowledgedHandler_def PublishCompletedHandler_def
      PublishHandler_def wrapper_defs split: option.split\<close>)
  then show ?flowing ?taken by simp_all
qed

lemma asked_Cons: "asked (ev # evs) = asked [ev] @ asked evs"
  by (simp add: asked_def split: option.split)

lemma run_order:
  assumes "flowing w" "never_throws ids"
  shows "flowing (mqtt_run ids reader evs w) \<and> messages_taken (mqtt_run ids reader evs w) = messages_taken w @ asked evs"
  using assms
proof (induction evs arbitrary: w)
  case (Cons ev evs)
  then show ?case using step_order [OF Cons.prems, of reader ev] asked_Cons [of ev evs] by simp
qed (simp add: asked_def)

lemma start_facts: "flowing (mqtt_start state)" "messages_taken (mqtt_start state) = []"
  by (simp_all add: mqtt_start_def PostConstructor_def MqttWrapperImpl_def flowing_def messages_taken_def
      messages_sent_def wrapper_defs)

section \<open>Callbacks\<close>

text \<open>Every callback that may still be called, and those that were.\<close>

definition owed :: "wrapper \<Rightarrow> nat multiset" where
  "owed w = mset (map item_callback (publish_queue w)) + mset (map (item_callback \<circ> snd) (publish_inprogress w))
     + mset (sending w) + mset (map fst (callbacks w))"

definition callbacks_ok :: "wrapper \<Rightarrow> bool" where
  "callbacks_ok w \<longleftrightarrow> owed w \<subseteq># mset [0..<next_callback w]"

lemma mset_update: "mset (map (f \<circ> snd) (AList.update k v al)) \<subseteq># add_mset (f v) (mset (map (f \<circ> snd) al))"
proof (induction al)
  case (Cons kv al)
  show ?case
  proof (cases "k = fst kv")
    case True
    then show ?thesis by (cases kv) (simp add: add_mset_commute)
  next
    case False
    then show ?thesis using Cons by (cases kv) (simp add: add_mset_commute)
  qed
qed simp

lemma mset_delete:
  "map_of al k = Some v \<Longrightarrow> add_mset (f v) (mset (map (f \<circ> snd) (AList.delete k al))) \<subseteq># mset (map (f \<circ> snd) al)"
proof (induction al)
  case (Cons kv al)
  show ?case
  proof (cases "k = fst kv")
    case True
    then have "mset (map (f \<circ> snd) (AList.delete k al)) \<subseteq># mset (map (f \<circ> snd) al)"
      by (simp add: AList.delete_eq image_mset_subseteq_mono [OF multiset_filter_subset])
    with True Cons.prems show ?thesis by (cases kv) (simp add: comp_def)
  next
    case False
    then show ?thesis using Cons by (cases kv) (simp add: add_mset_commute)
  qed
qed simp

lemma distinct_sub_mset:
  assumes "mset xs \<subseteq># mset ys" "distinct ys"
  shows "distinct xs"
  unfolding distinct_count_atmost_1
proof
  fix a
  have "count (mset xs) a \<le> count (mset ys) a" using assms(1) by (rule mset_subset_eq_count)
  moreover have "count (mset ys) a \<le> 1" using assms(2) by (simp add: distinct_count_atmost_1)
  moreover have "a \<in> set xs \<longrightarrow> 1 \<le> count (mset xs) a" "a \<notin> set xs \<longrightarrow> count (mset xs) a = 0"
    by (simp_all add: Suc_le_eq count_eq_zero_iff)
  ultimately show "count (mset xs) a = (if a \<in> set xs then 1 else 0)" by presburger
qed

lemma SafePublish_owed:
  assumes "SafePublish ids item w = (w', r)"
  shows "owed w' \<subseteq># add_mset (item_callback item) (owed w)" "next_callback w' = next_callback w"
  using assms mset_update [of item_callback "projr (ids (ids_acquired w))" item "publish_inprogress w"]
  by (auto simp: SafePublish_def owed_def wrapper_defs split: if_splits sum.splits
      intro: subset_mset.add_left_mono subset_mset.add_right_mono)

lemma publish_queued_owed:
  "owed (publish_queued ids items w) \<subseteq># mset (map item_callback items) + owed w
    \<and> next_callback (publish_queued ids items w) = next_callback w"
proof (induction items arbitrary: w)
  case (Cons item items)
  obtain w1 r where s: "SafePublish ids item w = (w1, r)" by fastforce
  note one = SafePublish_owed [OF s]
  show ?case
  proof (cases r)
    case (Inl e)
    have "owed w1 \<subseteq># add_mset (item_callback item) (owed w) + mset (map item_callback items)"
      by (rule subset_mset.order_trans [OF one(1)]) simp
    with one s Inl show ?thesis by (simp add: add.commute)
  next
    case (Inr u)
    have "owed (publish_queued ids items w1) \<subseteq># mset (map item_callback items) + owed w1" using Cons.IH by blast
    also have "\<dots> \<subseteq># mset (map item_callback items) + add_mset (item_callback item) (owed w)"
      using one(1) by (simp add: subset_mset.add_left_mono del: mset_map)
    finally show ?thesis using Cons.IH [of w1] one s Inr by simp
  qed
qed simp

lemma owed_called:
  assumes "map_of (publish_inprogress w) packet_id = Some item"
  shows "owed (call_back (item_callback item) failed (w\<lparr> publish_inprogress := AList.delete packet_id (publish_inprogress w) \<rparr>)) \<subseteq># owed w"
proof -
  let ?p = "mset (map (item_callback \<circ> snd) (AList.delete packet_id (publish_inprogress w)))"
  let ?rest = "mset (map item_callback (publish_queue w)) + mset (sending w) + mset (map fst (callbacks w))"
  have "add_mset (item_callback item) ?p + ?rest \<subseteq># mset (map (item_callback \<circ> snd) (publish_inprogress w)) + ?rest"
    by (rule subset_mset.add_right_mono [OF mset_delete [OF assms]])
  then show ?thesis by (simp add: owed_def call_back_def ac_simps del: mset_map)
qed

lemma step_callbacks:
  assumes "callbacks_ok w"
  shows "callbacks_ok (mqtt_step ids reader ev w)"
proof -
  have keeps: "callbacks_ok w'" if "owed w' \<subseteq># owed w" "next_callback w' = next_callback w" for w'
    using that assms unfolding callbacks_ok_def by (metis subset_mset.order_trans)
  show ?thesis
  proof (cases ev)
    case (Publish_called t m q r)
    let ?item = "\<lparr> item_topic = t, item_message = m, item_qos = q, item_retain = r, item_callback = next_callback w \<rparr>"
    obtain w1 x where s: "SafePublish ids ?item (w\<lparr> next_callback := Suc (next_callback w) \<rparr>) = (w1, x)" by fastforce
    have "owed w1 \<subseteq># add_mset (next_callback w) (owed w)" "next_callback w1 = Suc (next_callback w)"
      using SafePublish_owed [OF s] by (simp_all add: owed_def)
    moreover have "add_mset (next_callback w) (owed w) \<subseteq># mset [0..<Suc (next_callback w)]"
      using assms by (simp add: callbacks_ok_def)
    ultimately have "callbacks_ok w1" unfolding callbacks_ok_def by (metis subset_mset.order_trans)
    then show ?thesis
      by (simp add: Publish_called mqtt_step_def Publish_task_def Let_def s callbacks_ok_def owed_def)
  next
    case (Conn_ack sp code)
    define w1 where "w1 = (let w = w\<lparr> connection := Connected \<rparr>
      in if subscriptions w \<noteq> {||} then call_client (Async_subscribe (sorted_list_of_fset (subscriptions w))) w else w)"
    have w1: "owed w1 = owed w" "next_callback w1 = next_callback w" "publish_queue w1 = publish_queue w"
      by (simp_all add: w1_def Let_def owed_def wrapper_defs)
    then have "mset (map item_callback (publish_queue w1)) + owed (w1\<lparr> publish_queue := [] \<rparr>) = owed w"
      by (simp add: owed_def ac_simps)
    moreover have "ConnAckHandler ids code w = (if code \<noteq> accepted then w else publish_queued ids (publish_queue w1) (w1\<lparr> publish_queue := [] \<rparr>))"
      by (simp add: ConnAckHandler_def w1_def Let_def)
    ultimately show ?thesis
      using keeps publish_queued_owed [of ids "publish_queue w1" "w1\<lparr> publish_queue := [] \<rparr>"] w1(2) assms
      by (simp add: Conn_ack mqtt_step_def del: mset_map)
  next
    case (Sent_once n failed)
    have "owed (call_back n failed (w\<lparr> sending := remove1 n (sending w) \<rparr>)) = owed w" if "n \<in> set (sending w)"
      using that by (simp add: owed_def call_back_def insert_DiffM2)
    then show ?thesis
      using keeps assms by (simp add: Sent_once mqtt_step_def sent_at_most_once_def) (simp add: call_back_def)
  next
    case (Publish_sent packet_id failed)
    then show ?thesis
      using keeps [OF owed_called, of packet_id] assms
      by (auto simp: mqtt_step_def AsyncPublishCallback_def split: option.split) (simp add: call_back_def)
  next
    case (Pub_ack packet_id)
    then show ?thesis
      using keeps [OF owed_called, of packet_id] assms
      by (auto simp: mqtt_step_def PublishAcknowledgedHandler_def split: option.split) (simp add: call_back_def)
  next
    case (Pub_comp packet_id)
    then show ?thesis
      using keeps [OF owed_called, of packet_id] assms
      by (auto simp: mqtt_step_def PublishCompletedHandler_def split: option.split) (simp add: call_back_def)
  qed (use assms in \<open>auto simp: mqtt_step_def Subscribe_def SafeSubscribe_def Let_def callbacks_ok_def owed_def
      ErrorHandler_def FinishHandler_def StartReconnectTimer_def OnReconnectTimer_def PublishHandler_def wrapper_defs\<close>)
qed

lemma run_callbacks: "callbacks_ok w \<Longrightarrow> callbacks_ok (mqtt_run ids reader evs w)"
  by (induction evs arbitrary: w) (simp_all add: step_callbacks)

lemma start_callbacks: "callbacks_ok (mqtt_start state)"
  by (simp add: callbacks_ok_def owed_def mqtt_start_def PostConstructor_def MqttWrapperImpl_def wrapper_defs)

lemma next_callback_step: "next_callback (mqtt_step ids reader ev w) = next_callback w + length (asked [ev])"
proof (cases ev)
  case (Publish_called t m q r)
  let ?item = "\<lparr> item_topic = t, item_message = m, item_qos = q, item_retain = r, item_callback = next_callback w \<rparr>"
  obtain w1 x where s: "SafePublish ids ?item (w\<lparr> next_callback := Suc (next_callback w) \<rparr>) = (w1, x)" by fastforce
  show ?thesis using SafePublish_owed(2) [OF s] s by (simp add: Publish_called mqtt_step_def Publish_task_def Let_def asked_def)
qed (auto simp: mqtt_step_def Subscribe_def SafeSubscribe_def Let_def asked_def ConnAckHandler_def publish_queued_owed
      ErrorHandler_def FinishHandler_def StartReconnectTimer_def OnReconnectTimer_def sent_at_most_once_def
      AsyncPublishCallback_def PublishAcknowledgedHandler_def PublishCompletedHandler_def PublishHandler_def wrapper_defs
      split: option.split)

lemma next_callback_run: "next_callback (mqtt_run ids reader evs w) = next_callback w + length (asked evs)"
proof (induction evs arbitrary: w)
  case (Cons ev evs)
  then show ?case using asked_Cons [of ev evs] by (simp add: next_callback_step)
qed (simp add: asked_def)

section \<open>Subscriptions\<close>

definition topics_requested :: "client_call list \<Rightarrow> subscription set" where
  "topics_requested calls = (\<Union>c \<in> set calls. case c of Async_subscribe topics \<Rightarrow> set topics | _ \<Rightarrow> {})"

lemma topics_requested_simps [simp]:
  "topics_requested [] = {}" "topics_requested (cs @ cs') = topics_requested cs \<union> topics_requested cs'"
  "topics_requested [c] = (case c of Async_subscribe topics \<Rightarrow> set topics | _ \<Rightarrow> {})"
  by (simp_all add: topics_requested_def)

text \<open>Since \<open>n\<close> calls of the client, the connection is up and every subscription was requested.\<close>

definition subscribed_since :: "nat \<Rightarrow> wrapper \<Rightarrow> bool" where
  "subscribed_since n w \<longleftrightarrow> connection w = Connected \<and> n \<le> length (client_calls w)
     \<and> fset (subscriptions w) \<subseteq> topics_requested (drop n (client_calls w))"

definition connection_lost :: "mqtt_event \<Rightarrow> bool" where
  "connection_lost ev \<longleftrightarrow> ev = Connection_error \<or> ev = Connection_finished"

lemma subscribed_append:
  assumes "subscribed_since n w" "connection w' = Connected" "client_calls w' = client_calls w @ cs"
    and "fset (subscriptions w') \<subseteq> fset (subscriptions w) \<union> topics_requested cs"
  shows "subscribed_since n w'"
  using assms by (auto simp: subscribed_since_def)

lemma SafePublish_calls:
  assumes "SafePublish ids item w = (w', r)"
  obtains cs where "client_calls w' = client_calls w @ cs" "connection w' = connection w" "subscriptions w' = subscriptions w"
  using assms by (auto simp: SafePublish_def wrapper_defs split: if_splits sum.splits)

lemma publish_queued_calls:
  "\<exists>cs. client_calls (publish_queued ids items w) = client_calls w @ cs \<and> connection (publish_queued ids items w) = connection w
    \<and> subscriptions (publish_queued ids items w) = subscriptions w"
proof (induction items arbitrary: w)
  case (Cons item items)
  obtain w1 r where s: "SafePublish ids item w = (w1, r)" by fastforce
  obtain cs where one: "client_calls w1 = client_calls w @ cs" "connection w1 = connection w" "subscriptions w1 = subscriptions w"
    by (rule SafePublish_calls [OF s])
  then show ?case using Cons.IH [of w1] s by (auto split: sum.split)
qed simp

lemma ConnAck_subscribes:
  assumes "n \<le> length (client_calls w)"
  shows "subscribed_since n (ConnAckHandler ids accepted w)"
proof -
  define w1 where "w1 = (let w = w\<lparr> connection := Connected \<rparr>
    in if subscriptions w \<noteq> {||} then call_client (Async_subscribe (sorted_list_of_fset (subscriptions w))) w else w)"
  have "subscribed_since n (w1\<lparr> publish_queue := [] \<rparr>)"
    using assms by (auto simp: w1_def Let_def subscribed_since_def wrapper_defs)
  moreover have "ConnAckHandler ids accepted w = publish_queued ids (publish_queue w1) (w1\<lparr> publish_queue := [] \<rparr>)"
    by (simp add: ConnAckHandler_def w1_def Let_def)
  ultimately show ?thesis
    using publish_queued_calls [of ids "publish_queue w1" "w1\<lparr> publish_queue := [] \<rparr>"] subscribed_append
    by (metis subscribed_since_def sup.cobounded1)
qed

lemma step_subscribed:
  assumes "subscribed_since n w" "\<not> connection_lost ev"
  shows "subscribed_since n (mqtt_step ids reader ev w)"
proof (cases ev)
  case (Publish_called t m q r)
  let ?item = "\<lparr> item_topic = t, item_message = m, item_qos = q, item_retain = r, item_callback = next_callback w \<rparr>"
  obtain w1 x where s: "SafePublish ids ?item (w\<lparr> next_callback := Suc (next_callback w) \<rparr>) = (w1, x)" by fastforce
  obtain cs where "client_calls w1 = client_calls w @ cs" "connection w1 = connection w" "subscriptions w1 = subscriptions w"
    by (rule SafePublish_calls [OF s]) simp
  then show ?thesis
    using assms s by (auto simp: Publish_called mqtt_step_def Publish_task_def Let_def subscribed_since_def)
next
  case (Conn_ack sp code)
  then show ?thesis
    using assms ConnAck_subscribes [of n w ids]
    by (cases "code = accepted") (auto simp: mqtt_step_def ConnAckHandler_def subscribed_since_def)
qed (use assms in \<open>auto simp: connection_lost_def mqtt_step_def Subscribe_def SafeSubscribe_def Let_def subscribed_since_def
      OnReconnectTimer_def sent_at_most_once_def AsyncPublishCallback_def PublishAcknowledgedHandler_def
      PublishCompletedHandler_def PublishHandler_def wrapper_defs split: option.split\<close>)

lemma run_subscribed:
  "subscribed_since n w \<Longrightarrow> \<forall>ev \<in> set evs. \<not> connection_lost ev \<Longrightarrow> subscribed_since n (mqtt_run ids reader evs w)"
  by (induction evs arbitrary: w) (simp_all add: step_subscribed)

section \<open>Reconnecting\<close>

lemma step_disconnected:
  "connection w = Disconnected \<Longrightarrow> (\<And>sp. ev \<noteq> Conn_ack sp accepted) \<Longrightarrow> connection (mqtt_step ids reader ev w) = Disconnected"
  by (cases ev) (auto simp: mqtt_step_def Publish_task_def SafePublish_def Subscribe_def SafeSubscribe_def Let_def
      ConnAckHandler_def ErrorHandler_def FinishHandler_def StartReconnectTimer_def OnReconnectTimer_def
      sent_at_most_once_def AsyncPublishCallback_def PublishAcknowledgedHandler_def PublishCompletedHandler_def
      PublishHandler_def wrapper_defs split: option.split)

lemma run_disconnected:
  "connection w = Disconnected \<Longrightarrow> (\<And>sp. Conn_ack sp accepted \<notin> set evs) \<Longrightarrow> connection (mqtt_run ids reader evs w) = Disconnected"
proof (induction evs arbitrary: w)
  case (Cons ev evs)
  have "connection (mqtt_step ids reader ev w) = Disconnected"
    using Cons.prems by (intro step_disconnected) auto
  with Cons show ?case by simp
qed simp

section \<open>Properties\<close>

text \<open>
  The messages handed to the client are exactly the published ones, in the order in which they
  were published, followed by those that still wait for a connection; with a connection none waits.
\<close>

theorem publications_in_order:
  assumes "never_throws ids"
  shows "let w = mqtt_run ids reader evs (mqtt_start state)
    in messages_sent w @ map item_of (publish_queue w) = asked evs \<and> (connection w = Connected \<longrightarrow> messages_sent w = asked evs)"
  using run_order [OF start_facts(1) assms, of reader evs state] start_facts(2) [of state]
  by (auto simp: Let_def messages_taken_def flowing_def)

text \<open>
  C22: whatever the broker acknowledges and the client reports, the callback of a message is called
  at most once, and only for a message that was published.
\<close>

theorem callback_at_most_once:
  "let w = mqtt_run ids reader evs (mqtt_start state)
   in distinct (map fst (callbacks w)) \<and> set (map fst (callbacks w)) \<subseteq> {..<length (asked evs)}"
proof -
  define w where "w = mqtt_run ids reader evs (mqtt_start state)"
  have "next_callback w = length (asked evs)"
    by (simp add: w_def next_callback_run mqtt_start_def PostConstructor_def MqttWrapperImpl_def call_client_def)
  moreover have "mset (map fst (callbacks w)) \<subseteq># owed w" by (simp add: owed_def)
  moreover have "owed w \<subseteq># mset [0..<next_callback w]"
    using run_callbacks [OF start_callbacks] by (simp add: w_def callbacks_ok_def)
  ultimately have sub: "mset (map fst (callbacks w)) \<subseteq># mset [0..<length (asked evs)]"
    by (metis subset_mset.order_trans)
  then have "distinct (map fst (callbacks w))" by (rule distinct_sub_mset) simp
  with mset_subset_eqD [OF sub] show ?thesis by (auto simp: Let_def w_def)
qed

text \<open>
  From an accepted connect on, as long as the connection is not lost, every subscription that was
  made before or after it has been requested from the broker on that connection.
\<close>

theorem subscriptions_restored:
  assumes "\<forall>ev \<in> set evs. \<not> connection_lost ev"
  shows "fset (subscriptions (mqtt_run ids reader (Conn_ack sp accepted # evs) w)) \<subseteq>
    topics_requested (drop (length (client_calls w)) (client_calls (mqtt_run ids reader (Conn_ack sp accepted # evs) w)))"
  using run_subscribed [OF ConnAck_subscribes assms, of "length (client_calls w)" w ids reader ids]
  by (simp add: mqtt_step_def subscribed_since_def)

text \<open>
  C23: after a lost connection the timer runs, and when it expires without a connection the client is
  asked to connect again.
\<close>

theorem reconnects_after_loss:
  assumes "connection_lost ev" "\<forall>sp. Conn_ack sp accepted \<notin> set evs"
  shows "reconnect_timer (mqtt_step ids reader ev w) \<and>
    client_calls (mqtt_run ids reader (ev # evs @ [Reconnect_timer Timer_ok]) w)
      = client_calls (mqtt_run ids reader (ev # evs) w) @ [Client_connect]"
proof -
  have lost: "connection (mqtt_step ids reader ev w) = Disconnected" "reconnect_timer (mqtt_step ids reader ev w)"
    using assms(1) by (auto simp: connection_lost_def mqtt_step_def ErrorHandler_def FinishHandler_def StartReconnectTimer_def)
  have "connection (mqtt_run ids reader evs (mqtt_step ids reader ev w)) = Disconnected"
    using assms(2) by (intro run_disconnected lost) simp
  with lost show ?thesis by (simp add: mqtt_step_def [of _ _ "Reconnect_timer Timer_ok"] OnReconnectTimer_def call_client_def)
qed

text \<open>
  C24: a message that waits for its acknowledgement when the connection is lost is not sent again: after
  the reconnect it still waits, nothing was handed to the client and no callback was called.
\<close>

theorem unacknowledged_not_resent:
  assumes "never_throws ids" "connection (mqtt_run ids reader evs (mqtt_start state)) = Connected"
    and "map_of (publish_inprogress (mqtt_run ids reader evs (mqtt_start state))) packet_id = Some item"
  shows "let w = mqtt_run ids reader evs (mqtt_start state);
      w' = mqtt_run ids reader [Connection_error, Reconnect_timer Timer_ok, Conn_ack sp accepted] w
    in messages_sent w' = messages_sent w \<and> callbacks w' = callbacks w \<and>
       connection w' = Connected \<and> map_of (publish_inprogress w') packet_id = Some item"
proof -
  have "publish_queue (mqtt_run ids reader evs (mqtt_start state)) = []"
    using run_order [OF start_facts(1) assms(1), of reader evs state] assms(2) by (simp add: flowing_def)
  then show ?thesis
    using assms(3)
    by (simp add: Let_def mqtt_step_def ErrorHandler_def StartReconnectTimer_def OnReconnectTimer_def ConnAckHandler_def
        messages_sent_def wrapper_defs)
qed

text \<open>The future of \<open>Publish\<close> has its value although the message is only queued.\<close>

lemma future_before_delivery:
  assumes "connection w \<noteq> Connected"
  shows "publish_futures (mqtt_step ids reader (Publish_called t m q r) w) = publish_futures w @ [(next_callback w, Inr ())]"
    "client_calls (mqtt_step ids reader (Publish_called t m q r) w) = client_calls w"
  using assms by (simp_all add: mqtt_step_def Publish_task_def SafePublish_def Let_def)

section \<open>Examples\<close>

definition example_events :: "mqtt_event list" where
  "example_events = [Subscribe_called {|(''Hub/+/+/out/#'', 1)|}, Publish_called ''Hub/a'' ''1'' 1 False,
     Conn_ack False accepted, Publish_called ''Hub/b'' ''2'' 1 False, Pub_ack 2]"

definition example_ids :: "nat \<Rightarrow> error + 16 word" where
  "example_ids n = Inr (word_of_nat n + 1)"

definition example_reader :: header_reader where
  "example_reader = \<lparr> get_qos = (\<lambda>h. drop_bit 1 h AND 3), is_retain = (\<lambda>h. bit h 0) \<rparr>"

lemma example_ids_ok: "never_throws example_ids"
  by (simp add: never_throws_def example_ids_def)

lemmas example_run = example_events_def mqtt_start_def PostConstructor_def MqttWrapperImpl_def mqtt_step_def
  Subscribe_def SafeSubscribe_def Let_def Publish_task_def SafePublish_def ConnAckHandler_def call_client_def
  example_ids_def PublishAcknowledgedHandler_def call_back_def qos_at_most_once_def qos_at_least_once_def

lemma example_end:
  "connection (mqtt_run example_ids example_reader example_events (mqtt_start Disconnected)) = Connected"
  "publish_inprogress (mqtt_run example_ids example_reader example_events (mqtt_start Disconnected)) =
    [(1, \<lparr> item_topic = ''Hub/a'', item_message = ''1'', item_qos = 1, item_retain = False, item_callback = 0 \<rparr>)]"
  by (simp_all add: example_run)

theorem publications_in_order_witness:
  "messages_sent (mqtt_run example_ids example_reader example_events (mqtt_start Disconnected))
    = [(''Hub/a'', ''1'', 1, False), (''Hub/b'', ''2'', 1, False)]"
  using publications_in_order [OF example_ids_ok, of example_reader example_events Disconnected] example_end(1)
  by (simp add: Let_def asked_def) (simp add: example_events_def)

theorem unacknowledged_not_resent_witness:
  "messages_sent (mqtt_run example_ids example_reader
      [Connection_error, Reconnect_timer Timer_ok, Conn_ack False accepted]
      (mqtt_run example_ids example_reader example_events (mqtt_start Disconnected)))
    = messages_sent (mqtt_run example_ids example_reader example_events (mqtt_start Disconnected))"
  using unacknowledged_not_resent [OF example_ids_ok example_end(1), of 1 _ False] example_end(2)
  by (simp add: Let_def)

theorem subscriptions_restored_witness:
  "(''Hub/+/+/out/#'', 1) \<in> topics_requested (drop 1 (client_calls
      (mqtt_run example_ids example_reader [Conn_ack False accepted, Pub_ack 1]
        (mqtt_step example_ids example_reader (Subscribe_called {|(''Hub/+/+/out/#'', 1)|}) (mqtt_start Disconnected)))))"
proof -
  let ?w = "mqtt_step example_ids example_reader (Subscribe_called {|(''Hub/+/+/out/#'', 1)|}) (mqtt_start Disconnected)"
  have "length (client_calls ?w) = 1"
    by (simp add: example_run)
  moreover have "(''Hub/+/+/out/#'', 1) \<in> fset (subscriptions (mqtt_run example_ids example_reader [Conn_ack False accepted, Pub_ack 1] ?w))"
    by (simp add: example_run)
  ultimately show ?thesis
    using subscriptions_restored [of "[Pub_ack 1]" example_ids example_reader False ?w]
    by (simp add: connection_lost_def subset_iff)
qed

theorem reconnects_after_loss_witness:
  "client_calls (mqtt_run example_ids example_reader [Connection_error, Publish_called ''Hub/a'' ''1'' 1 False, Reconnect_timer Timer_ok]
      (mqtt_start Disconnected)) = [Client_connect, Client_connect]"
  using reconnects_after_loss [of Connection_error "[Publish_called ''Hub/a'' ''1'' 1 False]" example_ids example_reader
      "mqtt_start Disconnected"]
  by (simp add: connection_lost_def example_run ErrorHandler_def StartReconnectTimer_def)

end
