(* ===== verification/HubMqtt.thy ===== *)
theory HubMqtt
  imports HubInvariants MqttDelivery
begin

text \<open>
  The hub and its MQTT connection together: what the hub publishes is passed on to the connection,
  and what the connection emits is handled by the hub. The invariant behind the property is that the
  hub only appends to its publications, a third instance of the locale \<open>hub_invariant\<close>.
\<close>

section \<open>The two parts together\<close>

record system =
  the_hub :: hub
  the_mqtt :: wrapper

datatype system_event = Dongle hub_event | Broker mqtt_event

definition publish_event :: "publication \<Rightarrow> mqtt_event" where
  "publish_event p = Publish_called (topic_name p) (message_text p) (publish_qos p) (publish_retain p)"

text \<open>The calls of \<open>MqttWrapper::Publish\<close> that a handler of the hub has made.\<close>

definition forward :: "(nat \<Rightarrow> error + 16 word) \<Rightarrow> header_reader \<Rightarrow> hub \<Rightarrow> hub \<Rightarrow> wrapper \<Rightarrow> system" where
  "forward ids reader old h w = \<lparr> the_hub = h,
     the_mqtt = mqtt_run ids reader (map publish_event (drop (length (published old)) (published h))) w \<rparr>"

text \<open>The slot of \<open>on_publish_\<close> handles what has been emitted.\<close>

definition system_step :: "(nat \<Rightarrow> error + 16 word) \<Rightarrow> header_reader \<Rightarrow> environment \<Rightarrow> settings \<Rightarrow> system_event
    \<Rightarrow> system \<Rightarrow> system" where
  "system_step ids reader env cfg ev s = (case ev of
       Dongle hev \<Rightarrow> forward ids reader (the_hub s) (hub_step env cfg hev (the_hub s)) (the_mqtt s)
     | Broker mev \<Rightarrow>
         (let w = mqtt_step ids reader mev (the_mqtt s);
              received = drop (length (on_publish (the_mqtt s))) (on_publish w)
          in forward ids reader (the_hub s)
               (hub_run env cfg (map (\<lambda>(topic, message, qos, retain). Mqtt_received topic message) received) (the_hub s)) w))"

definition system_run :: "(nat \<Rightarrow> error + 16 word) \<Rightarrow> header_reader \<Rightarrow> environment \<Rightarrow> settings \<Rightarrow> system_event list
    \<Rightarrow> system \<Rightarrow> system" where
  "system_run ids reader env cfg evs s = foldl (\<lambda>s ev. system_step ids reader env cfg ev s) s evs"

definition system_start :: "api \<Rightarrow> endpoint \<Rightarrow> ConnectionState \<Rightarrow> system" where
  "system_start a ep state = \<lparr> the_hub = hub_ctor a ep, the_mqtt = mqtt_start state \<rparr>"

section \<open>The hub only appends\<close>

definition appends :: "publication list \<Rightarrow> hub \<Rightarrow> bool" where
  "appends ps s \<longleftrightarrow> hub_inv s \<and> (\<exists>qs. published s = ps @ qs)"

interpretation grows: hub_invariant cfg "appends ps" for cfg ps
  by unfold_locales (auto simp: appends_def Publish_def layer.I_run layer.I_api layer.I_waiting layer.I_taken
      intro: layer.I_publish layer.I_endpoint layer.I_hangs)

lemma hub_run_appends:
  assumes "hub_inv h"
  obtains qs where "published (hub_run env cfg evs h) = published h @ qs" "hub_inv (hub_run env cfg evs h)"
  using grows.I_hub_run [of "published h" h env cfg evs] assms by (auto simp: appends_def)

section \<open>Every publication reaches the client\<close>

definition message_of :: "publication \<Rightarrow> message" where
  "message_of p = (topic_name p, message_text p, publish_qos p, publish_retain p)"

definition in_step :: "system \<Rightarrow> bool" where
  "in_step s \<longleftrightarrow> hub_inv (the_hub s) \<and> flowing (the_mqtt s) \<and>
     messages_taken (the_mqtt s) = map message_of (published (the_hub s))"

lemma asked_publish_events: "asked (map publish_event ps) = map message_of ps"
  by (induction ps) (simp_all add: asked_def publish_event_def message_of_def)

lemma forward_in_step:
  assumes "never_throws ids" "hub_inv h" "flowing w" "messages_taken w = map message_of (published old)"
    and "published h = published old @ qs"
  shows "in_step (forward ids reader old h w)"
  using run_order [OF assms(3,1), of reader "map publish_event qs"] assms
  by (simp add: in_step_def forward_def asked_publish_events)

lemma step_in_step:
  assumes "never_throws ids" "in_step s" "\<And>t m q r. ev \<noteq> Broker (Publish_called t m q r)"
  shows "in_step (system_step ids reader env cfg ev s)"
proof -
  have s: "hub_inv (the_hub s)" "flowing (the_mqtt s)" "messages_taken (the_mqtt s) = map message_of (published (the_hub s))"
    using assms(2) by (simp_all add: in_step_def)
  show ?thesis
  proof (cases ev)
    case (Dongle hev)
    obtain qs where "published (hub_run env cfg [hev] (the_hub s)) = published (the_hub s) @ qs" "hub_inv (hub_run env cfg [hev] (the_hub s))"
      by (rule hub_run_appends [OF s(1)])
    with s show ?thesis
      by (simp add: Dongle system_step_def hub_run_def forward_in_step [OF assms(1)])
  next
    case (Broker mev)
    have "asked [mev] = []"
    proof (cases mev)
      case (Publish_called t m q r)
      with assms(3) [of t m q r] Broker show ?thesis by simp
    qed (simp_all add: asked_def)
    with s step_order [OF s(2) assms(1), of reader mev] have w: "flowing (mqtt_step ids reader mev (the_mqtt s))"
      "messages_taken (mqtt_step ids reader mev (the_mqtt s)) = map message_of (published (the_hub s))" by simp_all
    define evs where "evs = map (\<lambda>(topic, message, qos, retain). Mqtt_received topic message)
      (drop (length (on_publish (the_mqtt s))) (on_publish (mqtt_step ids reader mev (the_mqtt s))))"
    obtain qs where "published (hub_run env cfg evs (the_hub s)) = published (the_hub s) @ qs" "hub_inv (hub_run env cfg evs (the_hub s))"
      by (rule hub_run_appends [OF s(1)])
    then have "in_step (forward ids reader (the_hub s) (hub_run env cfg evs (the_hub s)) (mqtt_step ids reader mev (the_mqtt s)))"
      by (intro forward_in_step [OF assms(1) _ w])
    then show ?thesis by (simp add: Broker system_step_def Let_def evs_def)
  qed
qed

lemma start_in_step: "api_run a \<Longrightarrow> in_step (system_start a ep state)"
  using hub_run_inv [of a env cfg "[]" ep] start_facts [of state]
  by (simp add: in_step_def system_start_def hub_run_def) (simp add: hub_ctor_def)

lemma run_in_step:
  assumes "never_throws ids" "in_step s" "\<forall>ev \<in> set evs. \<forall>t m q r. ev \<noteq> Broker (Publish_called t m q r)"
  shows "in_step (system_run ids reader env cfg evs s)"
  using assms(2,3)
proof (induction evs arbitrary: s)
  case (Cons ev evs)
  then have "in_step (system_step ids reader env cfg ev s)" by (intro step_in_step [OF assms(1)]) simp_all
  with Cons show ?case by (simp add: system_run_def)
qed (simp add: system_run_def)

section \<open>Property\<close>

text \<open>
  Whatever happens on the serial line and on the connection to the broker, the messages handed to
  the MQTT client are the publications of the hub in their order, up to those that wait for the
  connection, and with a connection they are all of them.
\<close>

theorem hub_publications_sent:
  assumes "never_throws ids" "api_run a" "\<forall>ev \<in> set evs. \<forall>t m q r. ev \<noteq> Broker (Publish_called t m q r)"
  shows "let s = system_run ids reader env cfg evs (system_start a ep state)
    in messages_sent (the_mqtt s) @ map item_of (publish_queue (the_mqtt s)) = map message_of (published (the_hub s)) \<and>
      (connection (the_mqtt s) = Connected \<longrightarrow> messages_sent (the_mqtt s) = map message_of (published (the_hub s)))"
  using run_in_step [OF assms(1) start_in_step [OF assms(2)] assms(3), of reader env cfg ep state]
  by (auto simp: Let_def in_step_def messages_taken_def flowing_def)

text \<open>A report of the dongle is published while the connection is down, and sent after the connect.\<close>

theorem hub_publications_sent_witness:
  "messages_sent (the_mqtt (system_run example_ids example_reader example_env (example_settings ClusterDb_ctor)
      [Dongle (Frame_received ZnpCommandType_AREQ (ZdoCmd ZdoCommand_PERMIT_JOIN_IND) [60]), Broker (Conn_ack False accepted)]
      (system_start started (ZclEndpoint_ctor 1) Disconnected)))
    = [(''Hub/report/permitjoin'', ''60'', at_least_once, False)]"
proof -
  let ?frame = "Frame_received ZnpCommandType_AREQ (ZdoCmd ZdoCommand_PERMIT_JOIN_IND) [60]"
  let ?s = "system_run example_ids example_reader example_env (example_settings ClusterDb_ctor)
      [Dongle ?frame, Broker (Conn_ack False accepted)] (system_start started (ZclEndpoint_ctor 1) Disconnected)"
  have frame: "OnFrame ZnpCommandType_AREQ (ZdoCmd ZdoCommand_PERMIT_JOIN_IND) [60] started = started\<lparr> emitted := [Permit_join 60] \<rparr>"
    by (simp add: OnFrame_def OnFrame_loop.simps ctor_simps command_defs decode_event_def event_dec_def struct_dec_def
        codec_simps emit_def Let_def)
  have dec: "show_dec 60 = ''60''" by code_simp
  let ?p = "\<lparr> topic_name = ''Hub/report/permitjoin'', message_text = ''60'', publish_qos = at_least_once, publish_retain = False \<rparr>"
  have hub: "published (hub_step example_env (example_settings ClusterDb_ctor) ?frame (hub_ctor started (ZclEndpoint_ctor 1))) = [?p]"
    using frame dec
    by (simp add: hub_step_def hub_ctor_def after_api_def on_event_def OnPermitJoin_def OnPermitJoinHelper_def
        example_settings_def Publish_def ctor_simps MakePrefixEndWithSlash_def)
  have "published (the_hub ?s) = [?p] \<and> connection (the_mqtt ?s) = Connected"
    using hub
    by (simp add: system_run_def system_step_def system_start_def forward_def publish_event_def Let_def hub_run_def)
      (simp add: hub_ctor_def example_run publish_event_def at_least_once_def)
  then show ?thesis
    using hub_publications_sent [OF example_ids_ok started_run, of "[Dongle ?frame, Broker (Conn_ack False accepted)]"
        example_reader example_env "example_settings ClusterDb_ctor" "ZclEndpoint_ctor 1" Disconnected]
    by (simp add: Let_def message_of_def)
qed

end
