(* ===== verification/Variants.thy ===== *)
theory Variants
  imports ZclTypes Floats Text
begin

text \<open>
  Values of the ZCL data types and their printers: \<open>ZclVariant\<close> with its storage (\<^verbatim>\<open>src/zcl/zcl.h\<close>), the encoder of every
  data type (\<^verbatim>\<open>src/zcl/encoding.cpp\<close>) with the table it is looked up in
  (\<^verbatim>\<open>src/template_lookup.h\<close>), and the printer (\<^verbatim>\<open>src/zcl/zcl.cpp\<close>).

  A C++ value of the type \<open>DataTypeHelper<DT>::Type\<close> is represented by what \<open>ToStorage\<close> makes of it;
  \<open>from_storage\<close> is \<open>FromStorage\<close> followed by \<open>ToStorage\<close>. A \<open>std::string\<close> is a list of bytes here.
  The encoder of a data type is a record \<open>codec\<close>, as for the other \<open>EncodeHelper\<close>s. A structure
  contains variants: \<open>variant_codec\<close> ties the knot with fuel, one unit per level of nesting.
\<close>

section \<open>Variants\<close>

text \<open>The member \<open>data_\<close> and its alternatives, in their order.\<close>

datatype zcl_variant = ZclVariant (variant_type: DataType) (variant_data: "storage option")
  and storage =
    Stored_unsigned "64 word"
  | Stored_signed "64 word"
  | Stored_double fp
  | Stored_string "byte list"
  | Stored_variants "zcl_variant list"

text \<open>The C++ types, an integer with its width in bits.\<close>

datatype value_type =
    Void_type
  | Byte_array_type nat
  | Bool_type
  | Bitset_type nat
  | Unsigned_type nat
  | Signed_type nat
  | Float_type
  | Double_type
  | String_type
  | Struct_type

definition DataTypeHelper :: "DataType \<Rightarrow> value_type" where
  "DataTypeHelper DT = (case map_of
     [(DataType_data8, Byte_array_type 1), (DataType_data16, Byte_array_type 2),
      (DataType_data24, Byte_array_type 3), (DataType_data32, Byte_array_type 4),
      (DataType_data40, Byte_array_type 5), (DataType_data48, Byte_array_type 6),
      (DataType_data56, Byte_array_type 7), (DataType_data64, Byte_array_type 8),
      (DataType_bool, Bool_type),
      (DataType_map8, Bitset_type 8), (DataType_map16, Bitset_type 16),
      (DataType_map24, Bitset_type 24), (DataType_map32, Bitset_type 32),
      (DataType_map40, Bitset_type 40), (DataType_map48, Bitset_type 48),
      (DataType_map56, Bitset_type 56), (DataType_map64, Bitset_type 64),
      (DataType_uint8, Unsigned_type 8), (DataType_uint16, Unsigned_type 16),
      (DataType_uint24, Unsigned_type 32), (DataType_uint32, Unsigned_type 32),
      (DataType_uint40, Unsigned_type 64), (DataType_uint48, Unsigned_type 64),
      (DataType_uint56, Unsigned_type 64), (DataType_uint64, Unsigned_type 64),
      (DataType_int8, Signed_type 8), (DataType_int16, Signed_type 16),
      (DataType_int24, Signed_type 32), (DataType_int32, Signed_type 32),
      (DataType_int40, Signed_type 64), (DataType_int48, Signed_type 64),
      (DataType_int56, Signed_type 64), (DataType_int64, Signed_type 64),
      (DataType_semi, Float_type), (DataType_single, Double_type), (DataType_double, Double_type),
      (DataType_octstr, String_type), (DataType_string, String_type),
      (DataType_octstr16, String_type), (DataType_string16, String_type),
      (DataType_struct, Struct_type)] DT of None \<Rightarrow> Void_type | Some t \<Rightarrow> t)"

definition from_storage :: "value_type \<Rightarrow> storage \<Rightarrow> storage option" where
  "from_storage t s = (case (t, s) of
       (Byte_array_type n, Stored_string bs) \<Rightarrow>
         Some (Stored_string (if length bs \<ge> n then take n bs else bs @ replicate (n - length bs) 0))
     | (Bool_type, Stored_unsigned w) \<Rightarrow> Some (Stored_unsigned (if w > 0 then 1 else 0))
     | (Bitset_type n, Stored_unsigned w) \<Rightarrow> Some (Stored_unsigned (take_bit n w))
     | (Unsigned_type n, Stored_unsigned w) \<Rightarrow> Some (Stored_unsigned (take_bit n w))
     | (Signed_type n, Stored_signed w) \<Rightarrow> Some (Stored_signed (signed_take_bit (n - 1) w))
     | (Float_type, Stored_double x) \<Rightarrow> Some (Stored_double x)
     | (Double_type, Stored_double x) \<Rightarrow> Some (Stored_double x)
     | (String_type, Stored_string bs) \<Rightarrow> Some (Stored_string bs)
     | (Struct_type, Stored_variants vs) \<Rightarrow> Some (Stored_variants vs)
     | _ \<Rightarrow> None)"

text \<open>\<open>ZclVariant()\<close>, \<open>Create<T>(value)\<close> and \<open>Create<T>()\<close>.\<close>

definition ZclVariant_ctor :: zcl_variant where
  "ZclVariant_ctor = ZclVariant DataType_nodata None"

definition Create_value :: "DataType \<Rightarrow> storage \<Rightarrow> zcl_variant" where
  "Create_value DT value = ZclVariant DT (Some value)"

definition Create_invalid :: "DataType \<Rightarrow> zcl_variant" where
  "Create_invalid DT = ZclVariant DT None"

definition Get :: "DataType \<Rightarrow> zcl_variant \<Rightarrow> storage option" where
  "Get DT v = (case variant_data v of
       None \<Rightarrow> None
     | Some s \<Rightarrow> if variant_type v \<noteq> DT then None else from_storage (DataTypeHelper DT) s)"

section \<open>The encoders\<close>

definition not_implemented :: "zcl_variant codec" where
  "not_implemented = \<lparr>
     GetSize = (\<lambda>v. Inl (Runtime_error ''Encoding/decoding for datatype %s not yet implemented'')),
     enc = (\<lambda>v sp. Inl (Runtime_error ''Encoding/decoding for datatype %s not yet implemented'')),
     dec = (\<lambda>bs. Inl (Runtime_error ''Encoding/decoding for datatype %s not yet implemented'')) \<rparr>"

definition nodata_helper :: "zcl_variant codec" where
  "nodata_helper = \<lparr>
     GetSize = (\<lambda>v. Inr 0),
     enc = (\<lambda>v sp. Inr ([], sp)),
     dec = (\<lambda>bs. Inr (Create_invalid DataType_nodata, bs)) \<rparr>"

definition bool_helper :: "zcl_variant codec" where
  "bool_helper = \<lparr>
     GetSize = (\<lambda>v. case Get DataType_bool v of
         Some (Stored_unsigned w) \<Rightarrow> GetSize bool_codec (w > 0)
       | _ \<Rightarrow> GetSize unsigned_codec (0xFF :: 8 word)),
     enc = (\<lambda>v sp. case Get DataType_bool v of
         Some (Stored_unsigned w) \<Rightarrow> enc bool_codec (w > 0) sp
       | _ \<Rightarrow> enc unsigned_codec (0xFF :: 8 word) sp),
     dec = (\<lambda>bs. res_bind (dec unsigned_codec bs) (\<lambda>(w :: 8 word, rest).
         if w = 0xFF then Inr (Create_invalid DataType_bool, rest)
         else if w \<le> 1 then Inr (Create_value DataType_bool (Stored_unsigned (if w > 0 then 1 else 0)), rest)
         else Inl (Runtime_error ''Unsupported boolean value''))) \<rparr>"

text \<open>Data types that are encoded as their C++ type: byte arrays and bit sets of \<open>n\<close> bits.\<close>

definition invalid_not_supported :: error where
  "invalid_not_supported = Runtime_error ''Invalid not supported for this datatype''"

definition byte_array_helper :: "DataType \<Rightarrow> nat \<Rightarrow> zcl_variant codec" where
  "byte_array_helper DT n = \<lparr>
     GetSize = (\<lambda>v. case Get DT v of
         Some (Stored_string bs) \<Rightarrow> GetSize (array_codec n unsigned_codec) bs
       | _ \<Rightarrow> Inl invalid_not_supported),
     enc = (\<lambda>v sp. case Get DT v of
         Some (Stored_string bs) \<Rightarrow> enc (array_codec n unsigned_codec) bs sp
       | _ \<Rightarrow> Inl invalid_not_supported),
     dec = (\<lambda>bs. res_bind (dec (array_codec n unsigned_codec) bs) (\<lambda>(xs, rest).
         Inr (Create_value DT (Stored_string xs), rest))) \<rparr>"

definition bitset_helper :: "DataType \<Rightarrow> nat \<Rightarrow> zcl_variant codec" where
  "bitset_helper DT n = \<lparr>
     GetSize = (\<lambda>v. case Get DT v of
         Some (Stored_unsigned w) \<Rightarrow> Inr (n div 8)
       | _ \<Rightarrow> Inl invalid_not_supported),
     enc = (\<lambda>v sp. case Get DT v of
         Some (Stored_unsigned w) \<Rightarrow> bitset_encode_loop (n div 8) w sp
       | _ \<Rightarrow> Inl invalid_not_supported),
     dec = (\<lambda>bs. res_bind (bitset_decode_loop (byte_shifts (n div 8)) 0 bs) (\<lambda>(w, rest).
         Inr (Create_value DT (Stored_unsigned (take_bit n w)), rest))) \<rparr>"

text \<open>
  Lists with a length of \<open>LT\<close> bytes: the length is cast to that type, and all ones stand for an
  invalid value. \<open>DT\<close> is the type the helper gets and creates.
\<close>

definition length_enc :: "nat \<Rightarrow> nat \<Rightarrow> nat \<Rightarrow> error + (byte list \<times> nat)" where
  "length_enc LT n sp = EncodeUnsigned_loop (word_of_nat n :: 64 word) (byte_shifts LT) sp"

definition length_dec :: "nat \<Rightarrow> byte list \<Rightarrow> error + (nat \<times> byte list)" where
  "length_dec LT bs = res_bind (DecodeUnsigned_loop (byte_shifts LT) (0 :: 64 word) bs) (\<lambda>(w, rest). Inr (unat w, rest))"

definition vector_helper :: "DataType \<Rightarrow> nat \<Rightarrow> (storage \<Rightarrow> 'a list option) \<Rightarrow> ('a list \<Rightarrow> storage) \<Rightarrow> 'a codec
    \<Rightarrow> zcl_variant codec" where
  "vector_helper DT LT elements build c = \<lparr>
     GetSize = (\<lambda>v. case Option.bind (Get DT v) elements of
         None \<Rightarrow> Inr LT
       | Some xs \<Rightarrow> sum_sizes (GetSize c) LT xs),
     enc = (\<lambda>v sp. case Option.bind (Get DT v) elements of
         None \<Rightarrow> length_enc LT (2 ^ (8 * LT) - 1) sp
       | Some xs \<Rightarrow> res_bind (length_enc LT (length xs) sp) (\<lambda>(bs, left).
           res_bind (encode_each (enc c) xs left) (\<lambda>(cs, left'). Inr (bs @ cs, left')))),
     dec = (\<lambda>bs. res_bind (length_dec LT bs) (\<lambda>(n, rest).
         if n = 2 ^ (8 * LT) - 1 then Inr (Create_invalid DT, rest)
         else res_bind (decode_each (dec c) n rest) (\<lambda>(xs, rest'). Inr (Create_value DT (build xs), rest')))) \<rparr>"

definition string_helper :: "DataType \<Rightarrow> nat \<Rightarrow> zcl_variant codec" where
  "string_helper DT LT = vector_helper DT LT
     (\<lambda>s. case s of Stored_string bs \<Rightarrow> Some bs | _ \<Rightarrow> None) Stored_string signed_codec"

definition struct_helper :: "zcl_variant codec \<Rightarrow> zcl_variant codec" where
  "struct_helper element = vector_helper DataType_struct 2
     (\<lambda>s. case s of Stored_variants vs \<Rightarrow> Some vs | _ \<Rightarrow> None) Stored_variants element"

text \<open>Integers of \<open>N\<close> bits in a C++ type of \<open>width\<close> bits; the extreme value of that type is the invalid one.\<close>

fun zcl_int_enc :: "64 word \<Rightarrow> nat list \<Rightarrow> nat \<Rightarrow> error + (byte list \<times> nat)" where
  "zcl_int_enc unsigned_value [] sp = Inr ([], sp)"
| "zcl_int_enc unsigned_value (shift # shifts) sp =
     (if sp = 0 then Inl (Runtime_error ''Not enough space to encode ZCL integer'')
      else res_bind (zcl_int_enc unsigned_value shifts (sp - 1)) (\<lambda>(bs, left).
        Inr (ucast (drop_bit shift unsigned_value AND 0xFF) # bs, left)))"

fun zcl_int_dec :: "nat list \<Rightarrow> 64 word \<Rightarrow> byte list \<Rightarrow> error + (64 word \<times> byte list)" where
  "zcl_int_dec [] unsigned_value bs = Inr (unsigned_value, bs)"
| "zcl_int_dec (shift # shifts) unsigned_value [] = Inl (Runtime_error ''Not enough space to decode ZCL integer'')"
| "zcl_int_dec (shift # shifts) unsigned_value (b # bs) =
     zcl_int_dec shifts (unsigned_value OR push_bit shift (ucast b)) bs"

definition stored_word :: "storage \<Rightarrow> 64 word" where
  "stored_word s = (case s of Stored_unsigned w \<Rightarrow> w | Stored_signed w \<Rightarrow> w | _ \<Rightarrow> 0)"

text \<open>\<open>numeric_limits<ValueType>::max()\<close> or \<open>min()\<close>, and the cast to \<open>ValueType\<close>.\<close>

definition invalid_word :: "bool \<Rightarrow> nat \<Rightarrow> 64 word" where
  "invalid_word is_signed width = (if is_signed then signed_take_bit (width - 1) (push_bit (width - 1) 1) else mask width)"

definition int_helper :: "DataType \<Rightarrow> bool \<Rightarrow> nat \<Rightarrow> nat \<Rightarrow> zcl_variant codec" where
  "int_helper DT is_signed width N = \<lparr>
     GetSize = (\<lambda>v. Inr (N div 8)),
     enc = (\<lambda>v sp.
       let value = (case Get DT v of Some s \<Rightarrow> stored_word s | None \<Rightarrow> invalid_word is_signed width);
           unsigned_value = take_bit width value
       in zcl_int_enc unsigned_value (byte_shifts (N div 8)) sp),
     dec = (\<lambda>bs. res_bind (zcl_int_dec (byte_shifts (N div 8)) 0 bs) (\<lambda>(unsigned_value, rest).
       let value = (if is_signed then signed_take_bit (width - 1) unsigned_value else take_bit width unsigned_value)
       in Inr (if value = invalid_word is_signed width then Create_invalid DT
               else Create_value DT (if is_signed then Stored_signed value else Stored_unsigned value), rest))) \<rparr>"

definition float_helper :: "DataType \<Rightarrow> fp codec \<Rightarrow> zcl_variant codec" where
  "float_helper DT contained_encoder = \<lparr>
     GetSize = (\<lambda>v. case Get DT v of
         Some (Stored_double x) \<Rightarrow> GetSize contained_encoder x
       | _ \<Rightarrow> Inl (Runtime_error ''Variant did not contain expected value'')),
     enc = (\<lambda>v sp. case Get DT v of
         Some (Stored_double x) \<Rightarrow> enc contained_encoder x sp
       | _ \<Rightarrow> Inl (Runtime_error ''Variant did not contain expected value'')),
     dec = (\<lambda>bs. res_bind (dec contained_encoder bs) (\<lambda>(x, rest). Inr (Create_value DT (Stored_double x), rest))) \<rparr>"

text \<open>
  \<open>VariantEncodeHelperImpl\<close>: every integer type has the number of bits of its name. The helper of
  \<open>string16\<close> is the one of \<open>string\<close> with a longer length.
\<close>

definition integer_bits :: "DataType \<Rightarrow> nat" where
  "integer_bits DT = 8 * (1 + unat ((DT - DataType_uint8) AND 7))"

definition VariantEncodeHelperImpl :: "(rat \<Rightarrow> int) \<Rightarrow> zcl_variant codec \<Rightarrow> DataType \<Rightarrow> zcl_variant codec" where
  "VariantEncodeHelperImpl floor_log2 element DT =
     (if DT = DataType_nodata then nodata_helper
      else if DT = DataType_bool then bool_helper
      else if DT = DataType_octstr then string_helper DataType_octstr 1
      else if DT = DataType_string then string_helper DataType_string 1
      else if DT = DataType_octstr16 then string_helper DataType_octstr16 2
      else if DT = DataType_string16 then string_helper DataType_string 2
      else if DT = DataType_struct then struct_helper element
      else if DT = DataType_semi then float_helper DataType_semi (float_codec floor_log2 10 5 TYPE(16))
      else if DT = DataType_single then float_helper DataType_single (float_codec floor_log2 23 8 TYPE(32))
      else if DT = DataType_double then float_helper DataType_double (float_codec floor_log2 52 11 TYPE(64))
      else case DataTypeHelper DT of
          Byte_array_type n \<Rightarrow> byte_array_helper DT n
        | Bitset_type n \<Rightarrow> bitset_helper DT n
        | Unsigned_type width \<Rightarrow> int_helper DT False width (integer_bits DT)
        | Signed_type width \<Rightarrow> int_helper DT True width (integer_bits DT)
        | _ \<Rightarrow> not_implemented)"

section \<open>The lookup table\<close>

text \<open>\<open>CreateEnumLookup\<close> instantiates the implementation at every value from \<open>EMIN\<close> to \<open>EMAX\<close>.\<close>

definition CreateEnumLookup :: "nat \<Rightarrow> nat \<Rightarrow> (DataType \<Rightarrow> 'b) \<Rightarrow> (DataType \<times> 'b) list" where
  "CreateEnumLookup EMIN EMAX Impl = map (\<lambda>n. (word_of_nat n, Impl (word_of_nat n))) [EMIN..<Suc EMAX]"

definition EncoderMap :: "(rat \<Rightarrow> int) \<Rightarrow> zcl_variant codec \<Rightarrow> (DataType \<times> zcl_variant codec) list" where
  "EncoderMap floor_log2 element =
     CreateEnumLookup (unat DataType_nodata) (unat DataType_unk) (VariantEncodeHelperImpl floor_log2 element)"

primrec variant_codec :: "nat \<Rightarrow> (rat \<Rightarrow> int) \<Rightarrow> zcl_variant codec" where
  "variant_codec 0 floor_log2 = \<lparr> GetSize = (\<lambda>v. Inl Out_of_fuel), enc = (\<lambda>v sp. Inl Out_of_fuel), dec = (\<lambda>bs. Inl Out_of_fuel) \<rparr>"
| "variant_codec (Suc fuel) floor_log2 = (let table = EncoderMap floor_log2 (variant_codec fuel floor_log2) in \<lparr>
     GetSize = (\<lambda>v. case map_of table (variant_type v) of
         None \<Rightarrow> Inl (Runtime_error ''Invalid datatype!'')
       | Some found \<Rightarrow> res_bind (GetSize enum_codec (variant_type v)) (\<lambda>m.
           res_bind (GetSize found v) (\<lambda>n. Inr (m + n)))),
     enc = (\<lambda>v sp. case map_of table (variant_type v) of
         None \<Rightarrow> Inl (Runtime_error ''Invalid datatype!'')
       | Some found \<Rightarrow> res_bind (enc enum_codec (variant_type v) sp) (\<lambda>(bs, left).
           res_bind (enc found v left) (\<lambda>(cs, left'). Inr (bs @ cs, left')))),
     dec = (\<lambda>bs. res_bind (dec enum_codec bs) (\<lambda>(datatype, rest).
         case map_of table datatype of
           None \<Rightarrow> Inl (Runtime_error ''Invalid datatype!'')
         | Some found \<Rightarrow> dec found rest)) \<rparr>)"

section \<open>Printing\<close>

text \<open>
  \<open>boost::log::dump\<close> and the formatting of a floating-point number are parameters. The stream keeps
  its base: a type that is printed in hexadecimal leaves it so, and the size of a later structure is
  printed in the base the stream has then. An absent value is dereferenced, except for \<open>bool\<close>.
\<close>

record printer =
  dump :: "byte list \<Rightarrow> string"
  show_floating :: "fp \<Rightarrow> string"

definition show_bits :: "nat \<Rightarrow> 64 word \<Rightarrow> string" where
  "show_bits n w = map (\<lambda>i. if bit w i then CHR ''1'' else CHR ''0'') (rev [0..<n])"

definition show_in_base :: "bool \<Rightarrow> nat \<Rightarrow> string" where
  "show_in_base hex n = (if hex then show_hex n else show_dec n)"

definition dereferenced :: "storage option \<Rightarrow> (storage \<Rightarrow> error + 'a) \<Rightarrow> error + 'a" where
  "dereferenced value k = (case value of None \<Rightarrow> Inl Undefined_behaviour | Some s \<Rightarrow> k s)"

definition is_printed_integer :: "DataType \<Rightarrow> bool" where
  "is_printed_integer DT \<longleftrightarrow> DataType_uint8 \<le> DT \<and> DT \<le> DataType_int64"

definition show_ZclFrameType :: "ZclFrameType \<Rightarrow> string" where
  "show_ZclFrameType t = enum_to_string ZclFrameType_table t"

definition show_ZclDirection :: "ZclDirection \<Rightarrow> string" where
  "show_ZclDirection d = enum_to_string ZclDirection_table d"

definition show_ZclFrame :: "bool \<Rightarrow> ZclFrame \<Rightarrow> string" where
  "show_ZclFrame hex header = ''{frame_type: '' @ show_ZclFrameType (frame_type header)
     @ '', manufacturer_code: '' @ (case manufacturer_code header of Some code \<Rightarrow> show_in_base hex (unat code) | None \<Rightarrow> ''none'')
     @ '', direction: '' @ show_ZclDirection (frame_direction header)
     @ '', disable_default_response: '' @ (if disable_default_response header then ''true'' else ''false'')
     @ '', reserved: '' @ show_in_base hex (unat (frame_reserved header))
     @ '', transaction_sequence_number: '' @ show_in_base hex (unat (transaction_sequence_number header))
     @ '', command_identifier: '' @ show_in_base hex (unat (command_identifier header)) @ ''}''"

definition show_ZclClusterId :: "ZclClusterId \<Rightarrow> string" where
  "show_ZclClusterId cluster_id = ''0x'' @ show_HEX_padded 4 (unat cluster_id)"

fun show_variant :: "printer \<Rightarrow> bool \<Rightarrow> zcl_variant \<Rightarrow> error + (string \<times> bool)"
  and show_variants :: "printer \<Rightarrow> bool \<Rightarrow> zcl_variant list \<Rightarrow> error + (string \<times> bool)" where
  "show_variant p hex (ZclVariant t d) =
     (let v = ZclVariant t d in
      if t = DataType_bool then
        (case Get DataType_bool v of
           None \<Rightarrow> Inr (''(invalid bool)'', hex)
         | Some s \<Rightarrow> Inr (if stored_word s > 0 then ''true'' else ''false'', hex))
      else if t = DataType_map8 then
        dereferenced (Get t v) (\<lambda>s. Inr (''(map8) '' @ show_bits 8 (stored_word s), hex))
      else if is_printed_integer t then
        dereferenced (Get t v) (\<lambda>s. Inr (''('' @ enum_to_string DataType_table t @ '') ''
          @ (case s of Stored_signed w \<Rightarrow> show_int (sint w) | _ \<Rightarrow> show_dec (unat (stored_word s))), False))
      else if t = DataType_string then
        dereferenced (Get t v) (\<lambda>s. Inr (''(string) '' @ dump p (case s of Stored_string bs \<Rightarrow> bs | _ \<Rightarrow> []), hex))
      else if t = DataType_struct then
        (case d of
           Some (Stored_variants items) \<Rightarrow>
             res_bind (show_variants p hex items) (\<lambda>(text, hex').
               Inr (''(struct '' @ show_in_base hex (length items) @ '') ['' @ text @ '']'', hex'))
         | _ \<Rightarrow> Inl Undefined_behaviour)
      else if t = DataType_semi then
        dereferenced (Get t v) (\<lambda>s. Inr (''(semi '' @ show_floating p (case s of Stored_double x \<Rightarrow> x | _ \<Rightarrow> NaN) @ '')'', hex))
      else if t = DataType_single then
        dereferenced (Get t v) (\<lambda>s. Inr (''(single '' @ show_floating p (case s of Stored_double x \<Rightarrow> x | _ \<Rightarrow> NaN) @ '')'', hex))
      else if t = DataType_double then
        dereferenced (Get t v) (\<lambda>s. Inr (''(double '' @ show_floating p (case s of Stored_double x \<Rightarrow> x | _ \<Rightarrow> NaN) @ '')'', hex))
      else Inr (''(type '' @ show_hex (unat t) @ '')'', True))"
| "show_variants p hex [] = Inr ([], hex)"
| "show_variants p hex (item # items) =
     res_bind (show_variant p hex item) (\<lambda>(text, hex).
       res_bind (show_variants p hex items) (\<lambda>(texts, hex').
         Inr (text @ (if items = [] then [] else '', '' @ texts), hex')))"

end
