(* ===== verification/VariantCodec.thy ===== *)
theory VariantCodec
  imports Variants
begin

text \<open>
  The contract of the variant encoders: each helper satisfies \<open>codec_laws\<close> on the variants of its
  type that it supports, and so does the encoder of a variant, by induction on the nesting of
  structures. The properties below the contract are what it leaves out: invalid values and negative
  numbers of the integers that are narrower than their C++ type, and the type \<open>string16\<close>.
\<close>

section \<open>Byte-level facts\<close>

lemma length_enc_eq: "length_enc LT n sp =
    (if LT \<le> sp then Inr (le_bytes LT (word_of_nat n :: 64 word), sp - LT)
     else Inl (Runtime_error ''Not enough space to encode integer''))"
  using EncodeUnsigned_loop_eq [of "word_of_nat n :: 64 word" 0 LT sp] by (simp add: length_enc_def byte_shifts_def)

lemma length_dec_eq:
  "LT \<le> 8 \<Longrightarrow> length_dec LT bs = (if LT \<le> length bs then Inr (unat (of_le_bytes (take LT bs) :: 64 word), drop LT bs)
     else Inl (Runtime_error ''Not enough data to decode integer''))"
  by (simp add: length_dec_def DecodeUnsigned_loop_eq)

lemma length_read:
  assumes "LT < 8" "n < 2 ^ (8 * LT)"
  shows "length_dec LT (le_bytes LT (word_of_nat n :: 64 word) @ rest) = Inr (n, rest)"
proof -
  have "(2 :: nat) ^ (8 * LT) < 2 ^ 64" using assms(1) by (intro power_strict_increasing) simp_all
  then have "n < 2 ^ 64" using assms(2) by simp
  then have "unat (take_bit (8 * LT) (word_of_nat n :: 64 word)) = n"
    using assms(2) by (simp add: unsigned_take_bit_eq unat_of_nat take_bit_nat_eq_self)
  with assms(1) show ?thesis by (simp add: length_dec_eq of_le_bytes_le_bytes)
qed

lemma zcl_int_enc_eq:
  "zcl_int_enc v (map (\<lambda>i. 8 * i) [i..<n]) sp =
     (if n - i \<le> sp then Inr (le_bytes (n - i) (drop_bit (8 * i) v), sp - (n - i))
      else Inl (Runtime_error ''Not enough space to encode ZCL integer''))"
proof (induction "n - i" arbitrary: i sp)
  case (Suc m)
  then have i: "i < n" and m: "n - Suc i = m" and n: "n - i = Suc m" by auto
  show ?case
  proof (cases sp)
    case (Suc k)
    with Suc.hyps(1) [of "Suc i" k] m show ?thesis
      by (simp add: n upt_shift_Cons [OF i] ucast_and_FF drop_bit_drop_bit)
  qed (simp add: n upt_shift_Cons [OF i])
qed simp

lemma zcl_int_dec_iff: "zcl_int_dec is v bs = Inr r \<longleftrightarrow> DecodeUnsigned_loop is v bs = Inr r"
  by (induction "is" v bs rule: zcl_int_dec.induct) auto

lemma zcl_int_dec_eq:
  "n \<le> 8 \<Longrightarrow> zcl_int_dec (byte_shifts n) 0 bs = Inr r \<longleftrightarrow> n \<le> length bs \<and> r = (of_le_bytes (take n bs), drop n bs)"
  by (auto simp: zcl_int_dec_iff DecodeUnsigned_loop_eq split: if_splits)

lemma bitset_dec_eq:
  "n \<le> 8 \<Longrightarrow> bitset_decode_loop (byte_shifts n) 0 bs = Inr r \<longleftrightarrow> n \<le> length bs \<and> r = (of_le_bytes (take n bs), drop n bs)"
  by (auto simp: bitset_decode_loop_eq DecodeUnsigned_loop_eq split: if_splits)

text \<open>A decoder that reads \<open>n\<close> bytes leaves the rest alone.\<close>

lemma fixed_size_consumes:
  assumes "\<And>bs v rest. d bs = Inr (v, rest) \<longleftrightarrow> n \<le> length bs \<and> f (take n bs) = Inr v \<and> rest = drop n bs"
    and "d bs = Inr (v, rest)"
  shows "\<exists>used. bs = used @ rest \<and> (\<forall>r. d (used @ r) = Inr (v, r))"
  using assms by (intro exI [of _ "take n bs"]) auto

section \<open>Values without structure\<close>

lemma nodata_laws: "codec_laws nodata_helper (\<lambda>v. v = Create_invalid DataType_nodata) (\<lambda>v. [])"
  by (rule codec_lawsI) (auto simp: nodata_helper_def)

definition bool_value_ok :: "zcl_variant \<Rightarrow> bool" where
  "bool_value_ok v \<longleftrightarrow> v \<in> {ZclVariant DataType_bool None, ZclVariant DataType_bool (Some (Stored_unsigned 0)),
     ZclVariant DataType_bool (Some (Stored_unsigned 1))}"

definition bool_value_img :: "zcl_variant \<Rightarrow> byte list" where
  "bool_value_img v = [case variant_data v of Some s \<Rightarrow> if stored_word s > 0 then 1 else 0 | None \<Rightarrow> 0xFF]"

lemma DataTypeHelper_bool [simp]: "DataTypeHelper DataType_bool = Bool_type"
  by (simp add: DataTypeHelper_def)

lemma bool_helper_laws: "codec_laws bool_helper bool_value_ok bool_value_img"
proof (rule codec_lawsI)
  fix bs v rest
  assume d: "dec bool_helper bs = Inr (v, rest)"
  show "\<exists>used. bs = used @ rest \<and> (\<forall>r. dec bool_helper (used @ r) = Inr (v, r))"
  proof (cases bs)
    case (Cons b bs')
    with d show ?thesis
      by (intro exI [of _ "[b]"]) (auto simp: bool_helper_def codec_simps split: if_splits)
  qed (use d in \<open>simp add: bool_helper_def codec_simps\<close>)
qed (auto simp: bool_helper_def bool_value_ok_def bool_value_img_def Get_def from_storage_def bool_codec_def codec_simps
    Create_invalid_def Create_value_def stored_word_def)

text \<open>Helpers that pass the stored value on to another encoder.\<close>

definition holds :: "DataType \<Rightarrow> ('a \<Rightarrow> storage) \<Rightarrow> ('a \<Rightarrow> bool) \<Rightarrow> zcl_variant \<Rightarrow> bool" where
  "holds DT S ok v \<longleftrightarrow> (\<exists>x. v = ZclVariant DT (Some (S x)) \<and> ok x)"

lemma wrapped_laws:
  assumes L: "codec_laws c ok img" and get: "\<And>x. get (S x) = x"
    and size: "\<And>x. ok x \<Longrightarrow> GetSize h (ZclVariant DT (Some (S x))) = GetSize c x"
    and enc: "\<And>x sp. ok x \<Longrightarrow> enc h (ZclVariant DT (Some (S x))) sp = enc c x sp"
    and dec: "\<And>bs. dec h bs = res_bind (dec c bs) (\<lambda>(x, rest). Inr (ZclVariant DT (Some (S x)), rest))"
  shows "codec_laws h (holds DT S ok) (\<lambda>v. img (get (the (variant_data v))))"
proof (rule codec_lawsI)
  fix bs v rest
  assume "dec h bs = Inr (v, rest)"
  then obtain x where x: "dec c bs = Inr (x, rest)" "v = ZclVariant DT (Some (S x))" by (auto simp: dec res_bind_eq_Inr)
  from codec_laws.consume_law [OF L x(1)] x(2) show "\<exists>used. bs = used @ rest \<and> (\<forall>r. dec h (used @ r) = Inr (v, r))"
    by (auto simp: dec)
qed (auto simp: holds_def get size enc dec codec_laws.size_law [OF L] codec_laws.write_law [OF L]
    codec_laws.overflow_law [OF L] codec_laws.read_law [OF L])

definition stored_bytes :: "storage \<Rightarrow> byte list" where
  "stored_bytes s = (case s of Stored_string bs \<Rightarrow> bs | _ \<Rightarrow> [])"

lemma byte_array_laws:
  assumes "DataTypeHelper DT = Byte_array_type n"
  shows "codec_laws (byte_array_helper DT n) (holds DT Stored_string (\<lambda>bs. length bs = n))
    (\<lambda>v. stored_bytes (the (variant_data v)))"
proof -
  have L: "codec_laws (array_codec n (unsigned_codec :: byte codec)) (\<lambda>bs. length bs = n) (\<lambda>bs. bs)"
    using uint8.array_codec_laws [of n] concat_le_bytes_1 by (simp add: array_ok_def [abs_def] array_img_def [abs_def] list_all_iff)
  show ?thesis
    by (rule wrapped_laws [OF L])
      (simp_all add: stored_bytes_def byte_array_helper_def Get_def from_storage_def assms Create_value_def)
qed

definition bitset_values :: "nat \<Rightarrow> 64 word codec" where
  "bitset_values n = \<lparr> GetSize = (\<lambda>w. Inr (n div 8)), enc = (\<lambda>w sp. bitset_encode_loop (n div 8) w sp),
     dec = (\<lambda>bs. res_bind (bitset_decode_loop (byte_shifts (n div 8)) 0 bs) (\<lambda>(w, rest). Inr (take_bit n w, rest))) \<rparr>"

lemma bitset_values_dec:
  "n \<le> 64 \<Longrightarrow> 8 dvd n \<Longrightarrow> dec (bitset_values n) bs = Inr (v, rest) \<longleftrightarrow>
     n div 8 \<le> length bs \<and> (Inr (take_bit n (of_le_bytes (take (n div 8) bs))) :: unit + 64 word) = Inr v \<and> rest = drop (n div 8) bs"
  by (auto simp: bitset_values_def res_bind_eq_Inr bitset_dec_eq)

lemma bitset_values_laws:
  assumes "n \<le> 64" "8 dvd n"
  shows "codec_laws (bitset_values n) (\<lambda>w. take_bit n w = w) (le_bytes (n div 8))"
proof (rule codec_lawsI)
  fix bs v rest
  assume "dec (bitset_values n) bs = Inr (v, rest)"
  then show "\<exists>used. bs = used @ rest \<and> (\<forall>r. dec (bitset_values n) (used @ r) = Inr (v, r))"
    by (rule fixed_size_consumes [OF bitset_values_dec [OF assms]])
next
  fix v :: "64 word" and rest
  assume "take_bit n v = v"
  then show "dec (bitset_values n) (le_bytes (n div 8) v @ rest) = Inr (v, rest)"
    using assms by (simp add: bitset_values_dec of_le_bytes_le_bytes)
qed (auto simp: bitset_values_def bitset_encode_loop_eq)

lemma bitset_laws:
  assumes "DataTypeHelper DT = Bitset_type n" "n \<le> 64" "8 dvd n"
  shows "codec_laws (bitset_helper DT n) (holds DT Stored_unsigned (\<lambda>w. take_bit n w = w))
    (\<lambda>v. le_bytes (n div 8) (stored_word (the (variant_data v))))"
  by (rule wrapped_laws [OF bitset_values_laws [OF assms(2,3)]])
    (simp_all add: stored_word_def bitset_helper_def bitset_values_def Get_def from_storage_def assms Create_value_def
      res_bind_assoc case_prod_beta')

definition stored_float :: "storage \<Rightarrow> fp" where
  "stored_float s = (case s of Stored_double x \<Rightarrow> x | _ \<Rightarrow> NaN)"

definition float_ok :: "(rat \<Rightarrow> int) \<Rightarrow> nat \<Rightarrow> nat \<Rightarrow> 'a::len itself \<Rightarrow> fp \<Rightarrow> bool" where
  "float_ok floor_log2 MAN EXP IT x \<longleftrightarrow> (\<exists>w :: 'a word. Float_bits floor_log2 MAN EXP x = Inr w \<and> Float_value MAN EXP w = x)"

definition float_img :: "(rat \<Rightarrow> int) \<Rightarrow> nat \<Rightarrow> nat \<Rightarrow> 'a::len itself \<Rightarrow> fp \<Rightarrow> byte list" where
  "float_img floor_log2 MAN EXP IT x = (case Float_bits floor_log2 MAN EXP x of
     Inl e \<Rightarrow> [] | Inr (w :: 'a word) \<Rightarrow> le_bytes (LENGTH('a) div 8) w)"

lemma float_codec_laws:
  assumes "8 dvd LENGTH('a::len)"
  shows "codec_laws (float_codec floor_log2 MAN EXP TYPE('a)) (float_ok floor_log2 MAN EXP TYPE('a))
    (float_img floor_log2 MAN EXP TYPE('a))"
proof -
  note L = canonical_imp_laws [OF unsigned_codec_canonical [OF assms]]
  show ?thesis
  proof (rule codec_lawsI)
    fix bs v rest
    assume "dec (float_codec floor_log2 MAN EXP TYPE('a)) bs = Inr (v, rest)"
    then obtain w :: "'a word" where w: "dec unsigned_codec bs = Inr (w, rest)" "v = Float_value MAN EXP w"
      by (auto simp: float_codec_def res_bind_eq_Inr)
    from codec_laws.consume_law [OF L w(1)] w(2)
    show "\<exists>used. bs = used @ rest \<and> (\<forall>r. dec (float_codec floor_log2 MAN EXP TYPE('a)) (used @ r) = Inr (v, r))"
      by (auto simp: float_codec_def)
  qed (auto simp: float_codec_def float_ok_def float_img_def codec_laws.size_law [OF L] codec_laws.write_law [OF L]
      codec_laws.overflow_law [OF L] codec_laws.read_law [OF L])
qed

lemma float_laws:
  assumes "codec_laws c ok img" "DataTypeHelper DT \<in> {Float_type, Double_type}"
  shows "codec_laws (float_helper DT c) (holds DT Stored_double ok) (\<lambda>v. img (stored_float (the (variant_data v))))"
  by (rule wrapped_laws [OF assms(1)])
    (use assms(2) in \<open>auto simp: stored_float_def float_helper_def Get_def from_storage_def Create_value_def\<close>)

section \<open>Integers\<close>

text \<open>
  The supported integers: of a type as wide as its C++ type all values and the invalid one, of a
  narrower type the words that fit without a sign.
\<close>

definition int_value_ok :: "DataType \<Rightarrow> bool \<Rightarrow> nat \<Rightarrow> nat \<Rightarrow> zcl_variant \<Rightarrow> bool" where
  "int_value_ok DT is_signed width N v \<longleftrightarrow>
     v = ZclVariant DT None \<and> N = width \<or>
     (\<exists>w. v = ZclVariant DT (Some (if is_signed then Stored_signed w else Stored_unsigned w)) \<and> w \<noteq> invalid_word is_signed width \<and>
       (if is_signed \<and> N = width then signed_take_bit (width - 1) w = w else take_bit N w = w))"

definition int_value_img :: "bool \<Rightarrow> nat \<Rightarrow> nat \<Rightarrow> zcl_variant \<Rightarrow> byte list" where
  "int_value_img is_signed width N v = le_bytes (N div 8) (take_bit width
     (case variant_data v of Some s \<Rightarrow> stored_word s | None \<Rightarrow> invalid_word is_signed width))"

text \<open>What is decoded from a word of the type's width.\<close>

definition int_value :: "DataType \<Rightarrow> bool \<Rightarrow> nat \<Rightarrow> 64 word \<Rightarrow> zcl_variant" where
  "int_value DT is_signed width u =
     (let value = (if is_signed then signed_take_bit (width - 1) u else take_bit width u)
      in if value = invalid_word is_signed width then ZclVariant DT None
         else ZclVariant DT (Some (if is_signed then Stored_signed value else Stored_unsigned value)))"

lemma int_dec_iff:
  "N \<le> 64 \<Longrightarrow> dec (int_helper DT is_signed width N) bs = Inr (v, rest) \<longleftrightarrow>
     N div 8 \<le> length bs \<and> (Inr (int_value DT is_signed width (of_le_bytes (take (N div 8) bs))) :: unit + zcl_variant) = Inr v
     \<and> rest = drop (N div 8) bs"
  by (auto simp: int_helper_def res_bind_eq_Inr zcl_int_dec_eq int_value_def Let_def Create_invalid_def Create_value_def)

lemma int_enc_eq:
  "enc (int_helper DT is_signed width N) v sp =
     (let bs = le_bytes (N div 8) (take_bit width (case Get DT v of Some s \<Rightarrow> stored_word s | None \<Rightarrow> invalid_word is_signed width))
      in if N div 8 \<le> sp then Inr (bs, sp - N div 8) else Inl (Runtime_error ''Not enough space to encode ZCL integer''))"
  using zcl_int_enc_eq [of _ 0 "N div 8" sp] by (simp add: int_helper_def byte_shifts_def Let_def)

lemma invalid_word_fits: "0 < width \<Longrightarrow> width \<le> 64 \<Longrightarrow>
  (if is_signed then signed_take_bit (width - 1) (take_bit width (invalid_word is_signed width)) else take_bit width (invalid_word is_signed width))
    = invalid_word is_signed width"
  by (auto intro!: bit_word_eqI simp: invalid_word_def bit_simps)

lemma signed_take_bit_small:
  assumes "take_bit N w = w" "N < width"
  shows "signed_take_bit (width - 1) w = (w :: 64 word)"
proof -
  have high: "\<not> bit w k" if "N \<le> k" for k using assms(1) that by (metis bit_take_bit_iff not_less)
  have "bit w (min (width - 1) k) = bit w k" for k
    using high [of k] high [of "width - 1"] assms(2) by (cases "k \<le> width - 1") (simp_all add: min_def)
  then show ?thesis by (intro bit_word_eqI) (simp add: bit_simps)
qed

lemma int_value_stored:
  assumes "int_value_ok DT is_signed width N v" "0 < N" "N \<le> width" "width \<le> 64"
  shows "int_value DT is_signed width (take_bit N (take_bit width
    (case variant_data v of Some s \<Rightarrow> stored_word s | None \<Rightarrow> invalid_word is_signed width))) = v"
proof -
  consider "v = ZclVariant DT None" "N = width"
    | w where "v = ZclVariant DT (Some (if is_signed then Stored_signed w else Stored_unsigned w))"
      "w \<noteq> invalid_word is_signed width" "is_signed" "N = width" "signed_take_bit (width - 1) w = w"
    | w where "v = ZclVariant DT (Some (if is_signed then Stored_signed w else Stored_unsigned w))"
      "w \<noteq> invalid_word is_signed width" "\<not> (is_signed \<and> N = width)" "take_bit N w = w"
    using assms(1) by (auto simp: int_value_ok_def split: if_splits)
  then show ?thesis
  proof cases
    case 1
    then show ?thesis using invalid_word_fits [of width is_signed] assms by (cases is_signed) (simp_all add: int_value_def)
  next
    case 2
    moreover have "\<not> width \<le> width - Suc 0" using assms(2,3) by simp
    ultimately show ?thesis using assms by (simp add: int_value_def stored_word_def signed_take_bit_take_bit Let_def)
  next
    case 3
    then have "take_bit width w = w" using assms(3) by (metis min.absorb2 take_bit_take_bit)
    moreover have "signed_take_bit (width - 1) w = w" if "is_signed"
      using 3 that assms(3) by (intro signed_take_bit_small [of N]) auto
    ultimately show ?thesis using 3 by (cases is_signed) (simp_all add: int_value_def stored_word_def Let_def del: take_bit_take_bit)
  qed
qed

lemma int_laws:
  assumes DT: "DataTypeHelper DT = (if is_signed then Signed_type width else Unsigned_type width)"
    and N: "0 < N" "N \<le> width" "width \<le> 64" "8 dvd N"
  shows "codec_laws (int_helper DT is_signed width N) (int_value_ok DT is_signed width N) (int_value_img is_signed width N)"
proof (rule codec_lawsI)
  fix v sp
  assume ok: "int_value_ok DT is_signed width N v"
  have got: "(case Get DT v of Some s \<Rightarrow> stored_word s | None \<Rightarrow> invalid_word is_signed width)
      = (case variant_data v of Some s \<Rightarrow> stored_word s | None \<Rightarrow> invalid_word is_signed width)"
  proof -
    have "take_bit width w = w" if "take_bit N w = w" for w :: "64 word"
      using that N(2) by (metis min.absorb2 take_bit_take_bit)
    moreover note signed_take_bit_small [of N _ width]
    ultimately show ?thesis
      using ok N(2) by (auto simp: int_value_ok_def Get_def from_storage_def DT stored_word_def split: if_splits)
  qed
  show "length (int_value_img is_signed width N v) \<le> sp \<Longrightarrow>
      enc (int_helper DT is_signed width N) v sp = Inr (int_value_img is_signed width N v, sp - length (int_value_img is_signed width N v))"
    and "sp < length (int_value_img is_signed width N v) \<Longrightarrow> \<exists>e. enc (int_helper DT is_signed width N) v sp = Inl e"
    by (simp_all add: int_enc_eq got int_value_img_def Let_def)
next
  fix v rest
  assume ok: "int_value_ok DT is_signed width N v"
  from int_value_stored [OF this N(1-3)] show "dec (int_helper DT is_signed width N) (int_value_img is_signed width N v @ rest) = Inr (v, rest)"
    using N by (simp add: int_dec_iff int_value_img_def of_le_bytes_le_bytes)
next
  fix bs v rest
  assume "dec (int_helper DT is_signed width N) bs = Inr (v, rest)"
  then show "\<exists>used. bs = used @ rest \<and> (\<forall>r. dec (int_helper DT is_signed width N) (used @ r) = Inr (v, r))"
    using N by (intro fixed_size_consumes [OF int_dec_iff]) simp_all
qed (simp add: int_helper_def int_value_img_def)

section \<open>Lists\<close>

definition list_value_ok :: "DataType \<Rightarrow> nat \<Rightarrow> (storage \<Rightarrow> 'a list option) \<Rightarrow> ('a list \<Rightarrow> storage) \<Rightarrow> ('a \<Rightarrow> bool) \<Rightarrow> zcl_variant \<Rightarrow> bool" where
  "list_value_ok DT LT elements build ok v \<longleftrightarrow> v = ZclVariant DT None \<or>
     (\<exists>xs. v = ZclVariant DT (Some (build xs)) \<and> length xs < 2 ^ (8 * LT) - 1 \<and> list_all ok xs)"

definition list_value_img :: "nat \<Rightarrow> (storage \<Rightarrow> 'a list option) \<Rightarrow> ('a \<Rightarrow> byte list) \<Rightarrow> zcl_variant \<Rightarrow> byte list" where
  "list_value_img LT elements img v = (case Option.bind (variant_data v) elements of
       None \<Rightarrow> le_bytes LT (word_of_nat (2 ^ (8 * LT) - 1) :: 64 word)
     | Some xs \<Rightarrow> le_bytes LT (word_of_nat (length xs) :: 64 word) @ concat (map img xs))"

lemma vector_laws:
  assumes L: "codec_laws c ok img" and LT: "LT < 8"
    and kind: "\<And>xs. elements (build xs) = Some xs" "\<And>xs. from_storage (DataTypeHelper DT) (build xs) = Some (build xs)"
  shows "codec_laws (vector_helper DT LT elements build c) (list_value_ok DT LT elements build ok) (list_value_img LT elements img)"
    (is "codec_laws ?h ?ok ?img")
proof (rule codec_lawsI)
  note laws = codec_laws.sum_sizes_img [OF L] codec_laws.encode_each_img [OF L] codec_laws.encode_each_overflow [OF L]
    codec_laws.decode_each_img [OF L]
  have got: "Option.bind (Get DT (ZclVariant DT (Some (build xs)))) elements = Some xs"
    "Option.bind (Get DT (ZclVariant DT None)) elements = None" for xs
    by (simp_all add: Get_def kind)
  show "GetSize ?h v = Inr (length (?img v))" if "?ok v" for v
    using that by (auto simp: list_value_ok_def list_value_img_def vector_helper_def got kind laws)
  show "enc ?h v sp = Inr (?img v, sp - length (?img v))" if "?ok v" "length (?img v) \<le> sp" for v sp
    using that by (auto simp: list_value_ok_def list_value_img_def vector_helper_def got kind laws length_enc_eq)
  show "\<exists>e. enc ?h v sp = Inl e" if ok: "?ok v" and small: "sp < length (?img v)" for v sp
  proof (cases "v = ZclVariant DT None")
    case True
    then show ?thesis using small by (auto simp: list_value_img_def vector_helper_def got length_enc_eq)
  next
    case False
    with ok obtain xs where xs: "v = ZclVariant DT (Some (build xs))" "list_all ok xs" by (auto simp: list_value_ok_def)
    with small have "LT \<le> sp \<Longrightarrow> sp - LT < length (concat (map img xs))" by (simp add: list_value_img_def kind)
    then have "LT \<le> sp \<Longrightarrow> \<exists>e. encode_each (enc c) xs (sp - LT) = Inl e" using xs(2) by (intro laws(3))
    then show ?thesis by (auto simp: xs(1) vector_helper_def got length_enc_eq res_bind_eq_Inl)
  qed
  have wide: "(2 :: nat) ^ (8 * LT) - 1 < 2 ^ (8 * LT)" by simp
  show "dec ?h (?img v @ rest) = Inr (v, rest)" if "?ok v" for v rest
    using that length_read [OF LT wide] length_read [OF LT less_trans [OF _ wide]] laws(4)
    by (auto simp: list_value_ok_def list_value_img_def vector_helper_def kind Create_invalid_def Create_value_def)
next
  fix bs v rest
  assume d: "dec (vector_helper DT LT elements build c) bs = Inr (v, rest)"
  then have n: "LT \<le> length bs" using LT by (auto simp: vector_helper_def res_bind_eq_Inr length_dec_eq split: if_splits)
  let ?n = "unat (of_le_bytes (take LT bs) :: 64 word)"
  have len: "length_dec LT (take LT bs @ r) = Inr (?n, r)" for r using LT n by (simp add: length_dec_eq)
  have start: "length_dec LT bs = Inr (?n, drop LT bs)" using len [of "drop LT bs"] by simp
  show "\<exists>used. bs = used @ rest \<and> (\<forall>r. dec (vector_helper DT LT elements build c) (used @ r) = Inr (v, r))"
  proof (cases "?n = 2 ^ (8 * LT) - 1")
    case True
    with d start have "v = Create_invalid DT" "rest = drop LT bs" by (auto simp: vector_helper_def)
    with True len show ?thesis by (intro exI [of _ "take LT bs"]) (simp add: vector_helper_def)
  next
    case False
    with d start obtain xs where xs: "decode_each (dec c) ?n (drop LT bs) = Inr (xs, rest)" "v = Create_value DT (build xs)"
      by (auto simp: vector_helper_def res_bind_eq_Inr)
    from codec_laws.decode_each_consumes [OF L xs(1)] obtain used where
      used: "drop LT bs = used @ rest" "\<And>r. decode_each (dec c) ?n (used @ r) = Inr (xs, r)" by blast
    with False len [of "used @ _"] xs(2) show ?thesis
      by (intro exI [of _ "take LT bs @ used"]) (auto simp: vector_helper_def, metis append_take_drop_id)
  qed
qed

section \<open>Every data type\<close>

definition bytes_of :: "storage \<Rightarrow> byte list option" where
  "bytes_of s = (case s of Stored_string bs \<Rightarrow> Some bs | _ \<Rightarrow> None)"

definition variants_of :: "storage \<Rightarrow> zcl_variant list option" where
  "variants_of s = (case s of Stored_variants vs \<Rightarrow> Some vs | _ \<Rightarrow> None)"

text \<open>The supported variants of a data type and their bytes, given those of the elements of a structure.\<close>

definition value_ok :: "(rat \<Rightarrow> int) \<Rightarrow> (zcl_variant \<Rightarrow> bool) \<Rightarrow> DataType \<Rightarrow> zcl_variant \<Rightarrow> bool" where
  "value_ok floor_log2 ok DT =
     (if DT = DataType_nodata then (\<lambda>v. v = Create_invalid DataType_nodata)
      else if DT = DataType_bool then bool_value_ok
      else if DT = DataType_octstr \<or> DT = DataType_string then list_value_ok DT 1 bytes_of Stored_string (\<lambda>b. True)
      else if DT = DataType_octstr16 then list_value_ok DT 2 bytes_of Stored_string (\<lambda>b. True)
      else if DT = DataType_struct then list_value_ok DT 2 variants_of Stored_variants ok
      else if DT = DataType_semi then holds DT Stored_double (float_ok floor_log2 10 5 TYPE(16))
      else if DT = DataType_single then holds DT Stored_double (float_ok floor_log2 23 8 TYPE(32))
      else if DT = DataType_double then holds DT Stored_double (float_ok floor_log2 52 11 TYPE(64))
      else case DataTypeHelper DT of
          Byte_array_type n \<Rightarrow> holds DT Stored_string (\<lambda>bs. length bs = n)
        | Bitset_type n \<Rightarrow> holds DT Stored_unsigned (\<lambda>w. take_bit n w = w)
        | Unsigned_type width \<Rightarrow> int_value_ok DT False width (integer_bits DT)
        | Signed_type width \<Rightarrow> int_value_ok DT True width (integer_bits DT)
        | _ \<Rightarrow> (\<lambda>v. False))"

definition value_img :: "(rat \<Rightarrow> int) \<Rightarrow> (zcl_variant \<Rightarrow> byte list) \<Rightarrow> DataType \<Rightarrow> zcl_variant \<Rightarrow> byte list" where
  "value_img floor_log2 img DT =
     (if DT = DataType_nodata then (\<lambda>v. [])
      else if DT = DataType_bool then bool_value_img
      else if DT = DataType_octstr \<or> DT = DataType_string then list_value_img 1 bytes_of (le_bytes 1)
      else if DT = DataType_octstr16 then list_value_img 2 bytes_of (le_bytes 1)
      else if DT = DataType_struct then list_value_img 2 variants_of img
      else if DT = DataType_semi then (\<lambda>v. float_img floor_log2 10 5 TYPE(16) (stored_float (the (variant_data v))))
      else if DT = DataType_single then (\<lambda>v. float_img floor_log2 23 8 TYPE(32) (stored_float (the (variant_data v))))
      else if DT = DataType_double then (\<lambda>v. float_img floor_log2 52 11 TYPE(64) (stored_float (the (variant_data v))))
      else case DataTypeHelper DT of
          Byte_array_type n \<Rightarrow> (\<lambda>v. stored_bytes (the (variant_data v)))
        | Bitset_type n \<Rightarrow> (\<lambda>v. le_bytes (n div 8) (stored_word (the (variant_data v))))
        | Unsigned_type width \<Rightarrow> int_value_img False width (integer_bits DT)
        | Signed_type width \<Rightarrow> int_value_img True width (integer_bits DT)
        | _ \<Rightarrow> (\<lambda>v. []))"

lemma weaker_laws: "codec_laws c ok img \<Longrightarrow> (\<And>v. \<not> ok' v) \<Longrightarrow> codec_laws c ok' img'"
  by (intro codec_lawsI) (auto intro: codec_laws.consume_law)

lemma not_implemented_laws: "codec_laws not_implemented (\<lambda>v. False) img"
  by (rule codec_lawsI) (auto simp: not_implemented_def)

lemma type_widths:
  "DataTypeHelper DT = Bitset_type n \<Longrightarrow> n \<le> 64 \<and> 8 dvd n"
  "DataTypeHelper DT = Unsigned_type width \<Longrightarrow> 0 < integer_bits DT \<and> integer_bits DT \<le> width \<and> width \<le> 64 \<and> 8 dvd integer_bits DT"
  "DataTypeHelper DT = Signed_type width \<Longrightarrow> 0 < integer_bits DT \<and> integer_bits DT \<le> width \<and> width \<le> 64 \<and> 8 dvd integer_bits DT"
  by (auto simp: DataTypeHelper_def integer_bits_def split: if_splits)

lemma type_kinds [simp]:
  "DataTypeHelper DataType_octstr = String_type" "DataTypeHelper DataType_string = String_type"
  "DataTypeHelper DataType_octstr16 = String_type" "DataTypeHelper DataType_struct = Struct_type"
  "DataTypeHelper DataType_semi = Float_type" "DataTypeHelper DataType_single = Double_type"
  "DataTypeHelper DataType_double = Double_type"
  by (simp_all add: DataTypeHelper_def)

lemma string_laws:
  assumes "DataTypeHelper DT = String_type" "LT < 8"
  shows "codec_laws (string_helper DT LT) (list_value_ok DT LT bytes_of Stored_string (\<lambda>b. True)) (list_value_img LT bytes_of (le_bytes 1))"
  unfolding string_helper_def bytes_of_def [abs_def, symmetric] signed_codec_eq
  by (rule vector_laws [OF uint8.codec_laws_axioms assms(2)]) (simp_all add: bytes_of_def from_storage_def assms)

lemma struct_laws:
  assumes "codec_laws element ok img"
  shows "codec_laws (struct_helper element) (list_value_ok DataType_struct 2 variants_of Stored_variants ok) (list_value_img 2 variants_of img)"
  unfolding struct_helper_def variants_of_def [abs_def, symmetric]
  by (rule vector_laws [OF assms]) (simp_all add: variants_of_def from_storage_def)

lemma helper_laws:
  assumes "codec_laws element ok img"
  shows "codec_laws (VariantEncodeHelperImpl floor_log2 element DT) (value_ok floor_log2 ok DT) (value_img floor_log2 img DT)"
proof -
  consider "DT = DataType_nodata" | "DT = DataType_bool" | "DT = DataType_octstr" | "DT = DataType_string"
    | "DT = DataType_octstr16" | "DT = DataType_string16" | "DT = DataType_struct"
    | "DT = DataType_semi" | "DT = DataType_single" | "DT = DataType_double"
    | "DT \<notin> {DataType_nodata, DataType_bool, DataType_octstr, DataType_string, DataType_octstr16, DataType_string16,
        DataType_struct, DataType_semi, DataType_single, DataType_double}" by blast
  then show ?thesis
  proof cases
    case 6
    have "\<not> value_ok floor_log2 ok DT v" for v using 6 by (simp add: value_ok_def DataTypeHelper_def)
    then show ?thesis using 6 weaker_laws [OF string_laws [of DataType_string 2]] by (simp add: VariantEncodeHelperImpl_def)
  next
    case 11
    then have chain: "VariantEncodeHelperImpl floor_log2 element DT = (case DataTypeHelper DT of
          Byte_array_type n \<Rightarrow> byte_array_helper DT n | Bitset_type n \<Rightarrow> bitset_helper DT n
        | Unsigned_type width \<Rightarrow> int_helper DT False width (integer_bits DT)
        | Signed_type width \<Rightarrow> int_helper DT True width (integer_bits DT) | _ \<Rightarrow> not_implemented)"
      by (simp add: VariantEncodeHelperImpl_def)
    show ?thesis
    proof (cases "DataTypeHelper DT")
      case (Unsigned_type width)
      then show ?thesis using 11 chain type_widths(2) [OF Unsigned_type] int_laws [of DT False width "integer_bits DT"]
        by (simp add: value_ok_def value_img_def)
    next
      case (Signed_type width)
      then show ?thesis using 11 chain type_widths(3) [OF Signed_type] int_laws [of DT True width "integer_bits DT"]
        by (simp add: value_ok_def value_img_def)
    next
      case (Bitset_type n)
      then show ?thesis using 11 chain type_widths(1) [OF Bitset_type] bitset_laws [of DT n]
        by (simp add: value_ok_def value_img_def)
    next
      case (Byte_array_type n)
      then show ?thesis using 11 chain byte_array_laws [of DT n] by (simp add: value_ok_def value_img_def)
    qed (use 11 chain not_implemented_laws in \<open>simp_all add: value_ok_def value_img_def\<close>)
  qed (simp_all add: VariantEncodeHelperImpl_def value_ok_def value_img_def nodata_laws bool_helper_laws
      string_laws [of DataType_octstr 1, simplified] string_laws [of DataType_string 1, simplified]
      string_laws [of DataType_octstr16 2, simplified] struct_laws [OF assms] float_laws float_codec_laws)
qed

section \<open>Variants\<close>

lemma EncoderMap_total: "map_of (EncoderMap floor_log2 element) DT = Some (VariantEncodeHelperImpl floor_log2 element DT)"
proof -
  have "map_of (map (\<lambda>n. (word_of_nat n :: DataType, f (word_of_nat n))) ns) DT = (if unat DT \<in> set ns then Some (f DT) else None)"
    if "\<forall>n \<in> set ns. n < 256" for ns and f :: "DataType \<Rightarrow> 'a"
    using that
  proof (induction ns)
    case (Cons n ns)
    then have "word_of_nat n = DT \<longleftrightarrow> unat DT = n" by (auto simp: unat_of_nat take_bit_nat_eq_self)
    with Cons show ?case by auto
  qed simp
  from this [of "[0..<256]"] unat_byte_less [of DT] show ?thesis
    by (simp add: EncoderMap_def CreateEnumLookup_def del: upt_Suc)
qed

primrec variant_ok :: "nat \<Rightarrow> (rat \<Rightarrow> int) \<Rightarrow> zcl_variant \<Rightarrow> bool" where
  "variant_ok 0 floor_log2 v = False"
| "variant_ok (Suc fuel) floor_log2 v = value_ok floor_log2 (variant_ok fuel floor_log2) (variant_type v) v"

primrec variant_img :: "nat \<Rightarrow> (rat \<Rightarrow> int) \<Rightarrow> zcl_variant \<Rightarrow> byte list" where
  "variant_img 0 floor_log2 v = []"
| "variant_img (Suc fuel) floor_log2 v = variant_type v # value_img floor_log2 (variant_img fuel floor_log2) (variant_type v) v"

lemma variant_laws: "codec_laws (variant_codec fuel floor_log2) (variant_ok fuel floor_log2) (variant_img fuel floor_log2)"
proof (induction fuel)
  case 0
  show ?case by (rule codec_lawsI) auto
next
  case (Suc fuel)
  note H = helper_laws [OF Suc.IH, of floor_log2]
  show ?case
  proof (rule codec_lawsI)
    fix bs v rest
    assume d: "dec (variant_codec (Suc fuel) floor_log2) bs = Inr (v, rest)"
    then obtain t bs' where bs: "bs = t # bs'" by (cases bs) (auto simp: Let_def codec_simps)
    with d have "dec (VariantEncodeHelperImpl floor_log2 (variant_codec fuel floor_log2) t) bs' = Inr (v, rest)"
      by (simp add: Let_def codec_simps EncoderMap_total)
    from codec_laws.consume_law [OF H this] obtain used where
      "bs' = used @ rest" "\<And>r. dec (VariantEncodeHelperImpl floor_log2 (variant_codec fuel floor_log2) t) (used @ r) = Inr (v, r)" by blast
    with bs show "\<exists>used. bs = used @ rest \<and> (\<forall>r. dec (variant_codec (Suc fuel) floor_log2) (used @ r) = Inr (v, r))"
      by (intro exI [of _ "t # used"]) (simp add: Let_def codec_simps EncoderMap_total)
  next
    fix v and sp :: nat
    assume "variant_ok (Suc fuel) floor_log2 v" "sp < length (variant_img (Suc fuel) floor_log2 v)"
    then show "\<exists>e. enc (variant_codec (Suc fuel) floor_log2) v sp = Inl e"
      using codec_laws.overflow_law [OF H, of "variant_type v" v "sp - 1"]
      by (cases sp) (auto simp: Let_def codec_simps EncoderMap_total res_bind_eq_Inl)
  qed (auto simp: Let_def codec_simps EncoderMap_total codec_laws.size_law [OF H] codec_laws.write_law [OF H] codec_laws.read_law [OF H])
qed

interpretation variant: codec_laws "variant_codec fuel floor_log2" "variant_ok fuel floor_log2" "variant_img fuel floor_log2"
  for fuel floor_log2
  by (rule variant_laws)

section \<open>Enough fuel\<close>

lemma decode_each_cong_shorter:
  assumes L: "codec_laws c ok img"
    and "\<And>bs'. length bs' \<le> length bs \<Longrightarrow> dec c bs' = d bs' \<and> d bs' \<noteq> Inl Out_of_fuel"
  shows "decode_each (dec c) n bs = decode_each d n bs \<and> decode_each d n bs \<noteq> Inl Out_of_fuel"
  using assms(2)
proof (induction n arbitrary: bs)
  case (Suc n)
  have one: "dec c bs = d bs" "d bs \<noteq> Inl Out_of_fuel" using Suc.prems [of bs] by simp_all
  show ?case
  proof (cases "dec c bs")
    case (Inr p)
    obtain v rest where p: "p = (v, rest)" by (cases p)
    obtain used where "bs = used @ rest" using codec_laws.consume_law [OF L, of bs v rest] Inr p by blast
    then have "\<And>bs'. length bs' \<le> length rest \<Longrightarrow> dec c bs' = d bs' \<and> d bs' \<noteq> Inl Out_of_fuel" using Suc.prems by simp
    note rest = Suc.IH [OF this]
    have "dec c bs = Inr (v, rest)" "d bs = Inr (v, rest)" using Inr p one by simp_all
    with rest show ?thesis by (cases "decode_each d n rest") auto
  qed (use one in auto)
qed simp

lemma length_dec_no_fuel: "LT \<le> 8 \<Longrightarrow> length_dec LT bs \<noteq> Inl Out_of_fuel"
  by (simp add: length_dec_eq)

lemma zcl_int_dec_no_fuel: "zcl_int_dec is v bs \<noteq> Inl Out_of_fuel"
  by (induction "is" v bs rule: zcl_int_dec.induct) auto

lemma bitset_decode_no_fuel: "bitset_decode_loop is v bs \<noteq> Inl Out_of_fuel"
  by (induction "is" v bs rule: bitset_decode_loop.induct) auto

lemma decode_each_bytes_no_fuel: "decode_each (dec (unsigned_codec :: byte codec)) n bs \<noteq> Inl Out_of_fuel"
proof (induction n arbitrary: bs)
  case (Suc n)
  then show ?case by (auto simp: codec_simps res_bind_eq_Inl)
qed simp

lemma float_no_fuel: "dec (float_helper D (float_codec floor_log2 M E TYPE('a::len))) bs \<noteq> Inl Out_of_fuel"
  by (auto simp: float_helper_def float_codec_def codec_simps res_bind_eq_Inl split: if_splits)

lemma helper_no_fuel:
  assumes "DT \<noteq> DataType_struct"
  shows "dec (VariantEncodeHelperImpl floor_log2 element DT) bs = dec (VariantEncodeHelperImpl floor_log2 element' DT) bs"
    "dec (VariantEncodeHelperImpl floor_log2 element DT) bs \<noteq> Inl Out_of_fuel"
proof -
  show "dec (VariantEncodeHelperImpl floor_log2 element DT) bs = dec (VariantEncodeHelperImpl floor_log2 element' DT) bs"
    using assms by (simp add: VariantEncodeHelperImpl_def)
  have strings: "dec (string_helper D LT) bs \<noteq> Inl Out_of_fuel" if "LT \<le> 8" for D LT
    using length_dec_no_fuel [OF that] decode_each_bytes_no_fuel
    by (auto simp: string_helper_def vector_helper_def signed_codec_eq res_bind_eq_Inl split: if_splits)
  have others: "dec nodata_helper bs \<noteq> Inl Out_of_fuel" "dec bool_helper bs \<noteq> Inl Out_of_fuel"
    "dec not_implemented bs \<noteq> Inl Out_of_fuel"
    by (auto simp: nodata_helper_def bool_helper_def not_implemented_def codec_simps res_bind_eq_Inl split: if_splits)
  have kinds: "dec (byte_array_helper D n) bs \<noteq> Inl Out_of_fuel" "dec (bitset_helper D n) bs \<noteq> Inl Out_of_fuel"
    "dec (int_helper D s w N) bs \<noteq> Inl Out_of_fuel" for D n s w N
    using decode_each_bytes_no_fuel bitset_decode_no_fuel zcl_int_dec_no_fuel
    by (auto simp: byte_array_helper_def array_codec_def bitset_helper_def int_helper_def Let_def res_bind_eq_Inl)
  show "dec (VariantEncodeHelperImpl floor_log2 element DT) bs \<noteq> Inl Out_of_fuel"
    unfolding VariantEncodeHelperImpl_def
    using assms strings float_no_fuel [where 'a = 16] float_no_fuel [where 'a = 32] float_no_fuel [where 'a = 64] others kinds
    by (auto split: value_type.split)
qed

lemma variant_fuel:
  "length bs < fuel \<Longrightarrow> length bs < fuel' \<Longrightarrow>
   dec (variant_codec fuel floor_log2) bs = dec (variant_codec fuel' floor_log2) bs \<and>
   dec (variant_codec fuel' floor_log2) bs \<noteq> Inl Out_of_fuel"
proof (induction fuel arbitrary: fuel' bs)
  case (Suc fuel)
  obtain fuel'' where f: "fuel' = Suc fuel''" using Suc.prems(2) by (cases fuel') auto
  show ?case
  proof (cases bs)
    case Nil
    then show ?thesis by (simp add: f Let_def codec_simps)
  next
    case (Cons t bs')
    let ?h = "\<lambda>fuel. VariantEncodeHelperImpl floor_log2 (variant_codec fuel floor_log2) t"
    have "dec (?h fuel) bs' = dec (?h fuel'') bs' \<and> dec (?h fuel'') bs' \<noteq> Inl Out_of_fuel"
    proof (cases "t = DataType_struct")
      case True
      have "decode_each (dec (variant_codec fuel floor_log2)) n (drop 2 bs') = decode_each (dec (variant_codec fuel'' floor_log2)) n (drop 2 bs')
          \<and> decode_each (dec (variant_codec fuel'' floor_log2)) n (drop 2 bs') \<noteq> Inl Out_of_fuel" for n
        using Suc.prems Cons by (intro decode_each_cong_shorter [OF variant_laws] Suc.IH) (simp_all add: f)
      then show ?thesis
        using True length_dec_no_fuel [of 2 bs']
        by (auto simp: VariantEncodeHelperImpl_def struct_helper_def vector_helper_def length_dec_eq res_bind_eq_Inl)
    qed (use helper_no_fuel in blast)
    then show ?thesis by (simp add: Cons f Let_def codec_simps EncoderMap_total)
  qed
qed simp

section \<open>What a variant is read back as\<close>

lemma variant_enc:
  "Encode (variant_codec (Suc fuel) floor_log2) v = res_bind (GetSize (VariantEncodeHelperImpl floor_log2 (variant_codec fuel floor_log2) (variant_type v)) v)
     (\<lambda>n. res_bind (enc (VariantEncodeHelperImpl floor_log2 (variant_codec fuel floor_log2) (variant_type v)) v n)
       (\<lambda>(bs, left). if left \<noteq> 0 then Inl (Runtime_error ''Encoder failure: Too much data reserved'') else Inr (variant_type v # bs)))"
  by (auto simp: Encode_def Let_def codec_simps EncoderMap_total res_bind_def split: sum.splits)

lemma variant_dec:
  "dec (variant_codec (Suc fuel) floor_log2) (t # bs) = dec (VariantEncodeHelperImpl floor_log2 (variant_codec fuel floor_log2) t) bs"
  by (simp add: Let_def codec_simps EncoderMap_total)

text \<open>
  C38: ZCL values are encoded without loss: a variant of any supported type (valid or invalid booleans
  and full-width integers, bit maps, byte arrays, half, single and double precision numbers that fit,
  strings shorter than the length type's maximum, and structures of such variants) is encoded to bytes
  from which, whatever follows them, exactly that variant is read.
\<close>

theorem variant_round_trip:
  assumes "variant_ok fuel floor_log2 v"
  shows "\<exists>bs. Encode (variant_codec fuel floor_log2) v = Inr bs \<and>
    (\<forall>rest. dec (variant_codec fuel floor_log2) (bs @ rest) = Inr (v, rest))"
  using variant.encode_img [OF assms] variant.read_law [OF assms] by blast

definition sample_struct :: zcl_variant where
  "sample_struct = Create_value DataType_struct (Stored_variants
     [Create_value DataType_bool (Stored_unsigned 1), Create_invalid DataType_int16,
      Create_value DataType_string (Stored_string [0x68, 0x69])])"

lemma variant_round_trip_witness:
  "\<exists>bs. Encode (variant_codec 2 (\<lambda>x. 0)) sample_struct = Inr bs \<and>
    (\<forall>rest. dec (variant_codec 2 (\<lambda>x. 0)) (bs @ rest) = Inr (sample_struct, rest))"
proof (rule variant_round_trip)
  show "variant_ok 2 (\<lambda>x. 0) sample_struct"
    unfolding numeral_2_eq_2 sample_struct_def
    by (simp add: value_ok_def list_value_ok_def bool_value_ok_def int_value_ok_def integer_bits_def DataTypeHelper_def
        Create_value_def Create_invalid_def)
qed

text \<open>
  C39: Decoding a variant always returns or throws: structures can be nested only as deep as there are
  bytes, so with more fuel than bytes the decoder does not run out of it and the fuel does not matter.
\<close>

theorem variant_decoder_total:
  assumes "length bs < fuel" "length bs < fuel'"
  shows "dec (variant_codec fuel floor_log2) bs = dec (variant_codec fuel' floor_log2) bs \<and>
    dec (variant_codec fuel floor_log2) bs \<noteq> Inl Out_of_fuel"
  using variant_fuel [OF assms, of floor_log2] by simp

lemma variant_decoder_total_witness:
  "dec (variant_codec 7 (\<lambda>x. 0)) [0x4c, 1, 0, 0x4c, 0, 0] = dec (variant_codec 9 (\<lambda>x. 0)) [0x4c, 1, 0, 0x4c, 0, 0] \<and>
   dec (variant_codec 7 (\<lambda>x. 0)) [0x4c, 1, 0, 0x4c, 0, 0] \<noteq> Inl Out_of_fuel"
  by (rule variant_decoder_total) simp_all

text \<open>A variant that is encoded and decoded again.\<close>

definition resent :: "nat \<Rightarrow> (rat \<Rightarrow> int) \<Rightarrow> zcl_variant \<Rightarrow> error + zcl_variant" where
  "resent fuel floor_log2 v = res_bind (Encode (variant_codec fuel floor_log2) v) (Decode (variant_codec fuel floor_log2))"

text \<open>An integer narrower than its C++ type: what was written is read as a number without a sign.\<close>

lemma narrow_read:
  assumes N: "0 < N" "N < width" "width \<le> 64" "8 dvd N"
  shows "dec (int_helper DT is_signed width N) (le_bytes (N div 8) (take_bit width w) @ rest) =
     Inr (Create_value DT (if is_signed then Stored_signed (take_bit N w) else Stored_unsigned (take_bit N w)), rest)"
proof -
  define u where "u = take_bit N w"
  have u: "of_le_bytes (le_bytes (N div 8) (take_bit width w)) = u"
    using N by (simp add: of_le_bytes_le_bytes u_def min_def)
  have fits: "take_bit N u = u" "take_bit width u = u" using N(2) by (simp_all add: u_def min_def)
  have "\<not> bit u (width - 1)" using fits(1) N(2) by (metis bit_take_bit_iff Suc_pred' N(1) less_Suc_eq_le not_less order.strict_trans)
  moreover have "bit (invalid_word is_signed width) (width - 1)"
    using N by (auto simp: invalid_word_def bit_simps)
  ultimately have "u \<noteq> invalid_word is_signed width" by auto
  then have "int_value DT is_signed width u = Create_value DT (if is_signed then Stored_signed u else Stored_unsigned u)"
    using fits signed_take_bit_small [OF fits(1) N(2)] by (cases is_signed) (simp_all add: int_value_def Create_value_def Let_def)
  then show ?thesis using N by (simp add: int_dec_iff u flip: u_def)
qed

lemma narrow_resent:
  assumes helper: "VariantEncodeHelperImpl floor_log2 (variant_codec fuel floor_log2) DT = int_helper DT is_signed width N"
    and N: "0 < N" "N < width" "width \<le> 64" "8 dvd N"
    and u: "take_bit N (case Get DT (ZclVariant DT d) of Some s \<Rightarrow> stored_word s | None \<Rightarrow> invalid_word is_signed width) = u"
  shows "resent (Suc fuel) floor_log2 (ZclVariant DT d) = Inr (Create_value DT (if is_signed then Stored_signed u else Stored_unsigned u))"
proof -
  define w where "w = (case Get DT (ZclVariant DT d) of Some s \<Rightarrow> stored_word s | None \<Rightarrow> invalid_word is_signed width)"
  have "enc (int_helper DT is_signed width N) (ZclVariant DT d) (N div 8) = Inr (le_bytes (N div 8) (take_bit width w), 0)"
    by (simp add: int_enc_eq flip: w_def)
  then have "Encode (variant_codec (Suc fuel) floor_log2) (ZclVariant DT d) = Inr (DT # le_bytes (N div 8) (take_bit width w))"
    by (simp add: variant_enc helper int_helper_def [THEN arg_cong, of GetSize] del: variant_codec.simps)
  moreover note narrow_read [OF N, of DT is_signed w "[]"] u
  ultimately show ?thesis
    by (simp add: resent_def Decode_def variant_dec helper flip: w_def del: variant_codec.simps)
qed

lemma narrow_types:
  "DT \<in> {DataType_int24, DataType_int40, DataType_int48, DataType_int56} \<Longrightarrow>
     \<exists>width. DataTypeHelper DT = Signed_type width \<and> VariantEncodeHelperImpl floor_log2 element DT = int_helper DT True width (integer_bits DT) \<and>
       0 < integer_bits DT \<and> integer_bits DT < width \<and> width \<le> 64 \<and> 8 dvd integer_bits DT"
  "DT \<in> {DataType_uint24, DataType_uint40, DataType_uint48, DataType_uint56} \<Longrightarrow>
     \<exists>width. DataTypeHelper DT = Unsigned_type width \<and> VariantEncodeHelperImpl floor_log2 element DT = int_helper DT False width (integer_bits DT) \<and>
       0 < integer_bits DT \<and> integer_bits DT < width \<and> width \<le> 64 \<and> 8 dvd integer_bits DT"
  by ((elim insertE emptyE; simp add: VariantEncodeHelperImpl_def DataTypeHelper_def integer_bits_def)+)

lemma take_bit_invalid:
  assumes "N < width" "width \<le> 64"
  shows "take_bit N (invalid_word True width) = 0" "take_bit N (invalid_word False width) = mask N"
  using assms by (auto intro!: bit_word_eqI simp: invalid_word_def bit_simps)

lemma take_bit_signed_value: "take_bit n w = word_of_int (sint (w :: 'a::len word) mod 2 ^ n)"
  by (rule bit_word_eqI) (auto simp: bit_simps simp flip: take_bit_eq_mod)

lemma take_bit_signed_take_bit_below: "N \<le> m \<Longrightarrow> take_bit N (signed_take_bit m (w :: 64 word)) = take_bit N w"
  by (rule bit_word_eqI) (auto simp: bit_simps min_def)

text \<open>
  C40: The integers of 24, 40, 48 and 56 bits lose their sign and their invalid value: a signed value is
  read back as its residue modulo two to the number of bits, so every negative number comes back as a
  positive one; the invalid signed value comes back as 0, the invalid unsigned one as the largest number.
\<close>

theorem narrow_integers_changed:
  "(DT \<in> {DataType_int24, DataType_int40, DataType_int48, DataType_int56} \<longrightarrow>
      resent (Suc fuel) floor_log2 (Create_value DT (Stored_signed w)) =
        Inr (Create_value DT (Stored_signed (word_of_int (sint w mod 2 ^ integer_bits DT)))) \<and>
      resent (Suc fuel) floor_log2 (Create_invalid DT) = Inr (Create_value DT (Stored_signed 0))) \<and>
   (DT \<in> {DataType_uint24, DataType_uint40, DataType_uint48, DataType_uint56} \<longrightarrow>
      resent (Suc fuel) floor_log2 (Create_invalid DT) = Inr (Create_value DT (Stored_unsigned (mask (integer_bits DT)))))"
proof (intro conjI impI)
  assume "DT \<in> {DataType_int24, DataType_int40, DataType_int48, DataType_int56}"
  from narrow_types(1) [OF this] obtain width where h: "DataTypeHelper DT = Signed_type width"
    "VariantEncodeHelperImpl floor_log2 (variant_codec fuel floor_log2) DT = int_helper DT True width (integer_bits DT)"
    "0 < integer_bits DT" "integer_bits DT < width" "width \<le> 64" "8 dvd integer_bits DT" by blast
  show "resent (Suc fuel) floor_log2 (Create_value DT (Stored_signed w)) =
      Inr (Create_value DT (Stored_signed (word_of_int (sint w mod 2 ^ integer_bits DT))))"
    unfolding Create_value_def using h
    by (subst narrow_resent [OF h(2-6) refl])
      (simp add: Get_def from_storage_def stored_word_def Create_value_def take_bit_signed_take_bit_below flip: take_bit_signed_value)
  show "resent (Suc fuel) floor_log2 (Create_invalid DT) = Inr (Create_value DT (Stored_signed 0))"
    unfolding Create_invalid_def using h
    by (subst narrow_resent [OF h(2-6) refl]) (simp add: Get_def take_bit_invalid)
next
  assume "DT \<in> {DataType_uint24, DataType_uint40, DataType_uint48, DataType_uint56}"
  from narrow_types(2) [OF this] obtain width where h:
    "VariantEncodeHelperImpl floor_log2 (variant_codec fuel floor_log2) DT = int_helper DT False width (integer_bits DT)"
    "0 < integer_bits DT" "integer_bits DT < width" "width \<le> 64" "8 dvd integer_bits DT" by blast
  then show "resent (Suc fuel) floor_log2 (Create_invalid DT) = Inr (Create_value DT (Stored_unsigned (mask (integer_bits DT))))"
    unfolding Create_invalid_def by (subst narrow_resent [OF h refl]) (simp add: Get_def take_bit_invalid)
qed

lemma narrow_integers_changed_witness:
  "resent 1 (\<lambda>x. 0) (Create_value DataType_int24 (Stored_signed (- 5))) = Inr (Create_value DataType_int24 (Stored_signed 16777211)) \<and>
   resent 1 (\<lambda>x. 0) (Create_invalid DataType_uint24) = Inr (Create_value DataType_uint24 (Stored_unsigned 0xFFFFFF))"
  using narrow_integers_changed [of DataType_int24 0 "\<lambda>x. 0" "- 5"] narrow_integers_changed [of DataType_uint24 0 "\<lambda>x. 0" "0"]
  by (simp add: integer_bits_def mask_numeral)

text \<open>
  Text of the type with the long length is lost: whatever it holds, a variant of type \<open>string16\<close> is
  encoded as the invalid value of its type, and bytes of that type are read as a variant of type
  \<open>string\<close>, never \<open>string16\<close>.
\<close>

theorem string16_lost:
  "Encode (variant_codec (Suc fuel) floor_log2) (ZclVariant DataType_string16 d) = Inr [DataType_string16, 0xFF, 0xFF] \<and>
   (dec (variant_codec (Suc fuel) floor_log2) (DataType_string16 # bs) = Inr (v, rest) \<longrightarrow> variant_type v = DataType_string)"
proof
  have helper: "VariantEncodeHelperImpl floor_log2 (variant_codec fuel floor_log2) DataType_string16 = string_helper DataType_string 2"
    by (simp add: VariantEncodeHelperImpl_def)
  have "Get DataType_string (ZclVariant DataType_string16 d) = None" by (simp add: Get_def split: option.split)
  moreover have "le_bytes 2 (65535 :: 64 word) = [0xFF, 0xFF]" by code_simp
  ultimately show "Encode (variant_codec (Suc fuel) floor_log2) (ZclVariant DataType_string16 d) = Inr [DataType_string16, 0xFF, 0xFF]"
    by (simp add: variant_enc helper string_helper_def vector_helper_def length_enc_eq del: variant_codec.simps)
  show "dec (variant_codec (Suc fuel) floor_log2) (DataType_string16 # bs) = Inr (v, rest) \<longrightarrow> variant_type v = DataType_string"
    by (auto simp: variant_dec helper string_helper_def vector_helper_def res_bind_eq_Inr Create_invalid_def Create_value_def
        simp del: variant_codec.simps split: if_splits)
qed

lemma string16_lost_witness:
  "Encode (variant_codec 1 (\<lambda>x. 0)) (Create_value DataType_string16 (Stored_string [0x68, 0x69])) = Inr [DataType_string16, 0xFF, 0xFF] \<and>
   (\<exists>v. dec (variant_codec 1 (\<lambda>x. 0)) [DataType_string16, 0xFF, 0xFF] = Inr (v, []) \<and> variant_type v = DataType_string)"
proof -
  have "dec (variant_codec (Suc 0) (\<lambda>x. 0)) [DataType_string16, 0xFF, 0xFF] = Inr (Create_invalid DataType_string, [])"
    by (simp add: variant_dec VariantEncodeHelperImpl_def string_helper_def vector_helper_def length_dec_def byte_shifts_def
        upt_rec del: variant_codec.simps)
  with string16_lost [of 0 "\<lambda>x. 0" "Some (Stored_string [0x68, 0x69])" "[0xFF, 0xFF]" "Create_invalid DataType_string" "[]"]
  show ?thesis by (simp add: Create_value_def del: variant_codec.simps)
qed

text \<open>
  The length of a string of type \<open>octstr\<close> or \<open>string\<close> is written modulo 256, but all its bytes are
  written: a longer string is read back cut to that length, the rest of its bytes is left to whatever is
  decoded next, and a string of 255 bytes is read back as the invalid value.
\<close>

theorem long_string_cut:
  assumes "DT = DataType_octstr \<or> DT = DataType_string"
  shows "\<exists>bs. Encode (variant_codec (Suc fuel) floor_log2) (Create_value DT (Stored_string s)) = Inr bs \<and>
    dec (variant_codec (Suc fuel) floor_log2) (bs @ rest) = Inr (
      if length s mod 256 = 255 then (Create_invalid DT, s @ rest)
      else (Create_value DT (Stored_string (take (length s mod 256) s)), drop (length s mod 256) s @ rest))"
proof -
  let ?h = "string_helper DT 1"
  have helper: "VariantEncodeHelperImpl floor_log2 (variant_codec fuel floor_log2) DT = ?h"
    using assms by (auto simp: VariantEncodeHelperImpl_def)
  have got: "Get DT (Create_value DT (Stored_string s)) = Some (Stored_string s)"
    using assms by (auto simp: Get_def Create_value_def from_storage_def)
  have s: "concat (map (le_bytes 1) xs) = xs" for xs :: "byte list" by (induction xs) simp_all
  have all: "list_all (\<lambda>b. True) xs" for xs :: "byte list" by (simp add: list_all_iff)
  have cut: "take k s @ drop k s @ r = s @ r" for k r by (metis append_assoc append_take_drop_id)
  have low: "ucast (word_of_nat n :: 64 word) = (word_of_nat n :: byte)" for n
    by (rule bit_word_eqI) (auto simp: bit_simps)
  note string_defs = string_helper_def vector_helper_def signed_codec_eq
  have size: "GetSize ?h (Create_value DT (Stored_string s)) = Inr (1 + length s)"
    using uint8.sum_sizes_img [OF all, of 1 s] by (simp add: string_defs got s [simplified])
  have written: "enc ?h (Create_value DT (Stored_string s)) (1 + length s) = Inr (word_of_nat (length s) # s, 0)"
    using uint8.encode_each_img [OF all, of s "length s"] by (simp add: string_defs got length_enc_eq s [simplified] low)
  have n: "length_dec 1 (word_of_nat (length s) # r) = Inr (length s mod 256, r)" for r
    using length_dec_eq [of 1 "word_of_nat (length s) # r"]
    by (simp add: unsigned_ucast_eq unsigned_of_nat take_bit_eq_mod)
  have "decode_each (dec unsigned_codec) (length s mod 256) (s @ rest) =
      Inr (take (length s mod 256) s, drop (length s mod 256) s @ rest)"
    using uint8.decode_each_img [OF all, of "take (length s mod 256) s" "drop (length s mod 256) s @ rest"] by (simp add: s [simplified] cut)
  with n have "dec ?h (word_of_nat (length s) # s @ rest) = Inr (
      if length s mod 256 = 255 then (Create_invalid DT, s @ rest)
      else (Create_value DT (Stored_string (take (length s mod 256) s)), drop (length s mod 256) s @ rest))"
    by (simp add: string_defs)
  with size written show ?thesis
    by (intro exI [of _ "DT # word_of_nat (length s) # s"])
      (simp add: variant_enc variant_dec helper Create_value_def del: variant_codec.simps)
qed

lemma long_string_cut_witness:
  "\<exists>bs. Encode (variant_codec 1 (\<lambda>x. 0)) (Create_value DataType_string (Stored_string (replicate 300 7))) = Inr bs \<and>
    dec (variant_codec 1 (\<lambda>x. 0)) (bs @ [1]) = Inr (Create_value DataType_string (Stored_string (replicate 44 7)), replicate 256 7 @ [1])"
  using long_string_cut [of DataType_string 0 "\<lambda>x. 0" "replicate 300 7" "[1]"] by (simp del: variant_codec.simps)

end
