(* ===== verification/Coroutine.thy ===== *)
theory Coroutine
  imports ZnpRequests HubInvariants
begin

text \<open>
  Coroutines on the event loop (\<^verbatim>\<open>src/coro.h\<close>). A coroutine runs from one \<open>await\<close> to the next; the
  loop resumes it some time after the future it waits for is done. The state of the model is the
  request layer with the number of awaits so far. What the loop handles while the coroutine
  waits for the \<open>n\<close>-th time, up to its resumption or the end of the observed run, is the list
  \<open>loop n\<close>: every interleaving of the dongle with the coroutine is such a function, and a run that
  stops while the coroutine waits ends as \<open>Suspended\<close>.
\<close>

section \<open>The event loop\<close>

datatype loop_event =
    Frame_handled ZnpCommandType ZnpCommand "byte list"
  | Timer_handled timer
  | Write_handled bool

definition handle :: "loop_event \<Rightarrow> api \<Rightarrow> api" where
  "handle ev a = (case ev of
       Frame_handled type command payload \<Rightarrow> OnFrame type command payload a
     | Timer_handled t \<Rightarrow> TimerExpired t a
     | Write_handled error \<Rightarrow> (case SendHandler error (raw a) of
         (port, evs) \<Rightarrow> a\<lparr> raw := port, outputs := outputs a @ evs \<rparr>))"

definition handle_all :: "loop_event list \<Rightarrow> api \<Rightarrow> api" where
  "handle_all evs a = foldl (\<lambda>a ev. handle ev a) a evs"

section \<open>Coroutines\<close>

datatype 'a progress = Going_on 'a | Threw error | Suspended

type_synonym 'a coroutine = "api \<times> nat \<Rightarrow> (api \<times> nat) \<times> 'a progress"

definition co_return :: "'a \<Rightarrow> 'a coroutine" where
  "co_return x s = (s, Going_on x)"

definition co_bind :: "'a coroutine \<Rightarrow> ('a \<Rightarrow> 'b coroutine) \<Rightarrow> 'b coroutine" where
  "co_bind m k s = (case m s of
       (s', Going_on x) \<Rightarrow> k x s'
     | (s', Threw e) \<Rightarrow> (s', Threw e)
     | (s', Suspended) \<Rightarrow> (s', Suspended))"

lemma co_bind_assoc: "co_bind (co_bind m k) h = co_bind m (\<lambda>x. co_bind (k x) h)"
  by (rule ext) (simp add: co_bind_def split: prod.split progress.split)

lemma co_bind_return: "co_bind (co_return x) k = k x"
  by (rule ext) (simp add: co_bind_def co_return_def)

text \<open>A call of the request layer between two awaits.\<close>

definition co_call :: "'a call \<Rightarrow> 'a coroutine" where
  "co_call m s = (case s of (a, n) \<Rightarrow> (case m a of
       (a', Inl e) \<Rightarrow> ((a', n), Threw e)
     | (a', Inr x) \<Rightarrow> ((a', n), Going_on x)))"

text \<open>\<open>Await::operator()\<close>: wait, then rethrow the exception of the future or return its value.\<close>

definition Await :: "(nat \<Rightarrow> loop_event list) \<Rightarrow> (api \<Rightarrow> (error + 'a) option) \<Rightarrow> 'a coroutine" where
  "Await loop result s = (case s of (a, n) \<Rightarrow>
     let a' = handle_all (loop n) a in
     case result a' of
       None \<Rightarrow> ((a', n), Suspended)
     | Some (Inl e) \<Rightarrow> ((a', Suc n), Threw e)
     | Some (Inr x) \<Rightarrow> ((a', Suc n), Going_on x))"

text \<open>\<open>coro::Run\<close> and \<open>RunInCoro\<close>: the promise gets the value or the exception of the coroutine.\<close>

definition Run :: "'a coroutine \<Rightarrow> api \<Rightarrow> api \<times> (error + 'a) option" where
  "Run f a = (case f (a, 0) of
       ((a', n), Going_on x) \<Rightarrow> (a', Some (Inr x))
     | ((a', n), Threw e) \<Rightarrow> (a', Some (Inl e))
     | ((a', n), Suspended) \<Rightarrow> (a', None))"

section \<open>Futures that are awaited\<close>

definition reset_result :: "promise \<Rightarrow> api \<Rightarrow> (error + ResetInfo) option" where
  "reset_result p a = map_option Inr (map_of (reset_settled a) p)"

definition state_result :: "promise \<Rightarrow> api \<Rightarrow> (error + DeviceState) option" where
  "state_result p a = map_of (state_settled a) p"

definition future_result :: "'a future \<Rightarrow> api \<Rightarrow> (error + 'a) option" where
  "future_result f a = future_value a f"

text \<open>
  \<open>stlab::when_all\<close> on several futures: the exception of the first one that failed, or all values.
\<close>

definition failure_of :: "'a future list \<Rightarrow> promise \<times> (error + byte list) \<Rightarrow> error option" where
  "failure_of fs e = (case e of (p, r) \<Rightarrow>
     (case List.find (\<lambda>f. case f of Future q d \<Rightarrow> q = p) fs of
        None \<Rightarrow> None
      | Some (Future q d) \<Rightarrow> (case res_bind r d of Inl e \<Rightarrow> Some e | Inr x \<Rightarrow> None)))"

definition when_all :: "'a future list \<Rightarrow> api \<Rightarrow> (error + 'a list) option" where
  "when_all fs a = (case List.map_filter (failure_of fs) (settled a) of
       e # es \<Rightarrow> Some (Inl e)
     | [] \<Rightarrow> if list_all (\<lambda>f. future_value a f \<noteq> None) fs
         then Some (Inr (map (\<lambda>f. projr (the (future_value a f))) fs)) else None)"

text \<open>Requests sent one after the other, as the arguments of a call are evaluated.\<close>

fun calls :: "'a call list \<Rightarrow> 'a list call" where
  "calls [] a = (a, Inr [])"
| "calls (m # ms) a = (case m a of
       (a', Inl e) \<Rightarrow> (a', Inl e)
     | (a', Inr x) \<Rightarrow> (case calls ms a' of (a'', r) \<Rightarrow> (a'', res_bind r (\<lambda>xs. Inr (x # xs)))))"

section \<open>What is sent\<close>

text \<open>The frames that were accepted for sending, in order.\<close>

type_synonym frame = "ZnpCommandType \<times> ZnpCommand \<times> byte list"

definition frame_sent :: "port_event \<Rightarrow> frame option" where
  "frame_sent ev = (case ev of On_sent type command payload \<Rightarrow> Some (type, command, payload) | _ \<Rightarrow> None)"

definition sent :: "api \<Rightarrow> frame list" where
  "sent a = List.map_filter frame_sent (outputs a)"

end
