(* ===== verification/HubStartup.thy ===== *)
theory HubStartup
  imports Coroutine HubMqtt MqttUrl
begin

text \<open>
  The start of the programme (\<^verbatim>\<open>src/main.cpp\<close>): the configuration of the dongle
  (\<open>FullConfiguration\<close>, \<open>ReadFullConfiguration\<close>, \<open>WriteFullConfiguration\<close>), the coroutine
  \<open>Initialize\<close>, and what \<open>main\<close> makes of its options.

  C++ does not fix the order in which the arguments of \<open>when_all\<close> are evaluated, and so the order in
  which the eight requests are sent: it is the parameter \<open>order\<close>, a list of positions.
\<close>

section \<open>Configurations\<close>

record FullConfiguration =
  startup_option :: StartupOption
  pan_id :: "16 word"
  extended_pan_id :: "64 word"
  chan_list :: "32 word"
  logical_type :: LogicalType
  presharedkey :: "byte list"
  precfgkeys_enable :: bool
  zdo_direct_cb :: bool

definition same_configuration :: "FullConfiguration \<Rightarrow> FullConfiguration \<Rightarrow> bool" where
  "same_configuration this other \<longleftrightarrow>
     startup_option this = startup_option other \<and>
     (pan_id this = pan_id other \<or> pan_id this = 0xFFFF \<or> pan_id other = 0xFFFF) \<and>
     extended_pan_id this = extended_pan_id other \<and>
     chan_list this = chan_list other \<and>
     logical_type this = logical_type other \<and>
     presharedkey this = presharedkey other \<and>
     precfgkeys_enable this = precfgkeys_enable other \<and>
     zdo_direct_cb this = zdo_direct_cb other"

text \<open>The codecs of \<open>ConfigurationOptionInfo\<close>.\<close>

definition presharedkey_codec :: "byte list codec" where
  "presharedkey_codec = array_codec 16 unsigned_codec"

text \<open>
  Each argument of \<open>when_all\<close> in \<open>ReadFullConfiguration\<close> with the assignment to \<open>retval\<close> that is made
  of its value; all fields are assigned, so the initial \<open>retval\<close> does not matter.
\<close>

definition read_request :: "'a codec \<Rightarrow> ConfigurationOption \<Rightarrow> ('a \<Rightarrow> FullConfiguration \<Rightarrow> FullConfiguration)
    \<Rightarrow> (FullConfiguration \<Rightarrow> FullConfiguration) future call" where
  "read_request c opt assign = call_then (SapiReadConfiguration c opt) (\<lambda>x. Inr (assign x))"

definition read_requests :: "(FullConfiguration \<Rightarrow> FullConfiguration) future call list" where
  "read_requests =
    [read_request enum_codec ConfigurationOption_STARTUP_OPTION (\<lambda>x r. r\<lparr> startup_option := x \<rparr>),
     read_request unsigned_codec ConfigurationOption_PANID (\<lambda>x r. r\<lparr> pan_id := x \<rparr>),
     read_request unsigned_codec ConfigurationOption_EXTENDED_PAN_ID (\<lambda>x r. r\<lparr> extended_pan_id := x \<rparr>),
     read_request unsigned_codec ConfigurationOption_CHANLIST (\<lambda>x r. r\<lparr> chan_list := x \<rparr>),
     read_request enum_codec ConfigurationOption_LOGICAL_TYPE (\<lambda>x r. r\<lparr> logical_type := x \<rparr>),
     read_request presharedkey_codec ConfigurationOption_PRECFGKEY (\<lambda>x r. r\<lparr> presharedkey := x \<rparr>),
     read_request bool_codec ConfigurationOption_PRECFGKEYS_ENABLE (\<lambda>x r. r\<lparr> precfgkeys_enable := x \<rparr>),
     read_request bool_codec ConfigurationOption_ZDO_DIRECT_CB (\<lambda>x r. r\<lparr> zdo_direct_cb := x \<rparr>)]"

definition unset_configuration :: FullConfiguration where
  "unset_configuration = \<lparr> startup_option = 0, pan_id = 0, extended_pan_id = 0, chan_list = 0,
     logical_type = 0, presharedkey = [], precfgkeys_enable = False, zdo_direct_cb = False \<rparr>"

definition ReadFullConfiguration :: "nat list \<Rightarrow> (nat \<Rightarrow> loop_event list) \<Rightarrow> FullConfiguration coroutine" where
  "ReadFullConfiguration order loop =
     co_bind (co_call (calls (map (\<lambda>i. read_requests ! i) order))) (\<lambda>futures.
     co_bind (Await loop (when_all futures)) (\<lambda>assignments.
     co_return (foldl (\<lambda>retval assign. assign retval) unset_configuration assignments)))"

definition write_requests :: "FullConfiguration \<Rightarrow> unit future call list" where
  "write_requests config =
    [SapiWriteConfiguration enum_codec ConfigurationOption_STARTUP_OPTION (startup_option config),
     SapiWriteConfiguration unsigned_codec ConfigurationOption_PANID (pan_id config),
     SapiWriteConfiguration unsigned_codec ConfigurationOption_EXTENDED_PAN_ID (extended_pan_id config),
     SapiWriteConfiguration unsigned_codec ConfigurationOption_CHANLIST (chan_list config),
     SapiWriteConfiguration enum_codec ConfigurationOption_LOGICAL_TYPE (logical_type config),
     SapiWriteConfiguration presharedkey_codec ConfigurationOption_PRECFGKEY (presharedkey config),
     SapiWriteConfiguration bool_codec ConfigurationOption_PRECFGKEYS_ENABLE (precfgkeys_enable config),
     SapiWriteConfiguration bool_codec ConfigurationOption_ZDO_DIRECT_CB (zdo_direct_cb config)]"

definition WriteFullConfiguration :: "nat list \<Rightarrow> (nat \<Rightarrow> loop_event list) \<Rightarrow> FullConfiguration \<Rightarrow> unit coroutine" where
  "WriteFullConfiguration order loop config =
     co_bind (co_call (calls (map (\<lambda>i. write_requests config ! i) order))) (\<lambda>futures.
     co_bind (Await loop (when_all futures)) (\<lambda>u. co_return ()))"

section \<open>Initialize\<close>

text \<open>A request and the wait for its future.\<close>

definition await_call :: "(nat \<Rightarrow> loop_event list) \<Rightarrow> 'a future call \<Rightarrow> 'a coroutine" where
  "await_call loop m = co_bind (co_call m) (\<lambda>f. Await loop (future_result f))"

definition await_reset :: "(nat \<Rightarrow> loop_event list) \<Rightarrow> ResetInfo coroutine" where
  "await_reset loop = co_bind (co_call (SysReset True)) (\<lambda>p. Await loop (reset_result p))"

definition desired_configuration :: "16 word \<Rightarrow> 32 word \<Rightarrow> byte list \<Rightarrow> IEEEAddress \<Rightarrow> FullConfiguration" where
  "desired_configuration pan channels psk coord_ieee_addr =
     \<lparr> startup_option = StartupOption_None, pan_id = pan, extended_pan_id = coord_ieee_addr,
       chan_list = channels, logical_type = LogicalType_Coordinator, presharedkey = psk,
       precfgkeys_enable = False, zdo_direct_cb = True \<rparr>"

text \<open>The part between reading the configuration and starting the network.\<close>

definition Configure :: "nat list \<Rightarrow> (nat \<Rightarrow> loop_event list) \<Rightarrow> FullConfiguration \<Rightarrow> FullConfiguration \<Rightarrow> unit coroutine" where
  "Configure order loop desired_config current_config =
     (if \<not> same_configuration current_config desired_config then
        co_bind (await_call loop (SapiWriteConfiguration enum_codec ConfigurationOption_STARTUP_OPTION
            (StartupOption_ClearConfig OR StartupOption_ClearState))) (\<lambda>u.
        co_bind (await_reset loop) (\<lambda>info.
        WriteFullConfiguration order loop desired_config))
      else co_return ())"

definition StartNetwork :: "(nat \<Rightarrow> loop_event list) \<Rightarrow> DeviceState coroutine" where
  "StartNetwork loop =
     co_bind (co_call (WaitForState [DeviceState_ZB_COORD]
         [DeviceState_COORD_STARTING, DeviceState_HOLD, DeviceState_INIT])) (\<lambda>future_state.
     co_bind (await_call loop (ZdoStartupFromApp 100)) (\<lambda>ret.
     Await loop (state_result future_state)))"

definition Initialize :: "nat list \<Rightarrow> nat list \<Rightarrow> (nat \<Rightarrow> loop_event list) \<Rightarrow> 16 word \<Rightarrow> 32 word \<Rightarrow> byte list
    \<Rightarrow> endpoint coroutine" where
  "Initialize read_order write_order loop pan channels psk =
     co_bind (await_reset loop) (\<lambda>info.
     co_bind (await_call loop (SapiGetDeviceInfo unsigned_codec DeviceInfo_DeviceIEEEAddress)) (\<lambda>coord_ieee_addr.
     let desired_config = desired_configuration pan channels psk coord_ieee_addr in
     co_bind (ReadFullConfiguration read_order loop) (\<lambda>current_config.
     co_bind (Configure write_order loop desired_config current_config) (\<lambda>u.
     co_bind (StartNetwork loop) (\<lambda>device_state.
     co_bind (await_call loop (ZdoMgmtPermitJoin AddrMode_ShortAddress 0 0 0)) (\<lambda>dst.
     await_call loop (Create 1 0x0104 5 0 Latency_NoLatency [] [])))))))"

text \<open>
  The slots are connected when the endpoint is there, and the topics are subscribed: from then on the
  hub and the MQTT connection run together.
\<close>

definition topic_filters :: "string \<Rightarrow> subscription list" where
  "topic_filters prefix =
     [(prefix @ controlTopic @ ''#'', qos_at_least_once), (prefix @ ''+/+/out/#'', qos_at_least_once)]"

definition start_hub :: "string \<Rightarrow> api \<Rightarrow> endpoint \<Rightarrow> wrapper \<Rightarrow> system" where
  "start_hub prefix a ep w = \<lparr> the_hub = hub_ctor a ep, the_mqtt = Subscribe (fset_of_list (topic_filters prefix)) w \<rparr>"

section \<open>Options\<close>

text \<open>
  The options as \<open>boost::program_options\<close> delivers them (those with a default value are always there).
  Reading the cluster file, opening the serial port and \<open>boost::algorithm::unhex\<close> are parameters.
  An exception outside the \<open>try\<close> blocks leaves \<open>main\<close>: \<open>Uncaught\<close>.
\<close>

record variables =
  var_help :: bool
  var_port :: "string option"
  var_mqtt :: string
  var_topic :: string
  var_instance_id :: string
  var_panid :: "16 word"
  var_psk :: "string option"
  var_pskhex :: "string option"
  var_cluster_info :: string
  var_recursive_publish :: bool
  var_channelmask :: string

record machine =
  read_info :: "string \<Rightarrow> error + ptree"
  open_serial_port :: "string \<Rightarrow> error + unit"
  unhex :: "string \<Rightarrow> error + byte list"
  websockets_built_in :: bool

record launch =
  launch_settings :: settings
  launch_client :: mqtt_client
  launch_pan_id :: "16 word"
  launch_channels :: "32 word"
  launch_psk :: "byte list"

datatype start = Exit_success | Exit_failure | Uncaught error | Launched launch

definition CHANNEL_ALL_MASK :: "32 word" where
  "CHANNEL_ALL_MASK = 0x07FFF800"

definition string_bytes :: "string \<Rightarrow> byte list" where
  "string_bytes s = map (\<lambda>c. of_char c) s"

text \<open>\<open>presharedkey.fill(0)\<close> and \<open>std::copy_n\<close> of at most 16 bytes to its start.\<close>

definition padded_key :: "byte list \<Rightarrow> byte list" where
  "padded_key bs = take 16 bs @ replicate (16 - length bs) 0"

text \<open>The key, or \<open>None\<close> where \<open>main\<close> gives up.\<close>

definition choose_psk :: "machine \<Rightarrow> variables \<Rightarrow> byte list option" where
  "choose_psk m vars = (case (var_psk vars, var_pskhex vars) of
       (Some _, Some _) \<Rightarrow> None
     | (Some presharedkey_str, None) \<Rightarrow> Some (padded_key (string_bytes presharedkey_str))
     | (None, Some hex) \<Rightarrow> (case unhex m hex of
           Inl e \<Rightarrow> None
         | Inr presharedkey_input \<Rightarrow>
             if length presharedkey_input > 16 then None else Some (padded_key presharedkey_input))
     | (None, None) \<Rightarrow> Some (padded_key (string_bytes ''AqaraHub'')))"

definition main_launch :: "machine \<Rightarrow> variables \<Rightarrow> ClusterDb \<Rightarrow> mqtt_client \<Rightarrow> start" where
  "main_launch m vars db client =
     (let prefix = MakePrefixEndWithSlash (var_topic vars) in
      case choose_psk m vars of
        None \<Rightarrow> Exit_failure
      | Some key \<Rightarrow> (case stoul (var_channelmask vars) 0 of
          Inl e \<Rightarrow> Uncaught e
        | Inr (channels, endpos) \<Rightarrow> Launched \<lparr>
            launch_settings = \<lparr> mqtt_prefix = prefix, instance_id = var_instance_id vars,
              mqtt_recursive_publish = var_recursive_publish vars, cluster_db = db \<rparr>,
            launch_client = client,
            launch_pan_id = var_panid vars,
            launch_channels = ucast (word_of_nat channels AND ucast CHANNEL_ALL_MASK :: 64 word),
            launch_psk = key \<rparr>))"

definition main_start :: "machine \<Rightarrow> error + variables \<Rightarrow> start" where
  "main_start m parsed_options = (case parsed_options of
       Inl e \<Rightarrow> Exit_failure
     | Inr vars \<Rightarrow>
        if var_help vars \<or> var_port vars = None then Exit_success
        else (case read_info m (var_cluster_info vars) of
          Inl e \<Rightarrow> Uncaught e
        | Inr tree \<Rightarrow> (case ParseFromStream MakeNameSafeForMqtt tree ClusterDb_ctor of
            (db, Inl e) \<Rightarrow> Uncaught e
          | (db, Inr False) \<Rightarrow> Exit_failure
          | (db, Inr True) \<Rightarrow> (case open_serial_port m (the (var_port vars)) of
              Inl e \<Rightarrow> Uncaught e
            | Inr u \<Rightarrow> (case FromUrl (websockets_built_in m) (var_mqtt vars) (var_instance_id vars) of
                Inl e \<Rightarrow> Exit_failure
              | Inr client \<Rightarrow> main_launch m vars db client)))))"

text \<open>
  The coroutine of the launched programme. Its exception is logged and stops the loop with
  \<open>EXIT_FAILURE\<close>; a failed operation on the serial port does the same.
\<close>

datatype running = Still_starting | Stopped_with_failure | Running_hub system

definition main_run :: "nat list \<Rightarrow> nat list \<Rightarrow> (nat \<Rightarrow> loop_event list) \<Rightarrow> launch \<Rightarrow> wrapper \<Rightarrow> api \<Rightarrow> api \<times> running" where
  "main_run read_order write_order loop l w a =
     (case Run (Initialize read_order write_order loop (launch_pan_id l) (launch_channels l) (launch_psk l)) a of
        (a', result) \<Rightarrow> (a',
          if On_error \<in> set (outputs a') then Stopped_with_failure
          else case result of
            None \<Rightarrow> Still_starting
          | Some (Inl exc) \<Rightarrow> Stopped_with_failure
          | Some (Inr ep) \<Rightarrow> Running_hub (start_hub (mqtt_prefix (launch_settings l)) a' ep w)))"

end
