(* ===== verification/CoroutineSends.thy ===== *)
theory CoroutineSends
  imports Coroutine "HOL-Library.Sublist"
begin

text \<open>
  What a coroutine sends. \<open>issues m fs\<close> says that a call sends the frames \<open>fs\<close> and does
  not throw; \<open>performs c F\<close> that a coroutine that returns \<open>x\<close> has sent a sequence in \<open>F x\<close>, and one that
  throws or still waits has sent the beginning of one. Nothing else sends a frame: the handlers of
  frames and timers do not, so the interleaving does not matter.
\<close>

section \<open>Only the coroutine sends\<close>

lemma outputs_call_promise [simp]: "outputs (call_promise p r s) = outputs s"
  by (auto simp: call_promise_def continue_with_def log_result_def WaitFor_def AddHandlerWithTimeout_def
    Let_def split: option.splits continuation.splits sum.splits)

lemma outputs_emit [simp]: "outputs (emit ev s) = outputs s"
  by (cases ev; simp add: emit_def reset_slot_def state_change_slot_def Let_def)

lemma outputs_deactivate [simp]: "outputs (deactivate t s) = outputs s"
  by (simp add: deactivate_def)

lemma outputs_call_handler: "outputs (fst (call_handler h type cmd data s)) = outputs s"
proof (induction h)
  case (With_timeout t h)
  then show ?case by (simp add: Let_def case_prod_beta)
qed (simp_all split: sum.splits option.splits)

lemma outputs_OnFrame_loop: "outputs (OnFrame_loop i type cmd data s) = outputs s"
proof (induction i type cmd data s rule: OnFrame_loop.induct)
  case (1 i type cmd data s)
  obtain s' action where c: "call_handler (handlers s ! i) type cmd data s = (s', action)" by fastforce
  with outputs_call_handler [of "handlers s ! i" type cmd data s] 1 [OF _ c [symmetric] refl refl refl]
  show ?case by (subst OnFrame_loop.simps) (simp add: Let_def)
qed

lemma sent_appended [simp]: "outputs a' = outputs a @ evs \<Longrightarrow> sent a' = sent a @ List.map_filter frame_sent evs"
  by (simp add: sent_def map_filter_def)

lemma sent_handle [simp]: "sent (handle ev a) = sent a"
proof (cases ev)
  case (Frame_handled type command payload)
  then show ?thesis by (simp add: handle_def sent_def OnFrame_def outputs_OnFrame_loop)
next
  case (Timer_handled t)
  then show ?thesis by (simp add: handle_def sent_def TimerExpired_def split: option.split)
next
  case (Write_handled error)
  have "List.map_filter frame_sent (snd (SendHandler error p)) = []" for p
    by (simp add: SendHandler_def TrySend_def frame_sent_def map_filter_def split: list.split)
  then show ?thesis by (simp add: Write_handled handle_def case_prod_beta sent_def map_filter_def)
qed

lemma sent_handle_all [simp]: "sent (handle_all evs a) = sent a"
  by (induction evs arbitrary: a) (simp_all add: handle_all_def)

section \<open>Calls\<close>

definition issues :: "'a call \<Rightarrow> frame list \<Rightarrow> bool" where
  "issues m fs \<longleftrightarrow> (\<forall>a. \<exists>a' x. m a = (a', Inr x) \<and> sent a' = sent a @ fs)"

lemma issuesE:
  assumes "issues m fs"
  obtains a' x where "m a = (a', Inr x)" "sent a' = sent a @ fs"
  using assms unfolding issues_def by blast

lemma frames_TrySend [simp]: "List.map_filter frame_sent (snd (TrySend s)) = []"
  by (simp add: TrySend_def frame_sent_def map_filter_def split: list.split)

lemma sends_frame:
  assumes "length payload \<le> 255"
  obtains a' where "raw_SendFrame type command payload a = (a', Inr ())" "sent a' = sent a @ [(type, command, payload)]"
  using assms frames_TrySend [of "raw a\<lparr> send_queue := send_queue (raw a) @ [frame_buffer type command payload] \<rparr>"]
  by (auto simp: raw_SendFrame_def SendFrame_def case_prod_beta sent_def map_filter_def frame_sent_def)

lemma issues_request:
  assumes "length payload \<le> 255"
  shows "issues (RawSReq command payload) [(ZnpCommandType_SREQ, command, payload)]"
  unfolding issues_def
proof
  fix a :: api
  let ?a = "a\<lparr> next_promise := Suc (next_promise a), handlers := handlers a @ [SReq [command] (next_promise a)] \<rparr>"
  obtain a' where "raw_SendFrame ZnpCommandType_SREQ command payload ?a = (a', Inr ())"
    "sent a' = sent ?a @ [(ZnpCommandType_SREQ, command, payload)]" by (rule sends_frame [OF assms])
  then show "\<exists>a' x. RawSReq command payload a = (a', Inr x) \<and> sent a' = sent a @ [(ZnpCommandType_SREQ, command, payload)]"
    by (simp add: RawSReq_def RawSReq_any_def Let_def sent_def)
qed

lemma issues_reset: "issues (SysReset True) [(ZnpCommandType_AREQ, SysCmd SysCommand_RESET, [1])]"
  unfolding issues_def
proof
  fix a :: api
  let ?a = "a\<lparr> next_promise := Suc (next_promise a), reset_slots := reset_slots a @ [next_promise a] \<rparr>"
  obtain a' where "raw_SendFrame ZnpCommandType_AREQ (SysCmd SysCommand_RESET) [1] ?a = (a', Inr ())"
    "sent a' = sent ?a @ [(ZnpCommandType_AREQ, SysCmd SysCommand_RESET, [1])]"
    by (rule sends_frame [of "[1]"]) simp_all
  moreover have "Encode bool_codec True = Inr [1]" by (simp add: bool.encode_img bool_img_def)
  ultimately show "\<exists>a' x. SysReset True a = (a', Inr x) \<and> sent a' = sent a @ [(ZnpCommandType_AREQ, SysCmd SysCommand_RESET, [1])]"
    by (simp add: SysReset_def Let_def call_with_def sent_def)
qed

lemma issues_then: "issues m fs \<Longrightarrow> issues (call_then m g) fs"
  unfolding issues_def
proof
  fix a
  assume "\<forall>a. \<exists>a' x. m a = (a', Inr x) \<and> sent a' = sent a @ fs"
  then obtain a' f where "m a = (a', Inr f)" "sent a' = sent a @ fs" by blast
  then show "\<exists>a' x. call_then m g a = (a', Inr x) \<and> sent a' = sent a @ fs" by (simp add: call_then_def)
qed

lemma issues_with: "r = Inr x \<Longrightarrow> issues (m x) fs \<Longrightarrow> issues (call_with r m) fs"
  by (simp add: issues_def call_with_def)

lemma issues_wait_after:
  assumes "issues m fs"
  shows "issues (WaitAfter m type command timeout data_prefix) fs"
  unfolding issues_def
proof
  fix a
  obtain a' f where f: "m a = (a', Inr f)" "sent a' = sent a @ fs" by (rule issuesE [OF assms])
  then show "\<exists>a' x. WaitAfter m type command timeout data_prefix a = (a', Inr x) \<and> sent a' = sent a @ fs"
    by (cases f) (simp add: WaitAfter_def Let_def sent_def)
qed

lemma issues_calls:
  assumes "list_all2 (\<lambda>m f. issues m [f]) ms fs"
  shows "issues (calls ms) fs"
  using assms
proof (induction ms fs rule: list_all2_induct)
  case Nil
  show ?case by (simp add: issues_def)
next
  case (Cons m ms f fs)
  show ?case unfolding issues_def
  proof
    fix a
    obtain a1 x where 1: "m a = (a1, Inr x)" "sent a1 = sent a @ [f]" by (rule issuesE [OF Cons.hyps(1)])
    obtain a2 xs where "calls ms a1 = (a2, Inr xs)" "sent a2 = sent a1 @ fs" by (rule issuesE [OF Cons.IH])
    with 1 show "\<exists>a' x. calls (m # ms) a = (a', Inr x) \<and> sent a' = sent a @ f # fs" by simp
  qed
qed

section \<open>Coroutines\<close>

definition begun :: "('a \<Rightarrow> frame list set) \<Rightarrow> frame list \<Rightarrow> bool" where
  "begun F new \<longleftrightarrow> (\<exists>x full. full \<in> F x \<and> prefix new full)"

definition performed :: "('a \<Rightarrow> frame list set) \<Rightarrow> 'a progress \<Rightarrow> frame list \<Rightarrow> bool" where
  "performed F r new = (case r of Going_on x \<Rightarrow> new \<in> F x | _ \<Rightarrow> begun F new)"

lemma performed_simps [simp]:
  "performed F (Going_on x) new \<longleftrightarrow> new \<in> F x"
  "performed F (Threw e) new = begun F new"
  "performed F Suspended new = begun F new"
  by (simp_all add: performed_def)

definition performs :: "'a coroutine \<Rightarrow> ('a \<Rightarrow> frame list set) \<Rightarrow> bool" where
  "performs c F \<longleftrightarrow> (\<forall>s s' r. c s = (s', r) \<longrightarrow> (\<exists>new. sent (fst s') = sent (fst s) @ new \<and> performed F r new))"

lemma performsI:
  "(\<And>s s' r. c s = (s', r) \<Longrightarrow> \<exists>new. sent (fst s') = sent (fst s) @ new \<and> performed F r new) \<Longrightarrow> performs c F"
  unfolding performs_def by blast

lemma performsE:
  assumes "performs c F" "c s = (s', r)"
  obtains new where "sent (fst s') = sent (fst s) @ new" "performed F r new"
  using assms unfolding performs_def by blast

text \<open>The frames of \<open>F\<close> and then those of \<open>G\<close>.\<close>

definition after :: "('a \<Rightarrow> frame list set) \<Rightarrow> ('a \<Rightarrow> 'b \<Rightarrow> frame list set) \<Rightarrow> 'b \<Rightarrow> frame list set" where
  "after F G y = {fs @ gs | fs gs x. fs \<in> F x \<and> gs \<in> G x y}"

lemma begun_first:
  assumes "begun F new" "\<And>x. \<exists>y full. full \<in> G x y"
  shows "begun (after F G) new"
proof -
  from assms(1) obtain x full where f: "full \<in> F x" "prefix new full" by (auto simp: begun_def)
  obtain y rest where "rest \<in> G x y" using assms(2) by blast
  with f(1) have "full @ rest \<in> after F G y" by (auto simp: after_def)
  with f(2) show ?thesis unfolding begun_def by (blast intro: prefix_prefix)
qed

lemma begun_second: "fs \<in> F x \<Longrightarrow> begun (G x) later \<Longrightarrow> begun (after F G) (fs @ later)"
  by (force simp: begun_def after_def)

lemma performs_return: "fs = [] \<Longrightarrow> performs (co_return x) (\<lambda>y. {fs})"
  by (simp add: performs_def co_return_def)

lemma performs_call:
  assumes "issues m fs"
  shows "performs (co_call m) (\<lambda>x. {fs})"
proof (rule performsI)
  fix s s' r
  assume c: "co_call m s = (s', r)"
  obtain a n where s: "s = (a, n)" by (cases s)
  obtain a' x where "m a = (a', Inr x)" "sent a' = sent a @ fs" by (rule issuesE [OF assms])
  with c s show "\<exists>new. sent (fst s') = sent (fst s) @ new \<and> performed (\<lambda>x. {fs}) r new"
    by (auto simp: co_call_def)
qed

lemma performs_await: "performs (Await loop result) (\<lambda>x. {[]})"
  by (rule performsI) (auto simp: Await_def Let_def begun_def split: prod.splits option.splits sum.splits)

lemma performs_bind:
  assumes c: "performs c F" and k: "\<And>x. performs (k x) (G x)" and some: "\<And>x. \<exists>y full. full \<in> G x y"
  shows "performs (co_bind c k) (after F G)"
proof (rule performsI)
  fix s s'' r
  assume b: "co_bind c k s = (s'', r)"
  obtain s' q where cs: "c s = (s', q)" by fastforce
  obtain new where new: "sent (fst s') = sent (fst s) @ new" "performed F q new" by (rule performsE [OF c cs])
  show "\<exists>new. sent (fst s'') = sent (fst s) @ new \<and> performed (after F G) r new"
  proof (cases q)
    case (Going_on x)
    with b cs have kx: "k x s' = (s'', r)" by (simp add: co_bind_def)
    obtain later where later: "sent (fst s'') = sent (fst s') @ later" "performed (G x) r later"
      by (rule performsE [OF k kx])
    have F: "new \<in> F x" using new(2) Going_on by simp
    have "performed (after F G) r (new @ later)"
      using later(2) F begun_second [where F = F and G = G and x = x, OF F] by (cases r) (auto simp: after_def)
    with later(1) new(1) show ?thesis by auto
  qed (use b cs new begun_first [OF _ some] in \<open>auto simp: co_bind_def\<close>)
qed

lemma performs_weaken:
  assumes "performs c F" "\<And>x. F x \<subseteq> G x"
  shows "performs c G"
proof (rule performsI)
  fix s s' r
  assume "c s = (s', r)"
  then obtain new where "sent (fst s') = sent (fst s) @ new" "performed F r new" by (rule performsE [OF assms(1)])
  moreover have "begun F new \<Longrightarrow> begun G new" using assms(2) by (auto simp: begun_def)
  ultimately show "\<exists>new. sent (fst s') = sent (fst s) @ new \<and> performed G r new"
    using assms(2) by (cases r) auto
qed

text \<open>A coroutine that always sends the same frames, followed by another one.\<close>

lemma performs_seq:
  assumes "performs c (\<lambda>x. {fs})" "\<And>x. performs (k x) (\<lambda>y. {gs})"
  shows "performs (co_bind c k) (\<lambda>y. {fs @ gs})"
  by (rule performs_weaken [OF performs_bind [OF assms]]) (auto simp: after_def)

end
