(* ===== verification/StartupProtocol.thy ===== *)
theory StartupProtocol
  imports HubStartup CoroutineSends
begin

text \<open>
  The frames of the start-up. \<open>Initialize\<close> is cut into what it reads from the dongle
  (\<open>startup_reads\<close>) and what it does with that (\<open>startup_sets\<close>). Whatever the dongle does and whenever,
  the coroutine sends the beginning of one fixed sequence for the values it has read, in which the
  configuration is written exactly when the one that was read differs from the wanted one, and the
  whole sequence when it returns.
\<close>

section \<open>The sequence\<close>

definition reset_frame :: frame where
  "reset_frame = (ZnpCommandType_AREQ, SysCmd SysCommand_RESET, [1])"

definition device_info_frame :: "DeviceInfo \<Rightarrow> frame" where
  "device_info_frame info = (ZnpCommandType_SREQ, SapiCmd SapiCommand_GET_DEVICE_INFO, [info])"

definition read_frame :: "ConfigurationOption \<Rightarrow> frame" where
  "read_frame opt = (ZnpCommandType_SREQ, SapiCmd SapiCommand_READ_CONFIGURATION, [opt])"

definition write_frame :: "ConfigurationOption \<times> byte list \<Rightarrow> frame" where
  "write_frame e = (ZnpCommandType_SREQ, SapiCmd SapiCommand_WRITE_CONFIGURATION,
     fst e # word_of_nat (length (snd e)) # snd e)"

text \<open>The bytes of every field, with the option it is stored under.\<close>

definition configuration_bytes :: "FullConfiguration \<Rightarrow> (ConfigurationOption \<times> byte list) list" where
  "configuration_bytes config =
    [(ConfigurationOption_STARTUP_OPTION, [startup_option config]),
     (ConfigurationOption_PANID, le_bytes 2 (pan_id config)),
     (ConfigurationOption_EXTENDED_PAN_ID, le_bytes 8 (extended_pan_id config)),
     (ConfigurationOption_CHANLIST, le_bytes 4 (chan_list config)),
     (ConfigurationOption_LOGICAL_TYPE, [logical_type config]),
     (ConfigurationOption_PRECFGKEY, presharedkey config),
     (ConfigurationOption_PRECFGKEYS_ENABLE, [if precfgkeys_enable config then 1 else 0]),
     (ConfigurationOption_ZDO_DIRECT_CB, [if zdo_direct_cb config then 1 else 0])]"

definition read_frames :: "nat list \<Rightarrow> frame list" where
  "read_frames order = map (\<lambda>i. read_frame (fst (configuration_bytes unset_configuration ! i))) order"

definition write_frames :: "nat list \<Rightarrow> FullConfiguration \<Rightarrow> frame list" where
  "write_frames order config = map (\<lambda>i. write_frame (configuration_bytes config ! i)) order"

definition configure_frames :: "nat list \<Rightarrow> FullConfiguration \<Rightarrow> FullConfiguration \<Rightarrow> frame list" where
  "configure_frames order desired current =
     (if same_configuration current desired then []
      else write_frame (ConfigurationOption_STARTUP_OPTION, [3]) # reset_frame # write_frames order desired)"

definition network_frames :: "frame list" where
  "network_frames =
    [device_info_frame DeviceInfo_DeviceState,
     (ZnpCommandType_SREQ, ZdoCmd ZdoCommand_STARTUP_FROM_APP, [100, 0]),
     (ZnpCommandType_SREQ, ZdoCmd ZdoCommand_MGMT_PERMIT_JOIN_REQ, [2, 0, 0, 0, 0]),
     (ZnpCommandType_SREQ, AfCmd AfCommand_REGISTER, [1, 4, 1, 5, 0, 0, 0, 0, 0])]"

definition reading_frames :: "nat list \<Rightarrow> frame list" where
  "reading_frames read_order = reset_frame # device_info_frame DeviceInfo_DeviceIEEEAddress # read_frames read_order"

definition startup_frames :: "nat list \<Rightarrow> nat list \<Rightarrow> FullConfiguration \<Rightarrow> FullConfiguration \<Rightarrow> frame list" where
  "startup_frames read_order write_order desired current =
     reading_frames read_order @ configure_frames write_order desired current @ network_frames"

text \<open>
  The two parts of the start-up: what it reads from the dongle, the address and the configuration held,
  and what it does with them.
\<close>

definition startup_reads :: "nat list \<Rightarrow> (nat \<Rightarrow> loop_event list) \<Rightarrow> (IEEEAddress \<times> FullConfiguration) coroutine" where
  "startup_reads read_order loop =
     co_bind (await_reset loop) (\<lambda>info.
     co_bind (await_call loop (SapiGetDeviceInfo unsigned_codec DeviceInfo_DeviceIEEEAddress)) (\<lambda>ieee.
     co_bind (ReadFullConfiguration read_order loop) (\<lambda>current.
     co_return (ieee, current))))"

definition startup_sets :: "nat list \<Rightarrow> (nat \<Rightarrow> loop_event list) \<Rightarrow> FullConfiguration \<Rightarrow> FullConfiguration \<Rightarrow> endpoint coroutine" where
  "startup_sets write_order loop desired current =
     co_bind (Configure write_order loop desired current) (\<lambda>u.
     co_bind (StartNetwork loop) (\<lambda>device_state.
     co_bind (await_call loop (ZdoMgmtPermitJoin AddrMode_ShortAddress 0 0 0)) (\<lambda>dst.
     await_call loop (Create 1 0x0104 5 0 Latency_NoLatency [] []))))"

lemma Initialize_parts:
  "Initialize read_order write_order loop pan channels psk = co_bind (startup_reads read_order loop)
     (\<lambda>(ieee, current). startup_sets write_order loop (desired_configuration pan channels psk ieee) current)"
  by (simp add: Initialize_def startup_reads_def startup_sets_def Let_def co_bind_assoc co_bind_return)

section \<open>The requests\<close>

lemma Encode_small [simp]:
  "Encode unsigned_codec (w :: 8 word) = Inr [w]"
  "Encode bool_codec b = Inr [if b then 1 else 0]"
  by (simp_all add: uint8.encode_img bool.encode_img bool_img_def del: One_nat_def) simp

lemma Encode_wide [simp]:
  "Encode unsigned_codec (v :: 16 word) = Inr (le_bytes 2 v)"
  "Encode unsigned_codec (x :: 32 word) = Inr (le_bytes 4 x)"
  "Encode unsigned_codec (y :: 64 word) = Inr (le_bytes 8 y)"
  by (simp_all add: uint16.encode_img uint32.encode_img uint64.encode_img)

lemma Encode_option:
  assumes "length bs \<le> 255"
  shows "Encode (pair_codec enum_codec (vector_codec unsigned_codec)) (opt :: 8 word, bs :: byte list)
    = Inr (opt # word_of_nat (length bs) # bs)"
proof -
  show ?thesis
    using concat_le_bytes_1 [of bs, simplified] codec_laws.encode_img [OF canonical_imp_laws [OF uint8.pair_codec_canonical [OF bytes.canonical_codec_axioms]], of "(opt, bs)"] assms
    by (simp add: enum_codec_eq pair_img_def pair_ok_def vector_ok_def vector_img_def list_all_iff)
qed

lemma issues_device_info: "issues (SapiGetDeviceInfo c info) [device_info_frame info]"
  unfolding SapiGetDeviceInfo_def SapiGetDeviceInfoRaw_def device_info_frame_def
  by (intro issues_then issues_with [where x = "[info]"] issues_request) (simp_all add: enum_codec_eq)

lemma issues_read: "issues (read_request c opt assign) [read_frame opt]"
  unfolding read_request_def SapiReadConfiguration_def SapiReadConfigurationRaw_def read_frame_def
  by (intro issues_then issues_with [where x = "[opt]"] issues_request) (simp_all add: enum_codec_eq)

lemma issues_write:
  assumes "Encode c v = Inr bs" "length bs \<le> 253"
  shows "issues (SapiWriteConfiguration c opt v) [write_frame (opt, bs)]"
  unfolding SapiWriteConfiguration_def SapiWriteConfigurationRaw_def write_frame_def
  using assms by (intro issues_then issues_with [OF assms(1)]
    issues_with [where x = "opt # word_of_nat (length bs) # bs"]) (auto simp: Encode_option intro!: issues_then issues_request)

lemma issues_wait_for_state: "issues (WaitForState ends alloweds) [device_info_frame DeviceInfo_DeviceState]"
  unfolding issues_def
proof
  fix a
  obtain a' f where f: "SapiGetDeviceInfo (enum_codec :: DeviceState codec) DeviceInfo_DeviceState a = (a', Inr f)"
    "sent a' = sent a @ [device_info_frame DeviceInfo_DeviceState]" by (rule issuesE [OF issues_device_info])
  then show "\<exists>a' x. WaitForState ends alloweds a = (a', Inr x) \<and> sent a' = sent a @ [device_info_frame DeviceInfo_DeviceState]"
    by (cases f) (simp add: WaitForState_def Let_def sent_def)
qed

lemma issues_startup_from_app:
  "issues (ZdoStartupFromApp 100) [(ZnpCommandType_SREQ, ZdoCmd ZdoCommand_STARTUP_FROM_APP, [100, 0])]"
  unfolding ZdoStartupFromApp_def
  by (intro issues_then issues_with [where x = "[100, 0]"] issues_request) (code_simp, simp)

lemma Encode_permit_join:
  "Encode (pair_codec enum_codec (pair_codec unsigned_codec (pair_codec unsigned_codec unsigned_codec)))
     (mode :: AddrMode, address :: 16 word, duration :: 8 word, tc :: 8 word) = Inr (mode # le_bytes 2 address @ [duration, tc])"
  using codec_laws.encode_img [OF canonical_imp_laws [OF uint8.pair_codec_canonical [OF uint16.pair_codec_canonical
    [OF uint8.pair_codec_canonical [OF uint8.canonical_codec_axioms]]]], of "(mode, address, duration, tc)"]
  by (simp add: enum_codec_eq pair_img_def pair_ok_def)

lemma issues_permit_joining:
  "issues (ZdoMgmtPermitJoin mode address duration tc)
     [(ZnpCommandType_SREQ, ZdoCmd ZdoCommand_MGMT_PERMIT_JOIN_REQ, mode # le_bytes 2 address @ [duration, tc])]"
  unfolding ZdoMgmtPermitJoin_def
  by (intro issues_then issues_with [OF Encode_permit_join] issues_wait_after issues_request) simp

lemma issues_permit_join:
  "issues (ZdoMgmtPermitJoin AddrMode_ShortAddress 0 0 0)
     [(ZnpCommandType_SREQ, ZdoCmd ZdoCommand_MGMT_PERMIT_JOIN_REQ, [2, 0, 0, 0, 0])]"
proof -
  have "le_bytes 2 (0 :: 16 word) = [0, 0]" by code_simp
  then show ?thesis using issues_permit_joining [of AddrMode_ShortAddress 0 0 0] by simp
qed

lemma issues_register:
  "issues (Create 1 0x0104 5 0 Latency_NoLatency [] []) [(ZnpCommandType_SREQ, AfCmd AfCommand_REGISTER, [1, 4, 1, 5, 0, 0, 0, 0, 0])]"
  unfolding Create_def AfRegister_def
  by (intro issues_then issues_with [where x = "[1, 4, 1, 5, 0, 0, 0, 0, 0]"] issues_request) (code_simp, simp)

section \<open>The coroutine\<close>

lemma performs_await_call: "issues m [f] \<Longrightarrow> performs (await_call loop m) (\<lambda>x. {[f]})"
  using performs_seq [OF performs_call performs_await, of m "[f]"] by (simp add: await_call_def)

lemma performs_await_reset: "performs (await_reset loop) (\<lambda>x. {[reset_frame]})"
  using performs_seq [OF performs_call [OF issues_reset] performs_await] by (simp add: await_reset_def reset_frame_def)

lemma less_8_cases: "i < 8 \<Longrightarrow> i \<in> {0, 1, 2, 3, 4, 5, 6, 7 :: nat}"
  by auto

lemma reads_issue: "set order \<subseteq> {..<8} \<Longrightarrow> issues (calls (map (\<lambda>i. read_requests ! i) order)) (read_frames order)"
proof (rule issues_calls)
  have "issues (read_requests ! i) [read_frame (fst (configuration_bytes unset_configuration ! i))]" if "i < 8" for i
    using less_8_cases [OF that] by (auto simp: read_requests_def configuration_bytes_def issues_read)
  then show "set order \<subseteq> {..<8} \<Longrightarrow> list_all2 (\<lambda>m f. issues m [f]) (map (\<lambda>i. read_requests ! i) order) (read_frames order)"
    by (auto simp: read_frames_def list.rel_map intro!: list.rel_refl_strong)
qed

lemma performs_read:
  assumes "set order \<subseteq> {..<8}"
  shows "performs (ReadFullConfiguration order loop) (\<lambda>current. {read_frames order})"
  unfolding ReadFullConfiguration_def
  using performs_seq [OF performs_call [OF reads_issue [OF assms]] performs_seq [OF performs_await performs_return [OF refl]]]
  by simp

lemma Encode_presharedkey:
  assumes "length psk = 16"
  shows "Encode presharedkey_codec psk = Inr psk"
proof -
  show ?thesis
    using concat_le_bytes_1 [of psk, simplified] codec_laws.encode_img [OF uint8.array_codec_laws, of 16 psk] assms
    by (simp add: presharedkey_codec_def array_ok_def array_img_def list_all_iff)
qed

lemma writes_issue:
  assumes "set order \<subseteq> {..<8}" "length (presharedkey config) = 16"
  shows "issues (calls (map (\<lambda>i. write_requests config ! i) order)) (write_frames order config)"
proof (rule issues_calls)
  have "issues (write_requests config ! i) [write_frame (configuration_bytes config ! i)]" if "i < 8" for i
    using less_8_cases [OF that] Encode_presharedkey [OF assms(2)] assms(2)
    by (auto simp: write_requests_def configuration_bytes_def enum_codec_eq intro!: issues_write)
  with assms(1) show "list_all2 (\<lambda>m f. issues m [f]) (map (\<lambda>i. write_requests config ! i) order) (write_frames order config)"
    by (auto simp: write_frames_def list.rel_map intro!: list.rel_refl_strong)
qed

lemma performs_configure:
  assumes "set order \<subseteq> {..<8}" "length (presharedkey desired) = 16"
  shows "performs (Configure order loop desired current) (\<lambda>u. {configure_frames order desired current})"
proof (cases "same_configuration current desired")
  case True
  then show ?thesis by (simp add: Configure_def configure_frames_def performs_return)
next
  case False
  have clear: "issues (SapiWriteConfiguration enum_codec ConfigurationOption_STARTUP_OPTION
      (StartupOption_ClearConfig OR StartupOption_ClearState)) [write_frame (ConfigurationOption_STARTUP_OPTION, [3])]"
    by (intro issues_write) (simp_all add: enum_codec_eq)
  have w: "performs (WriteFullConfiguration order loop desired) (\<lambda>u. {write_frames order desired})"
    unfolding WriteFullConfiguration_def
    using performs_seq [OF performs_call [OF writes_issue [OF assms]] performs_seq [OF performs_await performs_return [OF refl]]]
    by simp
  show ?thesis
    using performs_seq [OF performs_await_call [OF clear] performs_seq [OF performs_await_reset w]] False
    by (simp add: Configure_def configure_frames_def)
qed

lemma performs_network:
  "performs (StartNetwork loop) (\<lambda>state. {take 2 network_frames})"
  unfolding StartNetwork_def
  using performs_seq [OF performs_call [OF issues_wait_for_state]
    performs_seq [OF performs_await_call [OF issues_startup_from_app] performs_await]]
  by (simp add: network_frames_def)

lemma performs_reads:
  assumes "set read_order \<subseteq> {..<8}"
  shows "performs (startup_reads read_order loop) (\<lambda>x. {reading_frames read_order})"
  using performs_seq [OF performs_await_reset performs_seq [OF performs_await_call [OF issues_device_info]
    performs_seq [OF performs_read [OF assms] performs_return [OF refl]]]]
  by (simp add: startup_reads_def reading_frames_def)

lemma performs_sets:
  assumes "set write_order \<subseteq> {..<8}" "length (presharedkey desired) = 16"
  shows "performs (startup_sets write_order loop desired current)
    (\<lambda>ep. {configure_frames write_order desired current @ network_frames})"
  using performs_seq [OF performs_configure [OF assms] performs_seq [OF performs_network
    performs_seq [OF performs_await_call [OF issues_permit_join] performs_await_call [OF issues_register]]]]
  by (simp add: startup_sets_def network_frames_def)

text \<open>
  C11: Whatever the dongle does and in whatever order the compiler sends the requests of one
  \<open>when_all\<close>, the start-up first sends the beginning of one sequence: reset, device address, the
  configuration options; if it stops there, waiting or with an error, nothing else is sent. Once the
  dongle's address and its configuration have been read, the frames are the beginning of the sequence for
  exactly these, and all of it when the start-up completes: only if the configuration read differs
  from the wanted one (with the address read as extended PAN identifier), the request to clear the state, a
  reset and the wanted options; then the device state, the start of the network, the end of joining and
  the registration of the endpoint.
\<close>

theorem startup_follows_protocol:
  assumes "set read_order \<subseteq> {..<8}" "set write_order \<subseteq> {..<8}" "length psk = 16"
    and "Initialize read_order write_order loop pan channels psk (a, n) = ((a', n'), r)"
  shows "\<exists>new. sent a' = sent a @ new \<and>
    (case snd (startup_reads read_order loop (a, n)) of
       Going_on (ieee, current) \<Rightarrow>
         (let whole = startup_frames read_order write_order (desired_configuration pan channels psk ieee) current
          in prefix (reading_frames read_order) new \<and> prefix new whole \<and> (\<forall>ep. r = Going_on ep \<longrightarrow> new = whole))
     | Threw e \<Rightarrow> r = Threw e \<and> prefix new (reading_frames read_order)
     | Suspended \<Rightarrow> r = Suspended \<and> prefix new (reading_frames read_order))"
proof -
  obtain a1 n1 q where q: "startup_reads read_order loop (a, n) = ((a1, n1), q)"
    by (cases "startup_reads read_order loop (a, n)") auto
  obtain new where new: "sent a1 = sent a @ new" "performed (\<lambda>x. {reading_frames read_order}) q new"
    using performsE [OF performs_reads [OF assms(1)] q] by auto
  show ?thesis
  proof (cases q)
    case (Going_on x)
    obtain ieee current where x: "x = (ieee, current)" by (cases x)
    let ?desired = "desired_configuration pan channels psk ieee"
    from assms(4) q Going_on x have "startup_sets write_order loop ?desired current (a1, n1) = ((a', n'), r)"
      by (simp add: Initialize_parts co_bind_def)
    then obtain later where "sent a' = sent a1 @ later"
      "performed (\<lambda>ep. {configure_frames write_order ?desired current @ network_frames}) r later"
      using performsE [OF performs_sets [OF assms(2), of ?desired loop current], of "(a1, n1)" "(a', n')" r]
      by (auto simp: desired_configuration_def assms(3))
    with new q Going_on x show ?thesis
      by (intro exI [of _ "new @ later"], cases r) (auto simp: begun_def startup_frames_def)
  qed (use assms(4) q new in \<open>auto simp: Initialize_parts co_bind_def begun_def\<close>)
qed

end
