(* ===== verification/StartupAnswers.thy ===== *)
theory StartupAnswers
  imports StartupProtocol
begin

text \<open>
  A dongle that answers every request is configured. \<open>achieves c n n' fs x\<close> says that the coroutine
  \<open>c\<close>, started at await \<open>n\<close> in a quiet state of the request layer (only the handlers of its
  constructor, nothing awaited), returns \<open>x\<close> after the awaits up to \<open>n'\<close> and leaves a quiet state,
  having sent the frames \<open>fs\<close>.
\<close>

section \<open>Quiet states\<close>

definition quiet :: "api \<Rightarrow> bool" where
  "quiet a \<longleftrightarrow> api_run a \<and> handlers a = handlers started \<and> reset_slots a = [] \<and> state_slots a = []"

lemma quiet_started: "quiet started"
  using started_run by (simp add: quiet_def) (simp add: ctor_simps)

lemma started_kept [simp]: "filter (\<lambda>h. \<not> expired s h) (handlers started) = handlers started"
  by (simp add: ctor_simps expired_def)

lemma fresh_promise:
  assumes "api_run a" "next_promise a \<le> p"
  shows "map_of (settled a) p = None" "map_of (continuations a) p = None"
    "map_of (reset_settled a) p = None" "map_of (state_settled a) p = None" "p \<notin> fst ` set (settled a)"
  using settled_fresh [OF run_api_inv [OF assms(1)] assms(2)] continuations_fresh [OF run_keys_fresh [OF assms(1)] assms(2)]
    called_fresh [OF run_api_inv [OF assms(1)] assms(2)]
  by (auto simp: called_def map_of_eq_None_iff)

section \<open>Requests that are answered\<close>

text \<open>The call sends one request and returns the future of its promise.\<close>

definition asks :: "'a future call \<Rightarrow> ZnpCommand \<Rightarrow> (byte list \<Rightarrow> error + 'a) \<Rightarrow> bool" where
  "asks m command d \<longleftrightarrow> (\<forall>a. \<exists>port evs. m a = (a\<lparr> next_promise := Suc (next_promise a),
     handlers := handlers a @ [SReq [command] (next_promise a)], raw := port, outputs := outputs a @ evs \<rparr>,
     Inr (Future (next_promise a) d)) \<and> (api_run a \<longrightarrow> api_run (fst (m a))))"

lemma asks_request: "length payload \<le> 255 \<Longrightarrow> asks (RawSReq command payload) command Inr"
  unfolding asks_def
proof
  fix a
  assume "length payload \<le> 255"
  from RawSReq_any_ok [OF this, of command "[command]" a] obtain port evs where
    "RawSReq command payload a = (a\<lparr> next_promise := Suc (next_promise a),
      handlers := handlers a @ [SReq [command] (next_promise a)], raw := port, outputs := outputs a @ evs \<rparr>,
      Inr (Future (next_promise a) Inr))" by (auto simp: RawSReq_def)
  moreover from this have "api_run a \<Longrightarrow> api_run (fst (RawSReq command payload a))"
    using properD(1) [OF proper_RawSReq] by simp
  ultimately show "\<exists>port evs. RawSReq command payload a = (a\<lparr> next_promise := Suc (next_promise a),
      handlers := handlers a @ [SReq [command] (next_promise a)], raw := port, outputs := outputs a @ evs \<rparr>,
      Inr (Future (next_promise a) Inr)) \<and> (api_run a \<longrightarrow> api_run (fst (RawSReq command payload a)))" by blast
qed

lemma asks_then:
  assumes "asks m command d"
  shows "asks (call_then m g) command (\<lambda>bs. res_bind (d bs) g)"
  unfolding asks_def
proof
  fix a
  from assms obtain port evs where "m a = (a\<lparr> next_promise := Suc (next_promise a),
      handlers := handlers a @ [SReq [command] (next_promise a)], raw := port, outputs := outputs a @ evs \<rparr>,
      Inr (Future (next_promise a) d))" "api_run a \<longrightarrow> api_run (fst (m a))" unfolding asks_def by blast
  then show "\<exists>port evs. call_then m g a = (a\<lparr> next_promise := Suc (next_promise a),
      handlers := handlers a @ [SReq [command] (next_promise a)], raw := port, outputs := outputs a @ evs \<rparr>,
      Inr (Future (next_promise a) (\<lambda>bs. res_bind (d bs) g))) \<and> (api_run a \<longrightarrow> api_run (fst (call_then m g a)))"
    by (auto simp: call_then_def future_then_def)
qed

lemma asks_with: "r = Inr x \<Longrightarrow> asks (m x) command d \<Longrightarrow> asks (call_with r m) command d"
  by (simp add: asks_def call_with_def)

lemma asks_request_then: "length payload \<le> 255 \<Longrightarrow> asks (call_then (RawSReq command payload) g) command g"
  using asks_then [OF asks_request, of payload command g] by simp

text \<open>The frames of the answers, and what the futures make of them.\<close>

definition answer :: "ZnpCommand \<times> byte list \<Rightarrow> loop_event" where
  "answer e = Frame_handled ZnpCommandType_SRSP (fst e) (snd e)"

definition waiting_for :: "nat \<Rightarrow> ZnpCommand list \<Rightarrow> frame_handler list" where
  "waiting_for n commands = map (\<lambda>(p, command). SReq [command] p) (zip [n..<n + length commands] commands)"

definition futures_from :: "nat \<Rightarrow> (byte list \<Rightarrow> error + 'a) list \<Rightarrow> 'a future list" where
  "futures_from n ds = map (\<lambda>(p, d). Future p d) (zip [n..<n + length ds] ds)"

lemma from_Cons:
  "waiting_for n (c # cs) = SReq [c] n # waiting_for (Suc n) cs" "waiting_for n [] = []"
  "futures_from n (d # ds) = Future n d # futures_from (Suc n) ds" "futures_from n [] = []"
  by (simp_all add: waiting_for_def futures_from_def upt_conv_Cons del: upt_Suc)

lemma calls_ask:
  assumes "list_all2 (\<lambda>m (c, d). asks m c d) ms cds" "api_run a"
  obtains port evs a' where "calls ms a = (a', Inr (futures_from (next_promise a) (map snd cds)))" "api_run a'"
    "a' = a\<lparr> next_promise := next_promise a + length cds,
       handlers := handlers a @ waiting_for (next_promise a) (map fst cds), raw := port, outputs := outputs a @ evs \<rparr>"
  using assms
proof (induction ms cds arbitrary: a thesis rule: list_all2_induct)
  case Nil
  show ?case by (rule Nil(1) [of a "[]" "raw a"]) (use Nil(2) in \<open>simp_all add: from_Cons\<close>)
next
  case (Cons m ms cd cds)
  obtain c d where cd: "cd = (c, d)" by (cases cd)
  with Cons.hyps(1) obtain port evs a1 where m: "m a = (a1, Inr (Future (next_promise a) d))" "api_run a1"
    "a1 = a\<lparr> next_promise := Suc (next_promise a), handlers := handlers a @ [SReq [c] (next_promise a)],
       raw := port, outputs := outputs a @ evs \<rparr>"
    using Cons.prems(2) unfolding asks_def by fastforce
  obtain port' evs' a2 where ms: "calls ms a1 = (a2, Inr (futures_from (next_promise a1) (map snd cds)))" "api_run a2"
    "a2 = a1\<lparr> next_promise := next_promise a1 + length cds,
       handlers := handlers a1 @ waiting_for (next_promise a1) (map fst cds), raw := port', outputs := outputs a1 @ evs' \<rparr>"
    using Cons.IH [OF _ m(2)] by blast
  show ?case
    by (rule Cons.prems(1) [of a2 "evs @ evs'" port']) (use m ms in \<open>simp_all add: cd from_Cons\<close>)
qed

text \<open>The answers, in the order of the requests, settle their promises.\<close>

lemma answers_settle:
  assumes "handlers b = handlers started @ waiting_for n (map fst es)" "\<And>p. n \<le> p \<Longrightarrow> map_of (continuations b) p = None"
  shows "handle_all (map answer es) b =
    b\<lparr> handlers := handlers started, settled := settled b @ zip [n..<n + length es] (map (\<lambda>e. Inr (snd e)) es) \<rparr>"
  using assms
proof (induction es arbitrary: n b)
  case Nil
  then show ?case by (simp add: handle_all_def from_Cons)
next
  case (Cons e es)
  let ?b = "b\<lparr> handlers := handlers started @ waiting_for (Suc n) (map fst es), settled := settled b @ [(n, Inr (snd e))] \<rparr>"
  have "OnFrame ZnpCommandType_SRSP (fst e) (snd e) b
      = call_promise n (Inr (snd e)) (b\<lparr> handlers := handlers started @ waiting_for (Suc n) (map fst es) \<rparr>)"
    using response_settles [of b "handlers started" "[fst e]" n "waiting_for (Suc n) (map fst es)" "fst e" "snd e"]
      Cons.prems(1) started_unclaimed by (simp add: from_Cons)
  then have "handle (answer e) b = ?b"
    using Cons.prems(2) by (simp add: handle_def answer_def call_promise_plain)
  then have "handle_all (map answer (e # es)) b = handle_all (map answer es) ?b" by (simp add: handle_all_def)
  also have "\<dots> = b\<lparr> handlers := handlers started,
      settled := settled b @ zip [n..<n + length (e # es)] (map (\<lambda>e. Inr (snd e)) (e # es)) \<rparr>"
    using Cons.IH [of ?b "Suc n"] Cons.prems(2) by (simp add: upt_conv_Cons del: upt_Suc)
  finally show ?case .
qed

lemma handle_all_run: "api_run a \<Longrightarrow> api_run (handle_all (map answer es) a)"
  by (induction es arbitrary: a) (simp_all add: handle_all_def handle_def answer_def api_frame)

section \<open>Settled futures\<close>

lemma find_future:
  "List.find (\<lambda>f. case f of Future q d \<Rightarrow> q = p) (futures_from n ds) =
     (if n \<le> p \<and> p < n + length ds then Some (Future p (ds ! (p - n))) else None)"
proof (induction ds arbitrary: n)
  case (Cons d ds)
  show ?case
  proof (cases "p = n")
    case False
    then have "n \<le> p \<Longrightarrow> (d # ds) ! (p - n) = ds ! (p - Suc n)"
      by (metis Suc_diff_Suc le_neq_implies_less nth_Cons_Suc)
    with False Cons show ?thesis by (auto simp: from_Cons)
  qed (simp add: from_Cons)
qed (simp add: from_Cons)

lemma settled_values:
  assumes old: "\<And>p r. (p, r) \<in> set old \<Longrightarrow> p < n" and len: "length rs = length ds"
    and ok: "\<And>i. i < length ds \<Longrightarrow> (ds ! i) (rs ! i) = Inr (xs ! i)" and xs: "length xs = length ds"
    and a: "settled a = old @ zip [n..<n + length ds] (map Inr rs)"
  shows "when_all (futures_from n ds) a = Some (Inr xs)"
    and "i < length ds \<Longrightarrow> future_value a (Future (n + i) (ds ! i)) = Some (Inr (xs ! i))"
proof -
  let ?new = "zip [n..<n + length ds] (map Inr rs :: (error + byte list) list)"
  have val: "future_value a (Future (n + i) (ds ! i)) = Some (Inr (xs ! i))" if i: "i < length ds" for i
  proof -
    have "map_of old (n + i) = None" using old by (force simp: map_of_eq_None_iff)
    moreover have "map_of ?new (n + i) = Some (Inr (rs ! i))"
      using map_of_zip_nth [of "[n..<n + length ds]" "map Inr rs" i] i len by simp
    ultimately show ?thesis using ok [OF i] by (simp add: future_value_def a map_add_def)
  qed
  have none: "failure_of (futures_from n ds) e = None" if e: "e \<in> set (settled a)" for e
  proof -
    obtain p r where p: "e = (p, r)" by (cases e)
    show ?thesis
    proof (cases "n \<le> p \<and> p < n + length ds")
      case True
      define i where "i = p - n"
      with True have i: "p = n + i" "i < length ds" by auto
      have "distinct (map fst ?new)" using len by simp
      moreover have "(p, r) \<in> set ?new"
        using e old True unfolding p a by fastforce
      ultimately have "map_of ?new p = Some r" by (rule map_of_is_SomeI)
      moreover have "map_of ?new (n + i) = Some (Inr (rs ! i))"
        using map_of_zip_nth [of "[n..<n + length ds]" "map Inr rs" i] i len by simp
      ultimately have "r = Inr (rs ! i)" unfolding i(1) by (metis option.inject)
      with ok [OF i(2)] i True show ?thesis by (simp add: p failure_of_def find_future)
    qed (auto simp: p failure_of_def find_future)
  qed
  then have "List.map_filter (failure_of (futures_from n ds)) (settled a) = []"
    by (auto simp: map_filter_def filter_empty_conv)
  moreover have "list_all (\<lambda>f. future_value a f \<noteq> None) (futures_from n ds)"
    "map (\<lambda>f. projr (the (future_value a f))) (futures_from n ds) = xs"
    using val xs by (auto simp: futures_from_def list_all_length intro!: nth_equalityI)
  ultimately show "when_all (futures_from n ds) a = Some (Inr xs)" by (simp add: when_all_def)
  show "i < length ds \<Longrightarrow> future_value a (Future (n + i) (ds ! i)) = Some (Inr (xs ! i))" by (rule val)
qed

section \<open>Coroutines that are answered\<close>

definition achieves :: "'a coroutine \<Rightarrow> nat \<Rightarrow> nat \<Rightarrow> frame list \<Rightarrow> 'a \<Rightarrow> bool" where
  "achieves c n n' fs x \<longleftrightarrow> (\<forall>a. quiet a \<longrightarrow>
     (\<exists>a'. c (a, n) = ((a', n'), Going_on x) \<and> quiet a' \<and> sent a' = sent a @ fs))"

lemma achievesE:
  assumes "achieves c n n' fs x" "quiet a"
  obtains a' where "c (a, n) = ((a', n'), Going_on x)" "quiet a'" "sent a' = sent a @ fs"
  using assms unfolding achieves_def by blast

lemma achieves_return: "achieves (co_return x) n n [] x"
  by (simp add: achieves_def co_return_def)

lemma achieves_bind:
  assumes "achieves c n n1 fs x" "achieves (k x) n1 n2 gs y"
  shows "achieves (co_bind c k) n n2 (fs @ gs) y"
  unfolding achieves_def
proof (intro allI impI)
  fix a
  assume "quiet a"
  with assms(1) obtain a1 where 1: "c (a, n) = ((a1, n1), Going_on x)" "quiet a1" "sent a1 = sent a @ fs"
    by (rule achievesE)
  from assms(2) 1(2) obtain a2 where "k x (a1, n1) = ((a2, n2), Going_on y)" "quiet a2" "sent a2 = sent a1 @ gs"
    by (rule achievesE)
  with 1 show "\<exists>a'. co_bind c k (a, n) = ((a', n2), Going_on y) \<and> quiet a' \<and> sent a' = sent a @ fs @ gs"
    by (simp add: co_bind_def)
qed

text \<open>Requests that are sent together and answered in order.\<close>

lemma quiet_answered:
  assumes "list_all2 (\<lambda>m (c, d). asks m c d) ms cds" "issues (calls ms) fs" "quiet a"
    and es: "map fst es = map fst cds" and ok: "\<And>i. i < length cds \<Longrightarrow> snd (cds ! i) (snd (es ! i)) = Inr (xs ! i)"
    and xs: "length xs = length cds"
  obtains a1 a2 where "calls ms a = (a1, Inr (futures_from (next_promise a) (map snd cds)))"
    "a2 = handle_all (map answer es) a1" "quiet a2" "sent a2 = sent a @ fs"
    "when_all (futures_from (next_promise a) (map snd cds)) a2 = Some (Inr xs)"
    "\<And>i. i < length cds \<Longrightarrow> future_value a2 (Future (next_promise a + i) (snd (cds ! i))) = Some (Inr (xs ! i))"
proof -
  have run: "api_run a" and hs: "handlers a = handlers started" and slots: "reset_slots a = []" "state_slots a = []"
    using assms(3) by (simp_all add: quiet_def)
  let ?n = "next_promise a"
  obtain port evs a1 where c: "calls ms a = (a1, Inr (futures_from ?n (map snd cds)))" "api_run a1"
    "a1 = a\<lparr> next_promise := ?n + length cds,
       handlers := handlers a @ waiting_for ?n (map fst cds), raw := port, outputs := outputs a @ evs \<rparr>"
    by (rule calls_ask [OF assms(1) run])
  define a2 where "a2 = handle_all (map answer es) a1"
  have len: "length es = length cds" using arg_cong [OF es, of length] by simp
  have a2: "a2 = a1\<lparr> handlers := handlers started, settled := settled a @ zip [?n..<?n + length cds] (map Inr (map snd es)) \<rparr>"
    unfolding a2_def using answers_settle [of a1 ?n es] fresh_promise(2) [OF run] by (simp add: c(3) hs es len comp_def)
  have q: "quiet a2" using handle_all_run [OF c(2), of es] slots by (simp add: quiet_def flip: a2_def) (simp add: a2 c(3))
  have s: "sent a2 = sent a @ fs"
    using assms(2) c(1) unfolding a2_def issues_def by (metis Pair_inject sent_handle_all)
  have old: "p < ?n" if "(p, r) \<in> set (settled a)" for p r
    using fresh_promise(5) [OF run, of p] that by force
  have vs: "settled a2 = settled a @ zip [?n..<?n + length (map snd cds)] (map Inr (map snd es))" by (simp add: a2 c(3))
  note vals = settled_values [where rs = "map snd es" and ds = "map snd cds" and xs = xs and a = a2 and n = ?n, OF old _ _ _ vs]
  show ?thesis
    by (rule that [OF c(1) a2_def q s]) (use vals ok xs len in auto)
qed

lemma achieves_together:
  assumes "list_all2 (\<lambda>m (c, d). asks m c d) ms cds" "issues (calls ms) fs" "map fst es = map fst cds"
    and "\<And>i. i < length cds \<Longrightarrow> snd (cds ! i) (snd (es ! i)) = Inr (xs ! i)" "length xs = length cds"
    and loop: "loop n = map answer es"
  shows "achieves (co_bind (co_call (calls ms)) (\<lambda>futures. Await loop (when_all futures))) n (Suc n) fs xs"
  unfolding achieves_def
proof (intro allI impI)
  fix a
  assume "quiet a"
  obtain a1 a2 where "calls ms a = (a1, Inr (futures_from (next_promise a) (map snd cds)))"
    "a2 = handle_all (map answer es) a1" "quiet a2" "sent a2 = sent a @ fs"
    "when_all (futures_from (next_promise a) (map snd cds)) a2 = Some (Inr xs)"
    by (rule quiet_answered [OF assms(1,2) \<open>quiet a\<close> assms(3-5)])
  then show "\<exists>a'. co_bind (co_call (calls ms)) (\<lambda>futures. Await loop (when_all futures)) (a, n) = ((a', Suc n), Going_on xs) \<and>
      quiet a' \<and> sent a' = sent a @ fs"
    by (simp add: co_bind_def co_call_def Await_def loop Let_def)
qed

lemma achieves_await_call:
  assumes "asks m command d" "issues m [f]" "d data = Inr x" "loop n = [answer (command, data)]"
  shows "achieves (await_call loop m) n (Suc n) [f] x"
  unfolding achieves_def
proof (intro allI impI)
  fix a
  assume "quiet a"
  have i: "issues (calls [m]) [f]" by (rule issues_calls) (simp add: assms(2))
  obtain a1 a2 where c: "calls [m] a = (a1, Inr (futures_from (next_promise a) (map snd [(command, d)])))"
    "a2 = handle_all (map answer [(command, data)]) a1" "quiet a2" "sent a2 = sent a @ [f]"
    "\<And>i. i < length [(command, d)] \<Longrightarrow> future_value a2 (Future (next_promise a + i) (snd ([(command, d)] ! i))) = Some (Inr ([x] ! i))"
    by (rule quiet_answered [of "[m]" "[(command, d)]" "[f]" a "[(command, data)]" "[x]"]) (use assms(1,3) i \<open>quiet a\<close> in auto)
  from c(1) have "m a = (a1, Inr (Future (next_promise a) d))"
    by (auto simp: from_Cons res_bind_eq_Inr split: prod.splits sum.splits)
  with c show "\<exists>a'. await_call loop m (a, n) = ((a', Suc n), Going_on x) \<and> quiet a' \<and> sent a' = sent a @ [f]"
    using c(5) [of 0] by (simp add: await_call_def co_bind_def co_call_def Await_def assms(4) Let_def future_result_def)
qed

section \<open>The requests of the start-up\<close>

definition device_info_value :: "'a codec \<Rightarrow> DeviceInfo \<Rightarrow> byte list \<Rightarrow> error + 'a" where
  "device_info_value c info bs = res_bind ((\<lambda>retval. if length retval < 1
     then Inl (Runtime_error ''Expected more data from GetDeviceInfo response'')
     else if retval ! 0 \<noteq> info then Inl (Runtime_error ''Wrong DeviceInfo returned'')
     else Inr (drop 1 retval)) bs) (DecodePartial c)"

definition read_value :: "'a codec \<Rightarrow> ConfigurationOption \<Rightarrow> ('a \<Rightarrow> 'b) \<Rightarrow> byte list \<Rightarrow> error + 'b" where
  "read_value c opt assign bs = res_bind (res_bind (res_bind (res_bind (CheckStatus bs)
     (Decode (pair_codec enum_codec (vector_codec unsigned_codec))))
     (\<lambda>(found, value). if opt \<noteq> found
         then Inl (Runtime_error ''Read configuration returned wrong option'') else Inr value)) (Decode c)) (\<lambda>x. Inr (assign x))"

lemma device_info_value_ok: "DecodePartial c bs = Inr x \<Longrightarrow> device_info_value c info (info # bs) = Inr x"
  by (simp add: device_info_value_def)

lemma read_value_ok:
  assumes "Decode c bs = Inr x" "length bs \<le> 255"
  shows "read_value c opt assign (ZnpStatus_Success # opt # word_of_nat (length bs) # bs) = Inr (assign x)"
proof -
  have "Decode (pair_codec enum_codec (vector_codec unsigned_codec)) (opt # word_of_nat (length bs) # bs) = Inr (opt, bs)"
    using concat_le_bytes_1 [of bs, simplified] assms(2)
      canonical_codec.decode_eq_iff [OF uint8.pair_codec_canonical [OF bytes.canonical_codec_axioms], of "opt # word_of_nat (length bs) # bs" "(opt, bs)"]
    by (simp add: enum_codec_eq pair_img_def pair_ok_def vector_ok_def vector_img_def list_all_iff)
  then show ?thesis by (simp add: read_value_def CheckStatus_def assms(1))
qed

lemma asks_device_info: "asks (SapiGetDeviceInfo c info) (SapiCmd SapiCommand_GET_DEVICE_INFO) (device_info_value c info)"
  unfolding SapiGetDeviceInfo_def SapiGetDeviceInfoRaw_def device_info_value_def [abs_def]
  by (intro asks_then asks_with [where x = "[info]"] asks_request_then) (simp_all add: enum_codec_eq)

lemma asks_read: "asks (read_request c opt assign) (SapiCmd SapiCommand_READ_CONFIGURATION) (read_value c opt assign)"
  unfolding read_request_def SapiReadConfiguration_def SapiReadConfigurationRaw_def read_value_def [abs_def]
  by (intro asks_then asks_with [where x = "[opt]"] asks_request_then) (simp_all add: enum_codec_eq)

lemma asks_write:
  assumes "Encode c v = Inr bs" "length bs \<le> 253"
  shows "asks (SapiWriteConfiguration c opt v) (SapiCmd SapiCommand_WRITE_CONFIGURATION) CheckOnlyStatus"
  unfolding SapiWriteConfiguration_def SapiWriteConfigurationRaw_def
  using assms by (intro asks_with [OF assms(1)] asks_with [where x = "opt # word_of_nat (length bs) # bs"])
    (auto simp: Encode_option intro!: asks_request_then)

lemma asks_startup_from_app:
  "asks (ZdoStartupFromApp 100) (ZdoCmd ZdoCommand_STARTUP_FROM_APP) (Decode enum_codec)"
  unfolding ZdoStartupFromApp_def by (intro asks_with [where x = "[100, 0]"] asks_request_then) (code_simp, simp)

lemma asks_register:
  "asks (Create 1 0x0104 5 0 Latency_NoLatency [] []) (AfCmd AfCommand_REGISTER)
     (\<lambda>bs. res_bind (CheckOnlyStatus bs) (\<lambda>u. Inr (ZclEndpoint_ctor 1)))"
  unfolding Create_def AfRegister_def
  by (intro asks_then asks_with [where x = "[1, 4, 1, 5, 0, 0, 0, 0, 0]"] asks_request_then) (code_simp, simp)

section \<open>Indications\<close>

definition indication :: "ZnpCommand \<Rightarrow> byte list \<Rightarrow> loop_event" where
  "indication command data = Frame_handled ZnpCommandType_AREQ command data"

lemma event_emitted:
  assumes hs: "handlers s = pre @ Simple_event type command sig partial # post"
    and pre: "unclaimed pre type command data s" "filter (\<lambda>h. \<not> expired s h) pre = pre"
    and ev: "decode_event partial sig data = Inr ev"
  shows "OnFrame type command data s = emit ev s"
proof -
  have "call_handler (Simple_event type command sig partial) type command data
      (s\<lparr> handlers := filter (\<lambda>h. \<not> expired s h) pre @ Simple_event type command sig partial # post \<rparr>)
    = (emit ev s, \<lparr> stop_processing = True, remove_me = False \<rparr>)"
    unfolding pre(2) update_handlers_id [OF hs] by (simp add: ev)
  from OnFrame_first [OF hs pre(1) this] show ?thesis by simp
qed

lemma reset_emitted:
  assumes "handlers s = handlers started" "decode_event False sys_on_reset data = Inr ev"
  shows "OnFrame ZnpCommandType_AREQ (SysCmd SysCommand_RESET_IND) data s = emit ev s"
  by (rule event_emitted [where pre = "[]" and partial = False and sig = sys_on_reset and post = "tl (handlers started)"])
    (simp_all add: assms ctor_simps unclaimed_def)

lemma state_change_emitted:
  assumes "handlers s = handlers started" "decode_event False zdo_on_state_change data = Inr ev"
  shows "OnFrame ZnpCommandType_AREQ (ZdoCmd ZdoCommand_STATE_CHANGE_IND) data s = emit ev s"
  by (rule event_emitted [where pre = "take 1 (handlers started)" and partial = False and sig = zdo_on_state_change
      and post = "drop 2 (handlers started)"])
    (simp_all add: assms ctor_simps unclaimed_def awaits_def expired_def command_defs)

lemma decode_reset:
  assumes "length data = 6"
  obtains info where "decode_event False sys_on_reset data = Inr (Reset info)"
proof -
  obtain b0 b1 b2 b3 b4 b5 where "data = [b0, b1, b2, b3, b4, b5]"
    using assms by (auto simp: eval_nat_numeral length_Suc_conv)
  then have "\<exists>info. decode_event False sys_on_reset data = Inr (Reset info)"
    by (simp add: decode_event_def event_dec_def struct_dec_def ResetInfo_dec_def ResetInfo_members_def pair_codec_def codec_simps)
  with that show ?thesis by blast
qed

lemma SysReset_effect:
  "\<exists>port evs. SysReset True a = (a\<lparr> next_promise := Suc (next_promise a), reset_slots := reset_slots a @ [next_promise a],
     raw := port, outputs := outputs a @ evs \<rparr>, Inr (next_promise a))"
  by (simp add: SysReset_def Let_def call_with_def raw_SendFrame_def SendFrame_def case_prod_beta) blast

lemma issues_sent: "issues m fs \<Longrightarrow> m a = (a', r) \<Longrightarrow> sent a' = sent a @ fs"
  by (metis issuesE Pair_inject)

lemma achieves_reset:
  assumes "length data = 6" "loop n = [indication (SysCmd SysCommand_RESET_IND) data]"
  shows "\<exists>info. achieves (await_reset loop) n (Suc n) [reset_frame] info"
proof -
  obtain info where dec: "decode_event False sys_on_reset data = Inr (Reset info)" by (rule decode_reset [OF assms(1)])
  have "achieves (await_reset loop) n (Suc n) [reset_frame] info"
    unfolding achieves_def
  proof (intro allI impI)
    fix a
    assume q: "quiet a"
    then have run: "api_run a" and hs: "handlers a = handlers started" and slots: "reset_slots a = []" "state_slots a = []"
      by (simp_all add: quiet_def)
    let ?n = "next_promise a"
    obtain port evs a1 where a1: "SysReset True a = (a1, Inr ?n)"
      "a1 = a\<lparr> next_promise := Suc ?n, reset_slots := reset_slots a @ [?n], raw := port, outputs := outputs a @ evs \<rparr>"
      using SysReset_effect [of a] by blast
    have run1: "api_run a1" by (rule api_reset [OF run a1(1)])
    have f1: "handlers a1 = handlers started" "reset_slots a1 = [?n]" "state_slots a1 = []" "reset_settled a1 = reset_settled a"
      using a1(2) hs slots by simp_all
    define a2 where "a2 = handle_all [indication (SysCmd SysCommand_RESET_IND) data] a1"
    have a2: "a2 = emit (Reset info) a1"
      using reset_emitted [OF f1(1) dec] by (simp add: a2_def handle_all_def handle_def indication_def)
    have "api_run a2" unfolding a2_def by (simp add: handle_all_def handle_def indication_def api_frame [OF run1])
    then have "quiet a2" using f1 by (simp add: quiet_def a2 emit_def Let_def reset_slot_def)
    moreover have "reset_result ?n a2 = Some (Inr info)"
      using fresh_promise(3) [OF run order_refl] f1 by (simp add: reset_result_def a2 emit_def Let_def reset_slot_def map_add_def)
    moreover have "sent a2 = sent a @ [reset_frame]"
      using issues_sent [OF issues_reset a1(1)] by (simp add: a2_def reset_frame_def)
    ultimately show "\<exists>a'. await_reset loop (a, n) = ((a', Suc n), Going_on info) \<and> quiet a' \<and> sent a' = sent a @ [reset_frame]"
      by (simp add: await_reset_def co_bind_def co_call_def a1(1) Await_def assms(2) Let_def flip: a2_def)
  qed
  then show ?thesis by blast
qed

section \<open>The network\<close>

abbreviation coordinator_states :: "DeviceState list" where
  "coordinator_states \<equiv> [DeviceState_COORD_STARTING, DeviceState_HOLD, DeviceState_INIT]"

abbreviation state_first :: "byte list \<Rightarrow> error + DeviceState" where
  "state_first \<equiv> device_info_value enum_codec DeviceInfo_DeviceState"

lemma asksE:
  assumes "asks m command d" "api_run a"
  obtains port evs a' where "m a = (a', Inr (Future (next_promise a) d))" "api_run a'"
    "a' = a\<lparr> next_promise := Suc (next_promise a), handlers := handlers a @ [SReq [command] (next_promise a)],
       raw := port, outputs := outputs a @ evs \<rparr>"
proof -
  from assms(1) obtain port evs where "m a = (a\<lparr> next_promise := Suc (next_promise a),
      handlers := handlers a @ [SReq [command] (next_promise a)], raw := port, outputs := outputs a @ evs \<rparr>,
      Inr (Future (next_promise a) d))" "api_run a \<longrightarrow> api_run (fst (m a))" unfolding asks_def by blast
  with assms(2) that show ?thesis by simp
qed

text \<open>Two requests have been sent, the first with the continuation of \<open>WaitForState\<close>.\<close>

lemma state_then_startup:
  assumes hs: "handlers b = handlers started @ [SReq [SapiCmd SapiCommand_GET_DEVICE_INFO] p, SReq [ZdoCmd ZdoCommand_STARTUP_FROM_APP] q]"
    and k: "map_of (continuations b) p = Some (Wait_for_state state_first [DeviceState_ZB_COORD] coordinator_states w)"
      "map_of (continuations b) q = None"
    and st: "st \<in> set coordinator_states"
  shows "handle_all [answer (SapiCmd SapiCommand_GET_DEVICE_INFO, [DeviceInfo_DeviceState, st]), answer (ZdoCmd ZdoCommand_STARTUP_FROM_APP, rsp)] b
    = b\<lparr> handlers := handlers started, settled := settled b @ [(p, Inr [DeviceInfo_DeviceState, st]), (q, Inr rsp)],
         state_slots := state_slots b @ [(w, [DeviceState_ZB_COORD], coordinator_states)] \<rparr>"
proof -
  let ?b = "b\<lparr> handlers := handlers started @ [SReq [ZdoCmd ZdoCommand_STARTUP_FROM_APP] q],
      settled := settled b @ [(p, Inr [DeviceInfo_DeviceState, st])],
      state_slots := state_slots b @ [(w, [DeviceState_ZB_COORD], coordinator_states)] \<rparr>"
  have dv: "state_first [DeviceInfo_DeviceState, st] = Inr st"
    by (simp add: device_info_value_def DecodePartial_def codec_simps)
  have "OnFrame ZnpCommandType_SRSP (SapiCmd SapiCommand_GET_DEVICE_INFO) [DeviceInfo_DeviceState, st] b
      = call_promise p (Inr [DeviceInfo_DeviceState, st]) (b\<lparr> handlers := handlers started @ [SReq [ZdoCmd ZdoCommand_STARTUP_FROM_APP] q] \<rparr>)"
    using response_settles [OF hs [unfolded append.simps] started_unclaimed] by simp
  also have "\<dots> = ?b"
    using dv st k(1) by (auto simp: call_promise_def continue_with_def log_result_def Let_def)
  finally have first: "OnFrame ZnpCommandType_SRSP (SapiCmd SapiCommand_GET_DEVICE_INFO) [DeviceInfo_DeviceState, st] b = ?b" .
  have "OnFrame ZnpCommandType_SRSP (ZdoCmd ZdoCommand_STARTUP_FROM_APP) rsp ?b
      = call_promise q (Inr rsp) (?b\<lparr> handlers := handlers started \<rparr>)"
    using response_settles [of ?b "handlers started" "[ZdoCmd ZdoCommand_STARTUP_FROM_APP]" q "[]"] started_unclaimed by simp
  then show ?thesis using k(2) by (simp add: handle_all_def handle_def answer_def first call_promise_plain)
qed

lemma state_reached:
  assumes "handlers b = handlers started" "state_slots b = [(w, [DeviceState_ZB_COORD], coordinator_states)]"
  shows "handle (indication (ZdoCmd ZdoCommand_STATE_CHANGE_IND) [DeviceState_ZB_COORD]) b
    = b\<lparr> emitted := emitted b @ [State_change DeviceState_ZB_COORD], state_slots := [],
         state_settled := state_settled b @ [(w, Inr DeviceState_ZB_COORD)] \<rparr>"
proof -
  have "decode_event False zdo_on_state_change [DeviceState_ZB_COORD] = Inr (State_change DeviceState_ZB_COORD)"
    by (simp add: decode_event_def event_dec_def struct_dec_def codec_simps)
  from state_change_emitted [OF assms(1) this] assms(2) show ?thesis
    by (simp add: handle_def indication_def emit_def Let_def state_change_slot_def state_slot_result_def map_filter_def)
qed

lemma achieves_network:
  assumes loop: "loop n = [answer (SapiCmd SapiCommand_GET_DEVICE_INFO, [DeviceInfo_DeviceState, st]),
      answer (ZdoCmd ZdoCommand_STARTUP_FROM_APP, [code])]"
      "loop (Suc n) = [indication (ZdoCmd ZdoCommand_STATE_CHANGE_IND) [DeviceState_ZB_COORD]]"
    and st: "st \<in> set coordinator_states"
  shows "achieves (StartNetwork loop) n (Suc (Suc n)) (take 2 network_frames) DeviceState_ZB_COORD"
  unfolding achieves_def
proof (intro allI impI)
  fix a
  assume "quiet a"
  then have run: "api_run a" and hs: "handlers a = handlers started" and slots: "reset_slots a = []" "state_slots a = []"
    by (simp_all add: quiet_def)
  let ?p = "next_promise a" and ?k = "Wait_for_state state_first [DeviceState_ZB_COORD] coordinator_states (Suc (next_promise a))"
  obtain port evs a1 where a1: "SapiGetDeviceInfo (enum_codec :: DeviceState codec) DeviceInfo_DeviceState a = (a1, Inr (Future ?p state_first))"
    "api_run a1" "a1 = a\<lparr> next_promise := Suc ?p, handlers := handlers a @ [SReq [SapiCmd SapiCommand_GET_DEVICE_INFO] ?p],
       raw := port, outputs := outputs a @ evs \<rparr>"
    by (rule asksE [OF asks_device_info run])
  define a2 where "a2 = a1\<lparr> next_promise := Suc (Suc ?p), continuations := continuations a @ [(?p, ?k)] \<rparr>"
  have w: "WaitForState [DeviceState_ZB_COORD] coordinator_states a = (a2, Inr (Suc ?p))"
    by (simp add: WaitForState_def a1(1) Let_def a2_def) (simp add: a1(3))
  have next2: "next_promise a2 = Suc (Suc ?p)" by (simp add: a2_def)
  have run2: "api_run a2" by (rule api_wait_for_state [OF run w])
  obtain port' evs' a3 where a3: "ZdoStartupFromApp 100 a2 = (a3, Inr (Future (Suc (Suc ?p)) (Decode enum_codec)))"
    "api_run a3" "a3 = a2\<lparr> next_promise := Suc (Suc (Suc ?p)), handlers := handlers a2 @ [SReq [ZdoCmd ZdoCommand_STARTUP_FROM_APP] (Suc (Suc ?p))],
       raw := port', outputs := outputs a2 @ evs' \<rparr>"
    by (rule asksE [OF asks_startup_from_app run2, unfolded next2])
  define a4 where "a4 = handle_all (loop n) a3"
  have a4: "a4 = a3\<lparr> handlers := handlers started,
      settled := settled a3 @ [(?p, Inr [DeviceInfo_DeviceState, st]), (Suc (Suc ?p), Inr [code])],
      state_slots := state_slots a3 @ [(Suc ?p, [DeviceState_ZB_COORD], coordinator_states)] \<rparr>"
    unfolding a4_def loop(1)
    by (rule state_then_startup) (use fresh_promise(2) [OF run] st in \<open>simp_all add: a3(3) a2_def a1(3) hs map_add_def\<close>)
  define a5 where "a5 = handle_all (loop (Suc n)) a4"
  have a5: "a5 = a4\<lparr> emitted := emitted a4 @ [State_change DeviceState_ZB_COORD], state_slots := [],
      state_settled := state_settled a4 @ [(Suc ?p, Inr DeviceState_ZB_COORD)] \<rparr>"
    unfolding a5_def loop(2) using state_reached [of a4 "Suc ?p"] slots by (simp add: handle_all_def) (simp add: a4 a3(3) a2_def a1(3))
  have run5: "api_run a5" unfolding a5_def a4_def loop
    by (simp add: handle_all_def handle_def answer_def indication_def api_frame a3(2))
  have "quiet a5" using run5 slots by (simp add: quiet_def) (simp add: a5 a4 a3(3) a2_def a1(3))
  moreover have "future_result (Future (Suc (Suc ?p)) (Decode enum_codec)) a4 = Some (Inr code)"
    using fresh_promise(1) [OF run] by (simp add: future_result_def future_value_def a4 a3(3) a2_def a1(3) map_add_def codec_simps Decode_def)
  moreover have "state_result (Suc ?p) a5 = Some (Inr DeviceState_ZB_COORD)"
    using fresh_promise(4) [OF run] by (simp add: state_result_def a5 a4 a3(3) a2_def a1(3) map_add_def)
  moreover have "sent a5 = sent a @ take 2 network_frames"
    using issues_sent [OF issues_wait_for_state w] issues_sent [OF issues_startup_from_app a3(1)]
    by (simp add: a5_def a4_def network_frames_def)
  ultimately show "\<exists>a'. StartNetwork loop (a, n) = ((a', Suc (Suc n)), Going_on DeviceState_ZB_COORD) \<and> quiet a' \<and>
      sent a' = sent a @ take 2 network_frames"
    by (simp add: StartNetwork_def await_call_def co_bind_def co_call_def w a3(1) Await_def Let_def flip: a4_def a5_def)
qed

section \<open>Joining and the endpoint\<close>

lemma join_then_response:
  assumes hs: "handlers b = handlers started @ [SReq [ZdoCmd ZdoCommand_MGMT_PERMIT_JOIN_REQ] p]"
    and k: "map_of (continuations b) p = Some (Wait_after CheckOnlyStatus ZnpCommandType_AREQ (ZdoCmd ZdoCommand_MGMT_PERMIT_JOIN_RSP) 0 [] q)"
      "map_of (continuations b) q = None"
  shows "handle_all [answer (ZdoCmd ZdoCommand_MGMT_PERMIT_JOIN_REQ, [ZnpStatus_Success]),
      indication (ZdoCmd ZdoCommand_MGMT_PERMIT_JOIN_RSP) data] b
    = b\<lparr> handlers := handlers started, settled := settled b @ [(p, Inr [ZnpStatus_Success]), (q, Inr data)] \<rparr>"
proof -
  let ?wait = "Wait ZnpCommandType_AREQ (ZdoCmd ZdoCommand_MGMT_PERMIT_JOIN_RSP) [] q"
  let ?b = "b\<lparr> handlers := handlers started @ [?wait], settled := settled b @ [(p, Inr [ZnpStatus_Success])] \<rparr>"
  have "OnFrame ZnpCommandType_SRSP (ZdoCmd ZdoCommand_MGMT_PERMIT_JOIN_REQ) [ZnpStatus_Success] b
      = call_promise p (Inr [ZnpStatus_Success]) (b\<lparr> handlers := handlers started \<rparr>)"
    using response_settles [OF hs started_unclaimed] by simp
  also have "\<dots> = ?b"
    using k(1) by (simp add: call_promise_def continue_with_def log_result_def Let_def CheckOnlyStatus_def CheckStatus_def
      WaitFor_def AddHandlerWithTimeout_def)
  finally have first: "OnFrame ZnpCommandType_SRSP (ZdoCmd ZdoCommand_MGMT_PERMIT_JOIN_REQ) [ZnpStatus_Success] b = ?b" .
  have un: "unclaimed (handlers started) ZnpCommandType_AREQ (ZdoCmd ZdoCommand_MGMT_PERMIT_JOIN_RSP) data ?b"
    by (simp add: unclaimed_def awaits_def ctor_simps command_defs)
  have "OnFrame ZnpCommandType_AREQ (ZdoCmd ZdoCommand_MGMT_PERMIT_JOIN_RSP) data ?b
      = call_promise q (Inr data) (?b\<lparr> handlers := filter (\<lambda>h. \<not> expired ?b h) (handlers started) @ [] \<rparr>)"
    using OnFrame_remove [of ?b "handlers started" ?wait "[]" _ _ _ "\<lambda>x. x" q, OF _ un] by simp
  then show ?thesis using k(2)
    by (simp add: handle_all_def handle_def answer_def indication_def first call_promise_plain)
qed

lemma achieves_join:
  assumes loop: "loop n = [answer (ZdoCmd ZdoCommand_MGMT_PERMIT_JOIN_REQ, [ZnpStatus_Success]),
      indication (ZdoCmd ZdoCommand_MGMT_PERMIT_JOIN_RSP) (le_bytes 2 dst @ [ZnpStatus_Success])]"
  shows "achieves (await_call loop (ZdoMgmtPermitJoin AddrMode_ShortAddress 0 0 0)) n (Suc n) [network_frames ! 2] dst"
  unfolding achieves_def
proof (intro allI impI)
  fix a
  assume "quiet a"
  then have run: "api_run a" and hs: "handlers a = handlers started" and slots: "reset_slots a = []" "state_slots a = []"
    by (simp_all add: quiet_def)
  let ?m = "ZdoMgmtPermitJoin AddrMode_ShortAddress 0 0 0" and ?p = "next_promise a"
    and ?dec = "pair_codec (unsigned_codec :: 16 word codec) (enum_codec :: ZnpStatus codec)"
  let ?d = "\<lambda>bs. res_bind (Decode ?dec bs) (\<lambda>(value, status). if status \<noteq> ZnpStatus_Success
         then Inl (Runtime_error ''PermitJoin returned non-success status'') else Inr value)"
  let ?k = "Wait_after CheckOnlyStatus ZnpCommandType_AREQ (ZdoCmd ZdoCommand_MGMT_PERMIT_JOIN_RSP) 0 [] (Suc ?p)"
  have enc: "Encode (pair_codec enum_codec (pair_codec unsigned_codec (pair_codec unsigned_codec unsigned_codec)))
      (AddrMode_ShortAddress, 0 :: 16 word, 0 :: 8 word, 0 :: 8 word) = Inr [2, 0, 0, 0, 0]" by code_simp
  have asks0: "asks (call_then (RawSReq (ZdoCmd ZdoCommand_MGMT_PERMIT_JOIN_REQ) [2, 0, 0, 0, 0]) CheckOnlyStatus)
      (ZdoCmd ZdoCommand_MGMT_PERMIT_JOIN_REQ) CheckOnlyStatus" by (rule asks_request_then) simp
  obtain port evs a0 where a0: "call_then (RawSReq (ZdoCmd ZdoCommand_MGMT_PERMIT_JOIN_REQ) [2, 0, 0, 0, 0]) CheckOnlyStatus a
      = (a0, Inr (Future ?p CheckOnlyStatus))" "api_run a0"
    "a0 = a\<lparr> next_promise := Suc ?p, handlers := handlers a @ [SReq [ZdoCmd ZdoCommand_MGMT_PERMIT_JOIN_REQ] ?p],
       raw := port, outputs := outputs a @ evs \<rparr>"
    by (rule asksE [OF asks0 run])
  define a1 where "a1 = a0\<lparr> next_promise := Suc (Suc ?p), continuations := continuations a0 @ [(?p, ?k)] \<rparr>"
  have m: "?m a = (a1, Inr (Future (Suc ?p) ?d))"
    by (simp add: ZdoMgmtPermitJoin_def call_with_def enc call_then_def [of "WaitAfter _ _ _ _ _"] call_then_def [of "call_then (WaitAfter _ _ _ _ _) _"]
        WaitAfter_def a0(1) Let_def future_then_def) (simp add: a1_def a0(3))
  have run1: "api_run a1"
    using properD(1) [OF proper_calls(3) m run] .
  define a2 where "a2 = handle_all (loop n) a1"
  have a2: "a2 = a1\<lparr> handlers := handlers started,
      settled := settled a1 @ [(?p, Inr [ZnpStatus_Success]), (Suc ?p, Inr (le_bytes 2 dst @ [ZnpStatus_Success]))] \<rparr>"
    unfolding a2_def loop
    by (rule join_then_response) (use fresh_promise(2) [OF run] in \<open>simp_all add: a1_def a0(3) hs map_add_def\<close>)
  have "api_run a2" unfolding a2_def loop
    by (simp add: handle_all_def handle_def answer_def indication_def api_frame run1)
  then have "quiet a2" using slots by (simp add: quiet_def) (simp add: a2 a1_def a0(3))
  moreover have "future_result (Future (Suc ?p) ?d) a2 = Some (Inr dst)"
    using fresh_promise(1) [OF run] codec_laws.decode_img [OF canonical_imp_laws [OF uint16.pair_codec_canonical [OF uint8.canonical_codec_axioms]], of "(dst, 0)"]
    by (simp add: future_result_def future_value_def a2 a1_def a0(3) map_add_def enum_codec_eq pair_img_def pair_ok_def)
  moreover have "sent a2 = sent a @ [network_frames ! 2]"
    using issues_sent [OF issues_permit_join m] by (simp add: a2_def network_frames_def)
  ultimately show "\<exists>a'. await_call loop ?m (a, n) = ((a', Suc n), Going_on dst) \<and> quiet a' \<and> sent a' = sent a @ [network_frames ! 2]"
    by (simp add: await_call_def co_bind_def co_call_def m Await_def Let_def flip: a2_def)
qed

lemma achieves_register:
  assumes "loop n = [answer (AfCmd AfCommand_REGISTER, [ZnpStatus_Success])]"
  shows "achieves (await_call loop (Create 1 0x0104 5 0 Latency_NoLatency [] [])) n (Suc n) [network_frames ! 3] (ZclEndpoint_ctor 1)"
  using achieves_await_call [where loop = loop and n = n, OF asks_register, of "network_frames ! 3" "[ZnpStatus_Success]" "ZclEndpoint_ctor 1"]
    issues_register assms
  by (simp add: network_frames_def CheckOnlyStatus_def CheckStatus_def)

section \<open>The configuration\<close>

definition read_response :: "ConfigurationOption \<times> byte list \<Rightarrow> byte list" where
  "read_response e = ZnpStatus_Success # fst e # word_of_nat (length (snd e)) # snd e"

definition read_values :: "(byte list \<Rightarrow> error + (FullConfiguration \<Rightarrow> FullConfiguration)) list" where
  "read_values =
    [read_value enum_codec ConfigurationOption_STARTUP_OPTION (\<lambda>x r. r\<lparr> startup_option := x \<rparr>),
     read_value unsigned_codec ConfigurationOption_PANID (\<lambda>x r. r\<lparr> pan_id := x \<rparr>),
     read_value unsigned_codec ConfigurationOption_EXTENDED_PAN_ID (\<lambda>x r. r\<lparr> extended_pan_id := x \<rparr>),
     read_value unsigned_codec ConfigurationOption_CHANLIST (\<lambda>x r. r\<lparr> chan_list := x \<rparr>),
     read_value enum_codec ConfigurationOption_LOGICAL_TYPE (\<lambda>x r. r\<lparr> logical_type := x \<rparr>),
     read_value presharedkey_codec ConfigurationOption_PRECFGKEY (\<lambda>x r. r\<lparr> presharedkey := x \<rparr>),
     read_value bool_codec ConfigurationOption_PRECFGKEYS_ENABLE (\<lambda>x r. r\<lparr> precfgkeys_enable := x \<rparr>),
     read_value bool_codec ConfigurationOption_ZDO_DIRECT_CB (\<lambda>x r. r\<lparr> zdo_direct_cb := x \<rparr>)]"

definition assignments :: "FullConfiguration \<Rightarrow> (FullConfiguration \<Rightarrow> FullConfiguration) list" where
  "assignments config =
    [\<lambda>r. r\<lparr> startup_option := startup_option config \<rparr>, \<lambda>r. r\<lparr> pan_id := pan_id config \<rparr>,
     \<lambda>r. r\<lparr> extended_pan_id := extended_pan_id config \<rparr>, \<lambda>r. r\<lparr> chan_list := chan_list config \<rparr>,
     \<lambda>r. r\<lparr> logical_type := logical_type config \<rparr>, \<lambda>r. r\<lparr> presharedkey := presharedkey config \<rparr>,
     \<lambda>r. r\<lparr> precfgkeys_enable := precfgkeys_enable config \<rparr>, \<lambda>r. r\<lparr> zdo_direct_cb := zdo_direct_cb config \<rparr>]"

lemma Decode_fields:
  "Decode unsigned_codec [b :: byte] = Inr b"
  "Decode bool_codec [if v then 1 else 0] = Inr v"
  "Decode unsigned_codec (le_bytes 2 (p :: 16 word)) = Inr p"
  "Decode unsigned_codec (le_bytes 4 (c :: 32 word)) = Inr c"
  "Decode unsigned_codec (le_bytes 8 (e :: 64 word)) = Inr e"
  "length psk = 16 \<Longrightarrow> Decode presharedkey_codec psk = Inr psk"
proof -
  show "Decode unsigned_codec [b] = Inr b" using uint8.decode_img [of b] by simp
  show "Decode bool_codec [if v then 1 else 0] = Inr v" using bool.decode_img [of v] by (simp add: bool_img_def)
  show "Decode unsigned_codec (le_bytes 2 p) = Inr p" "Decode unsigned_codec (le_bytes 4 c) = Inr c"
    "Decode unsigned_codec (le_bytes 8 e) = Inr e"
    using uint16.decode_img [of p] uint32.decode_img [of c] uint64.decode_img [of e] by simp_all
  show "length psk = 16 \<Longrightarrow> Decode presharedkey_codec psk = Inr psk"
    using concat_le_bytes_1 [of psk, simplified] codec_laws.decode_img [OF uint8.array_codec_laws, of 16 psk]
    by (simp add: presharedkey_codec_def array_ok_def array_img_def list_all_iff)
qed

lemma read_response_ok:
  "Decode c bs = Inr x \<Longrightarrow> length bs \<le> 255 \<Longrightarrow> read_value c opt assign (read_response (opt, bs)) = Inr (assign x)"
  by (simp add: read_response_def read_value_ok)

lemma read_values_ok:
  assumes "length (presharedkey config) = 16" "i < 8"
  shows "(read_values ! i) (read_response (configuration_bytes config ! i)) = Inr (assignments config ! i)"
  using less_8_cases [OF assms(2)]
  by (auto simp: read_values_def configuration_bytes_def assignments_def enum_codec_eq assms(1)
    read_response_ok [OF Decode_fields(1)] read_response_ok [OF Decode_fields(2)] read_response_ok [OF Decode_fields(3)]
    read_response_ok [OF Decode_fields(4)] read_response_ok [OF Decode_fields(5)] read_response_ok [OF Decode_fields(6)]
    split del: if_split)

lemma assignments_nth:
  "assignments c ! 0 = (\<lambda>r. r\<lparr> startup_option := startup_option c \<rparr>)" "assignments c ! 1 = (\<lambda>r. r\<lparr> pan_id := pan_id c \<rparr>)"
  "assignments c ! 2 = (\<lambda>r. r\<lparr> extended_pan_id := extended_pan_id c \<rparr>)" "assignments c ! 3 = (\<lambda>r. r\<lparr> chan_list := chan_list c \<rparr>)"
  "assignments c ! 4 = (\<lambda>r. r\<lparr> logical_type := logical_type c \<rparr>)" "assignments c ! 5 = (\<lambda>r. r\<lparr> presharedkey := presharedkey c \<rparr>)"
  "assignments c ! 6 = (\<lambda>r. r\<lparr> precfgkeys_enable := precfgkeys_enable c \<rparr>)" "assignments c ! 7 = (\<lambda>r. r\<lparr> zdo_direct_cb := zdo_direct_cb c \<rparr>)"
  by (simp_all add: assignments_def)

lemma assignments_fold:
  assumes "set order \<subseteq> {..<8}"
  shows "foldl (\<lambda>retval assign. assign retval) r (map (\<lambda>i. assignments config ! i) order) =
    \<lparr> startup_option = (if 0 \<in> set order then startup_option config else startup_option r),
      pan_id = (if 1 \<in> set order then pan_id config else pan_id r),
      extended_pan_id = (if 2 \<in> set order then extended_pan_id config else extended_pan_id r),
      chan_list = (if 3 \<in> set order then chan_list config else chan_list r),
      logical_type = (if 4 \<in> set order then logical_type config else logical_type r),
      presharedkey = (if 5 \<in> set order then presharedkey config else presharedkey r),
      precfgkeys_enable = (if 6 \<in> set order then precfgkeys_enable config else precfgkeys_enable r),
      zdo_direct_cb = (if 7 \<in> set order then zdo_direct_cb config else zdo_direct_cb r) \<rparr>"
  using assms
proof (induction order arbitrary: r)
  case (Cons i order)
  then have i: "i < 8" and IH: "set order \<subseteq> {..<8}" by simp_all
  from less_8_cases [OF i] show ?case
    by (elim insertE emptyE) (simp_all add: Cons.IH [OF IH] assignments_nth assignments_nth [simplified] cong: if_cong)
qed simp

lemma achieves_read:
  assumes order: "set order = {..<8}" and psk: "length (presharedkey current) = 16"
    and loop: "loop n = map (\<lambda>i. answer (SapiCmd SapiCommand_READ_CONFIGURATION, read_response (configuration_bytes current ! i))) order"
  shows "achieves (ReadFullConfiguration order loop) n (Suc n) (read_frames order) current"
proof -
  let ?xs = "map (\<lambda>i. assignments current ! i) order"
  have sub: "set order \<subseteq> {..<8}" using order by simp
  have asks: "asks (read_requests ! i) (SapiCmd SapiCommand_READ_CONFIGURATION) (read_values ! i)" if "i < 8" for i
    using less_8_cases [OF that] by (auto simp: read_requests_def read_values_def asks_read)
  have vals: "(read_values ! (order ! j)) (read_response (configuration_bytes current ! (order ! j))) = Inr (assignments current ! (order ! j))"
    if "j < length order" for j using that order by (intro read_values_ok [OF psk]) (metis lessThan_iff nth_mem)
  have "achieves (co_bind (co_call (calls (map (\<lambda>i. read_requests ! i) order))) (\<lambda>futures. Await loop (when_all futures)))
      n (Suc n) (read_frames order) ?xs"
    by (rule achieves_together [where cds = "map (\<lambda>i. (SapiCmd SapiCommand_READ_CONFIGURATION, read_values ! i)) order"
        and es = "map (\<lambda>i. (SapiCmd SapiCommand_READ_CONFIGURATION, read_response (configuration_bytes current ! i))) order"])
      (use asks reads_issue [OF sub] vals order in
        \<open>auto simp: list.rel_map loop comp_def intro!: list.rel_refl_strong\<close>)
  moreover have "foldl (\<lambda>retval assign. assign retval) unset_configuration ?xs = current"
    unfolding assignments_fold [OF sub] order by simp
  ultimately show ?thesis
    using achieves_bind [where fs = "read_frames order" and gs = "[]", OF _ achieves_return]
    unfolding ReadFullConfiguration_def co_bind_assoc [symmetric] append_Nil2 by metis
qed

text \<open>The answer to a request to write an option.\<close>

abbreviation written :: loop_event where
  "written \<equiv> answer (SapiCmd SapiCommand_WRITE_CONFIGURATION, [ZnpStatus_Success])"

lemma CheckOnlyStatus_success: "CheckOnlyStatus [ZnpStatus_Success] = Inr ()"
  by (simp add: CheckOnlyStatus_def CheckStatus_def)

lemma achieves_write:
  assumes order: "set order \<subseteq> {..<8}" and psk: "length (presharedkey config) = 16"
    and loop: "loop n = replicate (length order) written"
  shows "achieves (WriteFullConfiguration order loop config) n (Suc n) (write_frames order config) ()"
proof -
  have asks: "asks (write_requests config ! i) (SapiCmd SapiCommand_WRITE_CONFIGURATION) CheckOnlyStatus" if "i < 8" for i
    using less_8_cases [OF that] Encode_presharedkey [OF psk] psk
    by (auto simp: write_requests_def enum_codec_eq intro!: asks_write)
  have says: "loop n = map answer (map (\<lambda>i. (SapiCmd SapiCommand_WRITE_CONFIGURATION, [ZnpStatus_Success])) order)"
    by (simp add: loop comp_def map_replicate_const)
  have "achieves (co_bind (co_call (calls (map (\<lambda>i. write_requests config ! i) order))) (\<lambda>futures. Await loop (when_all futures)))
      n (Suc n) (write_frames order config) (map (\<lambda>i. ()) order)"
  proof (rule achieves_together [where loop = loop and n = n
        and cds = "map (\<lambda>i. (SapiCmd SapiCommand_WRITE_CONFIGURATION, CheckOnlyStatus)) order", OF _ _ _ _ _ says])
    show "list_all2 (\<lambda>m (c, d). asks m c d) (map (\<lambda>i. write_requests config ! i) order)
        (map (\<lambda>i. (SapiCmd SapiCommand_WRITE_CONFIGURATION, CheckOnlyStatus)) order)"
      unfolding list.rel_map by (rule list.rel_refl_strong) (use asks order in auto)
  qed (simp_all add: writes_issue [OF order psk] CheckOnlyStatus_success comp_def)
  from achieves_bind [OF this achieves_return] show ?thesis
    by (simp add: WriteFullConfiguration_def co_bind_assoc)
qed

lemma achieves_configure:
  assumes "set order \<subseteq> {..<8}" "length (presharedkey desired) = 16" "length reset = 6"
    and loop: "\<not> same_configuration current desired \<Longrightarrow> loop n = [written]"
      "\<not> same_configuration current desired \<Longrightarrow> loop (n + 1) = [indication (SysCmd SysCommand_RESET_IND) reset]"
      "\<not> same_configuration current desired \<Longrightarrow> loop (n + 2) = replicate (length order) written"
  shows "achieves (Configure order loop desired current) n (if same_configuration current desired then n else n + 3)
    (configure_frames order desired current) ()"
proof (cases "same_configuration current desired")
  case True
  then show ?thesis by (simp add: Configure_def configure_frames_def achieves_return)
next
  case False
  let ?clear = "SapiWriteConfiguration enum_codec ConfigurationOption_STARTUP_OPTION (StartupOption_ClearConfig OR StartupOption_ClearState)"
  have clear: "asks ?clear (SapiCmd SapiCommand_WRITE_CONFIGURATION) CheckOnlyStatus"
    by (rule asks_write [where bs = "[3]"]) (simp_all add: enum_codec_eq)
  have clears: "issues ?clear [write_frame (ConfigurationOption_STARTUP_OPTION, [3])]"
    by (rule issues_write) (simp_all add: enum_codec_eq)
  obtain info where r: "achieves (await_reset loop) (Suc n) (Suc (Suc n)) [reset_frame] info"
    using achieves_reset [OF assms(3), of loop "Suc n"] loop(2) [OF False] by auto
  have w: "achieves (WriteFullConfiguration order loop desired) (Suc (Suc n)) (Suc (Suc (Suc n))) (write_frames order desired) ()"
    using loop(3) [OF False] by (intro achieves_write assms) simp
  show ?thesis
    using achieves_bind [OF achieves_await_call [where loop = loop and n = n, OF clear clears CheckOnlyStatus_success loop(1) [OF False]] achieves_bind [OF r w]] False
    by (simp add: Configure_def configure_frames_def numeral_3_eq_3)
qed

section \<open>The whole start\<close>

text \<open>
  The dongle: what it says during each wait. It holds \<open>current\<close>, has the address \<open>ieee\<close> and is in
  state \<open>st\<close> when it is asked for it; \<open>matches\<close> says whether no configuration is written.
\<close>

definition dongle :: "nat list \<Rightarrow> nat list \<Rightarrow> IEEEAddress \<Rightarrow> FullConfiguration \<Rightarrow> bool \<Rightarrow> byte list \<Rightarrow> DeviceState
    \<Rightarrow> nat \<Rightarrow> loop_event list" where
  "dongle read_order write_order ieee current matches reset st n =
     (let says =
       [[indication (SysCmd SysCommand_RESET_IND) reset],
        [answer (SapiCmd SapiCommand_GET_DEVICE_INFO, DeviceInfo_DeviceIEEEAddress # le_bytes 8 ieee)],
        map (\<lambda>i. answer (SapiCmd SapiCommand_READ_CONFIGURATION, read_response (configuration_bytes current ! i))) read_order]
       @ (if matches then [] else
         [[written], [indication (SysCmd SysCommand_RESET_IND) reset], replicate (length write_order) written])
       @ [[answer (SapiCmd SapiCommand_GET_DEVICE_INFO, [DeviceInfo_DeviceState, st]),
           answer (ZdoCmd ZdoCommand_STARTUP_FROM_APP, [1])],
          [indication (ZdoCmd ZdoCommand_STATE_CHANGE_IND) [DeviceState_ZB_COORD]],
          [answer (ZdoCmd ZdoCommand_MGMT_PERMIT_JOIN_REQ, [ZnpStatus_Success]),
           indication (ZdoCmd ZdoCommand_MGMT_PERMIT_JOIN_RSP) (le_bytes 2 (0 :: 16 word) @ [ZnpStatus_Success])],
          [answer (AfCmd AfCommand_REGISTER, [ZnpStatus_Success])]]
      in if n < length says then says ! n else [])"

text \<open>The address and the configuration are read from such a dongle as it holds them.\<close>

lemma achieves_startup_reads:
  assumes "set read_order = {..<8}" "length (presharedkey current) = 16" "length reset = 6"
    and "loop = dongle read_order write_order ieee current same reset st"
  shows "achieves (startup_reads read_order loop) 0 3 (reading_frames read_order) (ieee, current)"
proof -
  have loops: "loop 0 = [indication (SysCmd SysCommand_RESET_IND) reset]"
    "loop 1 = [answer (SapiCmd SapiCommand_GET_DEVICE_INFO, DeviceInfo_DeviceIEEEAddress # le_bytes 8 ieee)]"
    "loop 2 = map (\<lambda>i. answer (SapiCmd SapiCommand_READ_CONFIGURATION, read_response (configuration_bytes current ! i))) read_order"
    by (simp_all add: assms(4) dongle_def)
  obtain info where reset: "achieves (await_reset loop) 0 1 [reset_frame] info"
    using achieves_reset [where loop = loop and n = 0, OF assms(3) loops(1)] by auto
  have ieee: "achieves (await_call loop (SapiGetDeviceInfo unsigned_codec DeviceInfo_DeviceIEEEAddress)) 1 2
      [device_info_frame DeviceInfo_DeviceIEEEAddress] ieee"
    using achieves_await_call [where loop = loop and n = 1, OF asks_device_info issues_device_info device_info_value_ok loops(2)]
      uint64.decode_partial_img [of ieee "[]"] by (simp add: numeral_2_eq_2)
  have read: "achieves (ReadFullConfiguration read_order loop) 2 3 (read_frames read_order) current"
    using achieves_read [where loop = loop and n = 2, OF assms(1,2) loops(3)] by simp
  show ?thesis
    using achieves_bind [OF reset achieves_bind [OF ieee achieves_bind [OF read achieves_return]]]
    by (simp add: startup_reads_def reading_frames_def)
qed

text \<open>A dongle that answers every request is set up, whatever configuration it holds.\<close>

lemma initialize_answered:
  assumes "set read_order = {..<8}" "set write_order = {..<8}" "length psk = 16"
    and "length (presharedkey current) = 16" "length reset = 6" "st \<in> set coordinator_states"
    and "loop = dongle read_order write_order ieee current
      (same_configuration current (desired_configuration pan channels psk ieee)) reset st"
  shows "\<exists>a'. Run (Initialize read_order write_order loop pan channels psk) started = (a', Some (Inr (ZclEndpoint_ctor 1))) \<and>
    sent a' = startup_frames read_order write_order (desired_configuration pan channels psk ieee) current"
proof -
  let ?desired = "desired_configuration pan channels psk ieee"
  let ?same = "same_configuration current ?desired"
  let ?n = "if ?same then 3 else 6 :: nat"
  have loops: "\<not> ?same \<Longrightarrow> loop 3 = [written]" "\<not> ?same \<Longrightarrow> loop 4 = [indication (SysCmd SysCommand_RESET_IND) reset]"
    "\<not> ?same \<Longrightarrow> loop 5 = replicate (length write_order) written"
    "loop ?n = [answer (SapiCmd SapiCommand_GET_DEVICE_INFO, [DeviceInfo_DeviceState, st]),
       answer (ZdoCmd ZdoCommand_STARTUP_FROM_APP, [1])]"
    "loop (Suc ?n) = [indication (ZdoCmd ZdoCommand_STATE_CHANGE_IND) [DeviceState_ZB_COORD]]"
    "loop (Suc (Suc ?n)) = [answer (ZdoCmd ZdoCommand_MGMT_PERMIT_JOIN_REQ, [ZnpStatus_Success]),
       indication (ZdoCmd ZdoCommand_MGMT_PERMIT_JOIN_RSP) (le_bytes 2 (0 :: 16 word) @ [ZnpStatus_Success])]"
    "loop (Suc (Suc (Suc ?n))) = [answer (AfCmd AfCommand_REGISTER, [ZnpStatus_Success])]"
    by (simp_all add: assms(7) dongle_def)
  note reads = achieves_startup_reads [OF assms(1,4,5,7)]
  have psk: "length (presharedkey ?desired) = 16" by (simp add: desired_configuration_def assms(3))
  have conf: "achieves (Configure write_order loop ?desired current) 3 ?n (configure_frames write_order ?desired current) ()"
    using achieves_configure [of write_order ?desired reset current loop 3] assms(2,5) psk loops(1-3) by (simp split: if_splits)
  have join: "achieves (await_call loop (ZdoMgmtPermitJoin AddrMode_ShortAddress 0 0 0)) (Suc (Suc ?n)) (Suc (Suc (Suc ?n))) [network_frames ! 2] 0"
    by (rule achieves_join [where loop = loop and n = "Suc (Suc ?n)", OF loops(6)])
  have register: "achieves (await_call loop (Create 1 0x0104 5 0 Latency_NoLatency [] [])) (Suc (Suc (Suc ?n))) (Suc (Suc (Suc (Suc ?n))))
      [network_frames ! 3] (ZclEndpoint_ctor 1)" by (rule achieves_register [where loop = loop and n = "Suc (Suc (Suc ?n))", OF loops(7)])
  have "achieves (Initialize read_order write_order loop pan channels psk) 0 (Suc (Suc (Suc (Suc ?n))))
      (reading_frames read_order @ configure_frames write_order ?desired current @ take 2 network_frames @ [network_frames ! 2] @ [network_frames ! 3])
      (ZclEndpoint_ctor 1)"
    unfolding Initialize_parts
    by (rule achieves_bind [OF reads], unfold prod.case startup_sets_def,
      rule achieves_bind [OF conf], rule achieves_bind [OF achieves_network [where loop = loop and n = ?n, OF loops(4,5) assms(6)]],
      rule achieves_bind [OF join register])
  then obtain a' where "Initialize read_order write_order loop pan channels psk (started, 0) =
      ((a', Suc (Suc (Suc (Suc ?n)))), Going_on (ZclEndpoint_ctor 1))"
    "sent a' = sent started @ (reading_frames read_order @ configure_frames write_order ?desired current @ take 2 network_frames @ [network_frames ! 2] @ [network_frames ! 3])"
    by (rule achievesE [OF _ quiet_started])
  moreover have "sent started = []" by (simp add: sent_def ctor_simps map_filter_def)
  ultimately show ?thesis by (simp add: Run_def startup_frames_def network_frames_def)
qed

end
