(* ===== verification/StartupRun.thy ===== *)
theory StartupRun
  imports StartupAnswers
begin

text \<open>
  From the options to the running hub. The locale \<open>startup_invariant\<close> lists what a coroutine can do to the
  request layer; an invariant of these holds when \<open>Initialize\<close> returns, throws or waits. There are two
  instances: the request layer stays in one of its own runs, and no error of the serial port is
  reported unless a write fails. At the end, the programme with a dongle that answers.
\<close>

section \<open>Invariants of the start-up\<close>

locale startup_invariant =
  fixes I :: "api \<Rightarrow> bool" and good :: "loop_event \<Rightarrow> bool"
  assumes I_request: "I a \<Longrightarrow> I (fst (RawSReq command payload a))"
    and I_wait: "I a \<Longrightarrow> I (fst (WaitAfter (call_then (RawSReq command payload) first) type response timeout data_prefix a))"
    and I_reset: "I a \<Longrightarrow> I (fst (SysReset soft a))"
    and I_state: "I a \<Longrightarrow> I (fst (WaitForState ends alloweds a))"
    and I_event: "good ev \<Longrightarrow> I a \<Longrightarrow> I (handle ev a)"
begin

definition call_keeps :: "'a call \<Rightarrow> bool" where
  "call_keeps m \<longleftrightarrow> (\<forall>a. I a \<longrightarrow> I (fst (m a)))"

definition co_keeps :: "'a coroutine \<Rightarrow> bool" where
  "co_keeps c \<longleftrightarrow> (\<forall>s. I (fst s) \<longrightarrow> I (fst (fst (c s))))"

lemma call_keeps_base:
  "call_keeps (RawSReq command payload)" "call_keeps (SysReset soft)" "call_keeps (WaitForState ends alloweds)"
  "call_keeps (WaitAfter (call_then (RawSReq command payload) first) type response timeout data_prefix)"
  by (auto simp: call_keeps_def intro: I_request I_reset I_state I_wait)

lemma call_keeps_then: "call_keeps m \<Longrightarrow> call_keeps (call_then m g)"
  by (simp add: call_keeps_def call_then_def case_prod_beta)

lemma call_keeps_with: "(\<And>x. call_keeps (m x)) \<Longrightarrow> call_keeps (call_with r m)"
  by (cases r) (simp_all add: call_keeps_def call_with_def)

lemma call_keeps_calls: "(\<And>m. m \<in> set ms \<Longrightarrow> call_keeps m) \<Longrightarrow> call_keeps (calls ms)"
proof (induction ms)
  case (Cons m ms)
  then have "call_keeps m" "call_keeps (calls ms)" by simp_all
  then show ?case
    by (fastforce simp: call_keeps_def split: prod.split sum.split)
qed (simp add: call_keeps_def)

lemmas call_keeps_rules = call_keeps_base call_keeps_then call_keeps_with

lemma keeps_requests:
  "call_keeps (SapiGetDeviceInfo c info)" "call_keeps (SapiReadConfiguration c opt)" "call_keeps (SapiWriteConfiguration c opt v)"
  "call_keeps (ZdoStartupFromApp delay)" "call_keeps (ZdoMgmtPermitJoin mode dst duration tc)"
  "call_keeps (Create ep profile dev version latency ins outs)" "call_keeps (read_request c opt assign)"
  unfolding SapiGetDeviceInfo_def SapiGetDeviceInfoRaw_def SapiReadConfiguration_def SapiReadConfigurationRaw_def
    SapiWriteConfiguration_def SapiWriteConfigurationRaw_def ZdoStartupFromApp_def ZdoMgmtPermitJoin_def Create_def
    AfRegister_def read_request_def
  by (intro call_keeps_rules)+

lemma co_keeps_call:
  assumes "call_keeps m"
  shows "co_keeps (co_call m)"
  unfolding co_keeps_def
proof (intro allI impI)
  fix s :: "api \<times> nat"
  assume I: "I (fst s)"
  obtain a n where s: "s = (a, n)" by (cases s)
  with assms I have "I (fst (m a))" by (simp add: call_keeps_def)
  then show "I (fst (fst (co_call m s)))" by (cases "m a") (simp add: co_call_def s split: sum.split)
qed

lemma co_keeps_return: "co_keeps (co_return x)"
  by (simp add: co_keeps_def co_return_def)

lemma I_events: "list_all good evs \<Longrightarrow> I a \<Longrightarrow> I (handle_all evs a)"
  by (induction evs arbitrary: a) (simp_all add: handle_all_def I_event)

lemma co_keeps_await: "(\<And>n. list_all good (loop n)) \<Longrightarrow> co_keeps (Await loop result)"
  by (auto simp: co_keeps_def Await_def Let_def I_events split: prod.splits option.splits sum.splits)

lemma co_keeps_bind:
  assumes "co_keeps c" "\<And>x. co_keeps (k x)"
  shows "co_keeps (co_bind c k)"
  unfolding co_keeps_def
proof (intro allI impI)
  fix s :: "api \<times> nat"
  assume I: "I (fst s)"
  obtain s' r where c: "c s = (s', r)" by fastforce
  with assms(1) I have I': "I (fst s')" unfolding co_keeps_def by (metis fst_conv)
  show "I (fst (fst (co_bind c k s)))"
  proof (cases r)
    case (Going_on x)
    have "I (fst (fst (k x s')))" using assms(2) [of x] I' unfolding co_keeps_def by blast
    then show ?thesis by (simp add: co_bind_def c Going_on)
  qed (simp_all add: co_bind_def c I')
qed

lemmas co_keeps_rules = co_keeps_return co_keeps_bind co_keeps_call co_keeps_await

lemma co_keeps_await_call: "call_keeps m \<Longrightarrow> (\<And>n. list_all good (loop n)) \<Longrightarrow> co_keeps (await_call loop m)"
  unfolding await_call_def by (intro co_keeps_rules)

lemma co_keeps_await_reset: "(\<And>n. list_all good (loop n)) \<Longrightarrow> co_keeps (await_reset loop)"
  unfolding await_reset_def by (intro co_keeps_rules call_keeps_rules)

lemma read_requests_keep: "m \<in> set read_requests \<Longrightarrow> call_keeps m"
  by (auto simp: read_requests_def keeps_requests)

lemma write_requests_keep: "m \<in> set (write_requests config) \<Longrightarrow> call_keeps m"
  by (auto simp: write_requests_def keeps_requests)

lemma lengths_8: "length read_requests = 8" "length (write_requests config) = 8"
  by (simp_all add: read_requests_def write_requests_def)

lemma co_keeps_configurations:
  assumes "set order \<subseteq> {..<8}" "\<And>n. list_all good (loop n)"
  shows "co_keeps (ReadFullConfiguration order loop)" "co_keeps (WriteFullConfiguration order loop config)"
proof -
  have "call_keeps (read_requests ! i)" "call_keeps (write_requests config ! i)" if "i \<in> set order" for i
    using that assms(1) by (auto intro!: read_requests_keep write_requests_keep nth_mem simp: lengths_8)
  then show "co_keeps (ReadFullConfiguration order loop)" "co_keeps (WriteFullConfiguration order loop config)"
    unfolding ReadFullConfiguration_def WriteFullConfiguration_def
    by (auto intro!: co_keeps_rules call_keeps_calls simp: assms(2))
qed

lemma co_keeps_initialize:
  assumes "set read_order \<subseteq> {..<8}" "set write_order \<subseteq> {..<8}" "\<And>n. list_all good (loop n)"
  shows "co_keeps (Initialize read_order write_order loop pan channels psk)"
proof -
  note keeps = co_keeps_await_call [OF _ assms(3)] co_keeps_await_reset [OF assms(3)] keeps_requests call_keeps_base
    co_keeps_configurations [OF assms(1,3)] co_keeps_configurations [OF assms(2,3)] co_keeps_await [OF assms(3)]
    co_keeps_return co_keeps_bind co_keeps_call
  have conf: "co_keeps (Configure write_order loop desired current)" for desired current
    unfolding Configure_def by (cases "same_configuration current desired") (auto intro!: keeps)
  have net: "co_keeps (StartNetwork loop)" unfolding StartNetwork_def by (intro keeps)
  show ?thesis unfolding Initialize_def Let_def by (intro keeps conf net)
qed

lemma I_Run:
  assumes "set read_order \<subseteq> {..<8}" "set write_order \<subseteq> {..<8}" "\<And>n. list_all good (loop n)" "I a"
    and "Run (Initialize read_order write_order loop pan channels psk) a = (a', r)"
  shows "I a'"
proof -
  have "I (fst (fst (Initialize read_order write_order loop pan channels psk (a, 0))))"
    using co_keeps_initialize [OF assms(1-3)] assms(4) by (simp add: co_keeps_def)
  with assms(5) show ?thesis by (auto simp: Run_def split: prod.splits progress.splits)
qed

end

section \<open>The two instances\<close>

lemma run_events: "api_run a \<Longrightarrow> api_run (handle ev a)"
  by (cases ev) (auto simp: handle_def intro: api_frame api_timer api_port split: prod.split)

interpretation runs: startup_invariant api_run "\<lambda>ev. True"
proof unfold_locales
  fix a command payload
  assume "api_run a"
  then show "api_run (fst (RawSReq command payload a))"
    using properD(1) [OF proper_RawSReq, of command payload a] by (metis prod.collapse)
qed (auto intro: run_events api_reset [OF _ prod.collapse [symmetric]] api_wait_for_state [OF _ prod.collapse [symmetric]]
  api_request_wait [OF _ prod.collapse [symmetric]])

definition no_error :: "api \<Rightarrow> bool" where
  "no_error a \<longleftrightarrow> On_error \<notin> set (outputs a)"

lemma no_error_SendFrame: "no_error a \<Longrightarrow> no_error (fst (raw_SendFrame type command payload a))"
  by (auto simp: no_error_def raw_SendFrame_def SendFrame_def TrySend_def Let_def case_prod_beta split: sum.split list.split)

lemma no_error_RawSReq: "no_error a \<Longrightarrow> no_error (fst (RawSReq command payload a))"
  using no_error_SendFrame [of "a\<lparr> next_promise := Suc (next_promise a), handlers := handlers a @ [SReq [command] (next_promise a)] \<rparr>"]
  by (simp add: RawSReq_def RawSReq_any_def Let_def case_prod_beta no_error_def)

lemma no_error_call_then: "no_error (fst (m a)) \<Longrightarrow> no_error (fst (call_then m g a))"
  by (simp add: call_then_def case_prod_beta)

lemma no_error_wait: "no_error (fst (m a)) \<Longrightarrow> no_error (fst (WaitAfter m type response timeout data_prefix a))"
  by (auto simp: WaitAfter_def no_error_def Let_def split: prod.splits sum.splits future.splits)

interpretation calm: startup_invariant no_error "\<lambda>ev. ev \<noteq> Write_handled True"
proof unfold_locales
  fix a soft
  assume a: "no_error a"
  show "no_error (fst (SysReset soft a))"
    using no_error_SendFrame [of "a\<lparr> next_promise := Suc (next_promise a), reset_slots := reset_slots a @ [next_promise a] \<rparr>"] a
    by (auto simp: SysReset_def Let_def call_with_def case_prod_beta no_error_def split: sum.split)
next
  fix a ends alloweds
  assume a: "no_error a"
  have "no_error (fst (SapiGetDeviceInfo (enum_codec :: DeviceState codec) DeviceInfo_DeviceState a))"
    unfolding SapiGetDeviceInfo_def SapiGetDeviceInfoRaw_def call_with_def
    by (auto split: sum.split intro!: no_error_call_then no_error_RawSReq a)
  then show "no_error (fst (WaitForState ends alloweds a))"
    by (auto simp: WaitForState_def no_error_def Let_def split: prod.splits sum.splits future.splits)
next
  fix a ev
  assume "ev \<noteq> Write_handled True" "no_error a"
  then show "no_error (handle ev a)"
    by (cases ev) (auto simp: handle_def no_error_def OnFrame_def outputs_OnFrame_loop TimerExpired_def SendHandler_def TrySend_def
        split: option.split list.split)
qed (simp_all add: no_error_RawSReq no_error_wait no_error_call_then)

section \<open>Options\<close>

lemma length_padded_key [simp]: "length (padded_key bs) = 16"
  by (simp add: padded_key_def)

lemma choose_psk_length: "choose_psk m vars = Some key \<Longrightarrow> length key = 16 \<and> (var_psk vars = None \<or> var_pskhex vars = None)"
  by (auto simp: choose_psk_def split: option.splits sum.splits if_splits)

lemma main_start_launched:
  assumes "main_start m (Inr vars) = Launched l"
  obtains tree db client where "read_info m (var_cluster_info vars) = Inr tree" "var_port vars \<noteq> None"
    "ParseFromStream MakeNameSafeForMqtt tree ClusterDb_ctor = (db, Inr True)"
    "FromUrl (websockets_built_in m) (var_mqtt vars) (var_instance_id vars) = Inr client"
    "main_launch m vars db client = Launched l"
  using assms by (auto simp: main_start_def split: if_splits sum.splits prod.splits bool.splits)

lemma main_launch_launched:
  assumes "main_launch m vars db client = Launched l"
  obtains key channels endpos where "choose_psk m vars = Some key" "stoul (var_channelmask vars) 0 = Inr (channels, endpos)"
    "launch_settings l = \<lparr> mqtt_prefix = MakePrefixEndWithSlash (var_topic vars), instance_id = var_instance_id vars,
       mqtt_recursive_publish = var_recursive_publish vars, cluster_db = db \<rparr>"
    "launch_channels l = ucast (word_of_nat channels AND ucast CHANNEL_ALL_MASK :: 64 word)" "launch_psk l = key"
  using assms by (auto simp: main_launch_def Let_def split: option.splits sum.splits prod.splits)

lemma bit_channel_mask: "bit CHANNEL_ALL_MASK i \<longleftrightarrow> 11 \<le> i \<and> i \<le> 26"
proof -
  have "CHANNEL_ALL_MASK = push_bit 11 (mask 16)" by (simp add: CHANNEL_ALL_MASK_def) code_simp
  then show ?thesis unfolding \<open>CHANNEL_ALL_MASK = _\<close> by (auto simp: bit_simps)
qed

lemma MakePrefix_last: "MakePrefixEndWithSlash p = [] \<or> List.last (MakePrefixEndWithSlash p) = CHR ''/''"
  by (cases "p = []") (auto simp: MakePrefixEndWithSlash_def last_conv_nth)

section \<open>Properties\<close>

text \<open>
  C26: Options with which the programme launches are in range: the key has 16 bytes and comes from one
  option, the channels are between 11 and 26, the topics are under a prefix that is empty or ends with
  a slash, and the database holds the whole cluster file.
\<close>

theorem launch_in_range:
  assumes "main_start m (Inr vars) = Launched l"
  shows "length (launch_psk l) = 16 \<and> (var_psk vars = None \<or> var_pskhex vars = None) \<and>
    (\<forall>i. bit (launch_channels l) i \<longrightarrow> 11 \<le> i \<and> i \<le> 26) \<and>
    (mqtt_prefix (launch_settings l) = [] \<or> List.last (mqtt_prefix (launch_settings l)) = CHR ''/'') \<and>
    (\<exists>tree. read_info m (var_cluster_info vars) = Inr tree \<and>
      ParseFromStream MakeNameSafeForMqtt tree ClusterDb_ctor = (cluster_db (launch_settings l), Inr True))"
proof -
  obtain tree db client where t: "read_info m (var_cluster_info vars) = Inr tree"
    "ParseFromStream MakeNameSafeForMqtt tree ClusterDb_ctor = (db, Inr True)" "main_launch m vars db client = Launched l"
    by (rule main_start_launched [OF assms])
  from t(3) show ?thesis
  proof (rule main_launch_launched)
    fix key channels endpos
    assume key: "choose_psk m vars = Some key" "launch_psk l = key"
      and set: "launch_settings l = \<lparr> mqtt_prefix = MakePrefixEndWithSlash (var_topic vars), instance_id = var_instance_id vars,
         mqtt_recursive_publish = var_recursive_publish vars, cluster_db = db \<rparr>"
      and ch: "launch_channels l = ucast (word_of_nat channels AND ucast CHANNEL_ALL_MASK :: 64 word)"
    have "bit (launch_channels l) i \<Longrightarrow> 11 \<le> i \<and> i \<le> 26" for i
      unfolding ch by (simp add: bit_simps bit_channel_mask)
    with t(1,2) choose_psk_length [OF key(1)] key(2) MakePrefix_last [of "var_topic vars"] show ?thesis by (simp add: set)
  qed
qed

definition example_machine :: machine where
  "example_machine = \<lparr> read_info = (\<lambda>name. Inr (Ptree [] [])), open_serial_port = (\<lambda>name. Inr ()),
     unhex = (\<lambda>s. Inl Invalid_argument), websockets_built_in = False \<rparr>"

definition example_variables :: variables where
  "example_variables = \<lparr> var_help = False, var_port = Some ''/dev/ttyACM0'', var_mqtt = ''mqtt://127.0.0.1:1883/'',
     var_topic = ''AqaraHub'', var_instance_id = [], var_panid = 0xFFFF, var_psk = Some ''secret'', var_pskhex = None,
     var_cluster_info = ''clusters.info'', var_recursive_publish = False, var_channelmask = ''0x0800'' \<rparr>"

lemma example_launch: "\<exists>client. main_start example_machine (Inr example_variables) = Launched \<lparr>
    launch_settings = \<lparr> mqtt_prefix = ''AqaraHub/'', instance_id = [], mqtt_recursive_publish = False, cluster_db = ClusterDb_ctor \<rparr>,
    launch_client = client, launch_pan_id = 0xFFFF, launch_channels = 0x800,
    launch_psk = [115, 101, 99, 114, 101, 116, 0, 0, 0, 0, 0, 0, 0, 0, 0, 0] \<rparr>"
proof -
  have "\<not> isl (FromUrl False ''mqtt://127.0.0.1:1883/'' [])" by code_simp
  then have url: "\<exists>client. FromUrl False ''mqtt://127.0.0.1:1883/'' [] = Inr client"
    by (cases "FromUrl False ''mqtt://127.0.0.1:1883/'' []") simp_all
  have mask: "stoul ''0x0800'' 0 = Inr (0x800, 6)"
    by (simp add: stoul_def Let_def is_space_def strtoul_base_def is_digit_in_def digit_value_def digits_value_def ULONG_MAX_def)
  have key: "padded_key (string_bytes ''secret'') = [115, 101, 99, 114, 101, 116, 0, 0, 0, 0, 0, 0, 0, 0, 0, 0]" by code_simp
  have db: "ParseFromStream MakeNameSafeForMqtt (Ptree [] []) ClusterDb_ctor = (ClusterDb_ctor, Inr True)"
    by (simp add: ParseFromStream_def)
  have "(ucast (word_of_nat 0x800 AND ucast CHANNEL_ALL_MASK :: 64 word) :: 32 word) = 0x800" by code_simp
  with url mask key db show ?thesis
    by (auto simp: main_start_def example_machine_def example_variables_def main_launch_def choose_psk_def
      MakePrefixEndWithSlash_def)
qed

theorem launch_in_range_witness:
  "\<exists>l. main_start example_machine (Inr example_variables) = Launched l \<and> length (launch_psk l) = 16 \<and>
    (\<forall>i. bit (launch_channels l) i \<longrightarrow> 11 \<le> i \<and> i \<le> 26)"
  using example_launch launch_in_range [of example_machine example_variables] by blast

lemma main_run_answered:
  fixes l :: launch
  defines "desired \<equiv> desired_configuration (launch_pan_id l) (launch_channels l) (launch_psk l)"
  assumes "length (launch_psk l) = 16" "set read_order = {..<8}" "set write_order = {..<8}"
    and "length (presharedkey current) = 16" "length reset = 6" "st \<in> set coordinator_states"
    and "loop = dongle read_order write_order ieee current (same_configuration current (desired ieee)) reset st"
  shows "\<exists>a'. main_run read_order write_order loop l w started =
      (a', Running_hub (start_hub (mqtt_prefix (launch_settings l)) a' (ZclEndpoint_ctor 1) w)) \<and>
    sent a' = startup_frames read_order write_order (desired ieee) current"
proof -
  obtain a' where a': "Run (Initialize read_order write_order loop (launch_pan_id l) (launch_channels l) (launch_psk l)) started
      = (a', Some (Inr (ZclEndpoint_ctor 1)))"
    "sent a' = startup_frames read_order write_order (desired ieee) current"
    using initialize_answered [OF assms(3,4,2,5-7), of loop ieee "launch_pan_id l" "launch_channels l"] assms(8)
    unfolding desired_def by blast
  have "list_all (\<lambda>ev. ev \<noteq> Write_handled True) (loop n)" for n
    by (auto simp: assms(8) dongle_def Let_def answer_def indication_def list_all_iff nth_append nth_Cons split: nat.split)
  moreover have "no_error started" by (simp add: no_error_def ctor_simps)
  ultimately have "no_error a'" using calm.I_Run [OF _ _ _ _ a'(1)] assms(3,4) by simp
  with a' show ?thesis by (simp add: main_run_def no_error_def)
qed

text \<open>
  C4: A dongle that answers every request becomes the hub: whenever the options launch the programme, and
  whatever configuration the dongle holds, the programme reaches its running state, with the slots
  connected and the topics subscribed, and the frames it has sent are exactly the sequence for that
  configuration. So the configuration of the options is written if and only if it differs from the one
  held (a PAN identifier \<open>0xFFFF\<close> on either side counts as equal).
\<close>

theorem programme_starts:
  assumes "main_start m (Inr vars) = Launched l" "set read_order = {..<8}" "set write_order = {..<8}"
    and "length (presharedkey current) = 16" "length reset = 6" "st \<in> set coordinator_states"
    and "desired = desired_configuration (launch_pan_id l) (launch_channels l) (launch_psk l) ieee"
    and "loop = dongle read_order write_order ieee current (same_configuration current desired) reset st"
  shows "\<exists>a'. main_run read_order write_order loop l w started =
      (a', Running_hub (start_hub (mqtt_prefix (launch_settings l)) a' (ZclEndpoint_ctor 1) w)) \<and>
    sent a' = startup_frames read_order write_order desired current"
proof -
  obtain db client where "main_launch m vars db client = Launched l" by (rule main_start_launched [OF assms(1)])
  then have "length (launch_psk l) = 16" using choose_psk_length by (auto elim: main_launch_launched)
  from main_run_answered [OF this assms(2-6)] show ?thesis by (simp add: assms(7,8))
qed

definition unset_example :: FullConfiguration where
  "unset_example = unset_configuration\<lparr> presharedkey := replicate 16 0 \<rparr>"

text \<open>A dongle that holds another configuration is set up.\<close>

theorem programme_starts_witness:
  "\<exists>l a'. main_start example_machine (Inr example_variables) = Launched l \<and>
    main_run (rev [0..<8]) [0..<8] (dongle (rev [0..<8]) [0..<8] 5 unset_example False [0, 2, 0, 2, 6, 3] DeviceState_HOLD) l
      (mqtt_start Disconnected) started = (a', Running_hub (start_hub ''AqaraHub/'' a' (ZclEndpoint_ctor 1) (mqtt_start Disconnected)))"
proof -
  obtain l where l: "main_start example_machine (Inr example_variables) = Launched l"
    "mqtt_prefix (launch_settings l) = ''AqaraHub/''" "launch_channels l = 0x800"
    using example_launch by auto
  let ?desired = "desired_configuration (launch_pan_id l) (launch_channels l) (launch_psk l) 5"
  have "\<not> same_configuration unset_example ?desired"
    by (simp add: same_configuration_def desired_configuration_def unset_example_def unset_configuration_def l(3))
  then have "dongle (rev [0..<8]) [0..<8] 5 unset_example False [0, 2, 0, 2, 6, 3] DeviceState_HOLD =
      dongle (rev [0..<8]) [0..<8] 5 unset_example (same_configuration unset_example ?desired) [0, 2, 0, 2, 6, 3] DeviceState_HOLD"
    by simp
  from programme_starts [OF l(1) _ _ _ _ _ refl this] l show ?thesis
    by (fastforce simp: unset_example_def)
qed

text \<open>
  The start-up with this dongle: its address and its configuration are read, so the wanted configuration
  is written, the first of its frames clearing the state.
\<close>

theorem startup_follows_protocol_witness:
  "\<exists>a'. Run (Initialize (rev [0..<8]) [0..<8] (dongle (rev [0..<8]) [0..<8] 5 unset_example False [0, 2, 0, 2, 6, 3] DeviceState_HOLD)
      0xFFFF 0x800 (replicate 16 7)) started = (a', Some (Inr (ZclEndpoint_ctor 1))) \<and>
    sent a' = startup_frames (rev [0..<8]) [0..<8] (desired_configuration 0xFFFF 0x800 (replicate 16 7) 5) unset_example \<and>
    write_frame (ConfigurationOption_STARTUP_OPTION, [3]) \<in> set (sent a')"
proof -
  let ?desired = "desired_configuration 0xFFFF 0x800 (replicate 16 7) 5"
  let ?loop = "dongle (rev [0..<8]) [0..<8] 5 unset_example False [0, 2, 0, 2, 6, 3] DeviceState_HOLD"
  let ?start = "Initialize (rev [0..<8]) [0..<8] ?loop 0xFFFF 0x800 (replicate 16 7)"
  have differs: "\<not> same_configuration unset_example ?desired"
    by (simp add: same_configuration_def desired_configuration_def unset_example_def unset_configuration_def)
  have orders: "set (rev [0..<8]) = {..<8 :: nat}" "set [0..<8] = {..<8 :: nat}" by auto
  have psk: "length (presharedkey unset_example) = 16" by (simp add: unset_example_def)
  have "?loop = dongle (rev [0..<8]) [0..<8] 5 unset_example (same_configuration unset_example ?desired) [0, 2, 0, 2, 6, 3] DeviceState_HOLD"
    using differs by simp
  from initialize_answered [OF orders _ psk _ _ this] obtain a' where
    run: "Run ?start started = (a', Some (Inr (ZclEndpoint_ctor 1)))" by auto
  then obtain n' where start: "?start (started, 0) = ((a', n'), Going_on (ZclEndpoint_ctor 1))"
    by (auto simp: Run_def split: prod.splits progress.splits)
  have "achieves (startup_reads (rev [0..<8]) ?loop) 0 3 (reading_frames (rev [0..<8])) (5, unset_example)"
    by (rule achieves_startup_reads [OF orders(1) psk _ refl]) simp
  then have "snd (startup_reads (rev [0..<8]) ?loop (started, 0)) = Going_on (5, unset_example)"
    by (rule achievesE [OF _ quiet_started]) simp
  moreover have "sent started = []" by (simp add: sent_def ctor_simps map_filter_def)
  ultimately have "sent a' = startup_frames (rev [0..<8]) [0..<8] ?desired unset_example"
    using startup_follows_protocol [OF _ _ _ start] by (auto simp: Let_def subset_iff)
  with run differs show ?thesis by (simp add: startup_frames_def configure_frames_def)
qed

end
