(* ===== verification/StartedHub.thy ===== *)
theory StartedHub
  imports StartupRun
begin

text \<open>
  The hub that the start-up leaves behind, with its connection to the broker: the subscriptions cover
  every topic the hub acts on, and what the hub publishes reaches the client from the first event on.
\<close>

section \<open>Topic filters\<close>

text \<open>Matching of topics and filters as MQTT 3.1.1 defines it (section 4.7).\<close>

definition plain_level :: "string \<Rightarrow> bool" where
  "plain_level l \<longleftrightarrow> CHR ''#'' \<notin> set l \<and> CHR ''+'' \<notin> set l"

fun levels_match :: "string list \<Rightarrow> string list \<Rightarrow> bool" where
  "levels_match [] ts \<longleftrightarrow> ts = []"
| "levels_match (f # fs) ts \<longleftrightarrow>
     (if f = ''#'' then fs = []
      else case ts of [] \<Rightarrow> False | t # ts \<Rightarrow> (f = ''+'' \<or> plain_level f \<and> f = t) \<and> levels_match fs ts)"

definition topic_matches :: "string \<Rightarrow> string \<Rightarrow> bool" where
  "topic_matches pattern topic \<longleftrightarrow>
     \<not> (take 1 topic = ''$'' \<and> take 1 pattern \<in> {''+'', ''#''}) \<and> levels_match (split_slash pattern) (split_slash topic)"

lemma split_slash_slash: "split_slash (xs @ CHR ''/'' # ys) = split_slash xs @ split_slash ys"
  by (induction xs) (auto split: list.split)

lemma split_slash_chars: "l \<in> set (split_slash s) \<Longrightarrow> set l \<subseteq> set s"
proof (induction s arbitrary: l)
  case (Cons c s)
  obtain w ws where "split_slash s = w # ws" by (cases "split_slash s") simp_all
  with Cons.prems Cons.IH [of w] Cons.IH [of l] show ?case by (auto split: if_splits)
qed simp

lemma split_slash_first: "split_slash s = (c # w) # ws \<Longrightarrow> take 1 s = [c]"
  by (cases s) (auto split: if_splits list.splits)

lemma levels_match_plain: "list_all plain_level ps \<Longrightarrow> levels_match (ps @ fs) (ps @ ts) = levels_match fs ts"
  by (induction ps) (auto simp: plain_level_def)

lemma matches_below:
  assumes "plain_level p" "p = [] \<or> List.last p = CHR ''/''" "levels_match (split_slash f) (split_slash t)"
    and "p = [] \<Longrightarrow> take 1 t \<noteq> ''$''"
  shows "topic_matches (p @ f) (p @ t)"
proof (cases "p = []")
  case False
  then obtain q where p: "p = q @ ''/''" using assms(2) by (metis append_butlast_last_id)
  have "list_all plain_level (split_slash q)"
    using split_slash_chars [of _ q] assms(1) by (fastforce simp: list_all_iff plain_level_def p)
  moreover have "take 1 (p @ f) = take 1 p" using False by (cases p) simp_all
  moreover have "take 1 p \<notin> {''+'', ''#''}" using assms(1) by (cases p) (auto simp: plain_level_def)
  ultimately show ?thesis using assms(3) by (simp add: topic_matches_def p split_slash_slash levels_match_plain)
qed (use assms in \<open>simp add: topic_matches_def\<close>)

text \<open>What the hub acts on.\<close>

lemma acted_on:
  assumes "OnPublish env cfg topic message h \<noteq> h"
  obtains rest where "topic = mqtt_prefix cfg @ rest" "starts_with rest controlTopic"
  | rest where "topic = mqtt_prefix cfg @ rest" "match_command_short rest \<noteq> None \<or> match_command_long rest \<noteq> None"
proof -
  have pre: "starts_with topic (mqtt_prefix cfg)"
    using assms by (auto simp: OnPublish_def OnPublish_try_def done_step_def split: if_splits)
  then have t: "topic = mqtt_prefix cfg @ drop (length (mqtt_prefix cfg)) topic"
    by (metis append_take_drop_id starts_with_def)
  moreover define rest where "rest = drop (length (mqtt_prefix cfg)) topic"
  moreover have "starts_with rest controlTopic \<or> match_command_short rest \<noteq> None \<or> match_command_long rest \<noteq> None"
  proof (rule ccontr)
    assume "\<not> ?thesis"
    then have "\<not> starts_with rest controlTopic" "match_command_short rest = None" "match_command_long rest = None" by blast+
    with assms pre show False by (simp add: OnPublish_def OnPublish_try_def done_step_def Let_def flip: rest_def)
  qed
  ultimately show thesis using that by blast
qed

lemma command_levels:
  assumes "match_command_short rest \<noteq> None \<or> match_command_long rest \<noteq> None"
  obtains a b cs where "split_slash rest = a # b # ''out'' # cs" "digits_of_base 16 a"
  using assms by (auto simp: match_command_short_def match_command_long_def split: list.splits if_splits)

lemma no_dollar: "digits_of_base 16 (CHR ''$'' # w) = False"
  by (simp add: digits_of_base_def is_digit_in_def digit_value_def)

lemma command_not_dollar:
  assumes "split_slash rest = a # b # ''out'' # cs" "digits_of_base 16 a"
  shows "take 1 rest \<noteq> ''$''"
proof -
  obtain c w where a: "a = c # w" using assms(2) by (cases a) (auto simp: digits_of_base_def)
  with split_slash_first assms(1) have "take 1 rest = [c]" by blast
  with assms(2) a no_dollar show ?thesis by auto
qed

lemma filter_for_topic:
  assumes "plain_level (mqtt_prefix cfg)" "mqtt_prefix cfg = [] \<or> List.last (mqtt_prefix cfg) = CHR ''/''"
    and "OnPublish env cfg topic message h \<noteq> h"
  obtains f where "f \<in> set (topic_filters (mqtt_prefix cfg))" "topic_matches (fst f) topic"
  using assms(3)
proof (cases rule: acted_on)
  case (1 rest)
  then obtain x where rest: "rest = controlTopic @ x" by (metis append_take_drop_id starts_with_def)
  have "levels_match (split_slash (controlTopic @ ''#'')) (split_slash rest)"
    by (simp add: rest controlTopic_def plain_level_def)
  then have "topic_matches (mqtt_prefix cfg @ controlTopic @ ''#'') topic"
    unfolding 1(1) by (intro matches_below assms(1,2)) (simp_all add: rest controlTopic_def)
  then show thesis using that [of "(mqtt_prefix cfg @ controlTopic @ ''#'', qos_at_least_once)"] by (simp add: topic_filters_def)
next
  case (2 rest)
  obtain a b cs where split: "split_slash rest = a # b # ''out'' # cs" "digits_of_base 16 a" by (rule command_levels [OF 2(2)])
  have "levels_match (split_slash ''+/+/out/#'') (split_slash rest)"
    by (simp add: split plain_level_def)
  then have "topic_matches (mqtt_prefix cfg @ ''+/+/out/#'') topic"
    unfolding 2(1) by (intro matches_below assms(1,2) command_not_dollar [OF split])
  then show thesis using that [of "(mqtt_prefix cfg @ ''+/+/out/#'', qos_at_least_once)"] by (simp add: topic_filters_def)
qed

section \<open>Subscriptions of the running hub\<close>

lemma subscriptions_step: "fset (subscriptions w) \<subseteq> fset (subscriptions (mqtt_step ids reader ev w))"
proof (cases ev)
  case (Publish_called t m q r)
  let ?item = "\<lparr> item_topic = t, item_message = m, item_qos = q, item_retain = r, item_callback = next_callback w \<rparr>"
  obtain w1 x where s: "SafePublish ids ?item (w\<lparr> next_callback := Suc (next_callback w) \<rparr>) = (w1, x)" by fastforce
  from SafePublish_calls [OF s] have "subscriptions w1 = subscriptions w" by auto
  with s show ?thesis by (simp add: Publish_called mqtt_step_def Publish_task_def Let_def)
next
  case (Conn_ack sp code)
  show ?thesis
  proof (cases "code = accepted")
    case True
    define w1 where "w1 = (let w = w\<lparr> connection := Connected \<rparr>
      in if subscriptions w \<noteq> {||} then call_client (Async_subscribe (sorted_list_of_fset (subscriptions w))) w else w)"
    have "subscriptions (publish_queued ids (publish_queue w1) (w1\<lparr> publish_queue := [] \<rparr>)) = subscriptions w"
      using publish_queued_calls [of ids "publish_queue w1" "w1\<lparr> publish_queue := [] \<rparr>"]
      by (auto simp: w1_def Let_def call_client_def)
    then show ?thesis by (simp add: Conn_ack True mqtt_step_def ConnAckHandler_def Let_def w1_def)
  qed (simp add: Conn_ack mqtt_step_def ConnAckHandler_def)
qed (auto simp: mqtt_step_def Subscribe_def SafeSubscribe_def Let_def ErrorHandler_def FinishHandler_def StartReconnectTimer_def
    OnReconnectTimer_def sent_at_most_once_def AsyncPublishCallback_def PublishAcknowledgedHandler_def
    PublishCompletedHandler_def PublishHandler_def wrapper_defs split: option.split)

lemma subscriptions_run: "fset (subscriptions w) \<subseteq> fset (subscriptions (mqtt_run ids reader evs w))"
proof (induction evs arbitrary: w)
  case (Cons ev evs)
  then show ?case using subscriptions_step [of w ids reader ev] by fastforce
qed simp

definition covers :: "subscription set \<Rightarrow> system \<Rightarrow> bool" where
  "covers fs s \<longleftrightarrow> fs \<subseteq> fset (subscriptions (the_mqtt s))"

lemma covers_forward: "fs \<subseteq> fset (subscriptions w) \<Longrightarrow> covers fs (forward ids reader old h w)"
  unfolding covers_def forward_def by (simp add: subset_trans [OF _ subscriptions_run])

lemma covers_step: "covers fs s \<Longrightarrow> covers fs (system_step ids reader env cfg ev s)"
  by (cases ev) (simp_all add: system_step_def Let_def covers_forward covers_def [of fs s] subset_trans [OF _ subscriptions_step])

lemma covers_run: "covers fs s \<Longrightarrow> covers fs (system_run ids reader env cfg evs s)"
  by (induction evs arbitrary: s) (simp_all add: system_run_def covers_step)

lemma covers_start: "covers (set (topic_filters p)) (start_hub p a ep w)"
  by (auto simp: covers_def start_hub_def Subscribe_def SafeSubscribe_def Let_def call_client_def fset_of_list.rep_eq topic_filters_def)

lemma forward_subscribed: "subscribed_since n w \<Longrightarrow> subscribed_since n (the_mqtt (forward ids reader old h w))"
  by (auto simp: forward_def publish_event_def connection_lost_def intro!: run_subscribed)

lemma step_stays_subscribed:
  assumes "subscribed_since n (the_mqtt s)" "\<And>mev. ev = Broker mev \<Longrightarrow> \<not> connection_lost mev"
  shows "subscribed_since n (the_mqtt (system_step ids reader env cfg ev s))"
proof (cases ev)
  case (Broker mev)
  with assms step_subscribed [OF assms(1), of mev ids reader] show ?thesis
    by (simp add: system_step_def Let_def forward_subscribed)
qed (use assms(1) in \<open>simp add: system_step_def forward_subscribed\<close>)

lemma run_stays_subscribed:
  assumes "subscribed_since n (the_mqtt s)" "\<forall>ev \<in> set evs. \<forall>mev. ev = Broker mev \<longrightarrow> \<not> connection_lost mev"
  shows "subscribed_since n (the_mqtt (system_run ids reader env cfg evs s))"
  using assms
proof (induction evs arbitrary: s)
  case (Cons ev evs)
  then have "subscribed_since n (the_mqtt (system_step ids reader env cfg ev s))" by (intro step_stays_subscribed) simp_all
  with Cons show ?case by (simp add: system_run_def)
qed (simp add: system_run_def)

text \<open>
  C15: Every topic on which the hub acts is covered by a subscription: once the broker accepts a connection,
  and until it is lost, a filter that matches the topic has been requested on that connection, unless
  the prefix itself contains a wildcard.
\<close>

theorem commands_reach_hub:
  assumes "plain_level (mqtt_prefix cfg)" "mqtt_prefix cfg = [] \<or> List.last (mqtt_prefix cfg) = CHR ''/''"
    and "OnPublish env cfg topic message h \<noteq> h"
    and "\<forall>ev \<in> set later. \<forall>mev. ev = Broker mev \<longrightarrow> \<not> connection_lost mev"
  shows "let s = system_run ids reader env cfg evs (start_hub (mqtt_prefix cfg) a ep w);
      s' = system_run ids reader env cfg (Broker (Conn_ack sp accepted) # later) s
    in \<exists>f \<in> topics_requested (drop (length (client_calls (the_mqtt s))) (client_calls (the_mqtt s'))). topic_matches (fst f) topic"
proof -
  define s where "s = system_run ids reader env cfg evs (start_hub (mqtt_prefix cfg) a ep w)"
  define s' where "s' = system_run ids reader env cfg (Broker (Conn_ack sp accepted) # later) s"
  let ?n = "length (client_calls (the_mqtt s))"
  obtain f where f: "f \<in> set (topic_filters (mqtt_prefix cfg))" "topic_matches (fst f) topic"
    by (rule filter_for_topic [OF assms(1-3)])
  have "subscribed_since ?n (the_mqtt (system_step ids reader env cfg (Broker (Conn_ack sp accepted)) s))"
    using ConnAck_subscribes [of ?n "the_mqtt s" ids]
    by (simp add: system_step_def Let_def forward_subscribed mqtt_step_def)
  then have "subscribed_since ?n (the_mqtt s')"
    using run_stays_subscribed [OF _ assms(4)] by (simp add: s'_def system_run_def)
  moreover have "covers (set (topic_filters (mqtt_prefix cfg))) s'"
    unfolding s'_def s_def by (intro covers_run covers_start)
  ultimately have "f \<in> topics_requested (drop ?n (client_calls (the_mqtt s')))"
    using f(1) by (auto simp: subscribed_since_def covers_def)
  with f(2) show ?thesis unfolding Let_def s_def [symmetric] s'_def [symmetric] by blast
qed

lemma example_permit_join:
  "OnPublish example_env (example_settings ClusterDb_ctor) ''Hub/control/permitjoin'' ''60'' example_hub \<noteq> example_hub"
proof -
  obtain a x where a: "ZdoMgmtPermitJoin 15 0xFFFC 60 0 started = (a, Inr x)"
    "sent a = sent started @ [(ZnpCommandType_SREQ, ZdoCmd ZdoCommand_MGMT_PERMIT_JOIN_REQ, 15 # le_bytes 2 (0xFFFC :: 16 word) @ [60, 0])]"
    by (rule issuesE [OF issues_permit_joining])
  then have "a \<noteq> started" by auto
  moreover have "stoul ''60'' 0 = Inr (60, 2)"
    by (simp add: stoul_def Let_def is_space_def strtoul_base_def is_digit_in_def digit_value_def digits_value_def ULONG_MAX_def)
  ultimately have "hub_api (OnPublish example_env (example_settings ClusterDb_ctor) ''Hub/control/permitjoin'' ''60'' example_hub)
      \<noteq> hub_api example_hub"
    using a(1) by (simp add: example_hub_def hub_ctor_def OnPublish_def OnPublish_try_def starts_with_def example_settings_def controlTopic_def
      OnPublish_control_def Let_def OnPublishPermitJoin_def step_with_def detached_def)
  then show ?thesis by metis
qed

theorem commands_reach_hub_witness:
  "let s = start_hub ''Hub/'' started (ZclEndpoint_ctor 1) (mqtt_start Disconnected);
      s' = system_run example_ids example_reader example_env (example_settings ClusterDb_ctor)
        [Broker (Conn_ack False accepted), Broker Connection_error, Broker (Conn_ack True accepted), Broker (Pub_ack 1)] s
    in \<exists>f \<in> topics_requested (drop 2 (client_calls (the_mqtt s'))). topic_matches (fst f) ''Hub/control/permitjoin''"
proof -
  let ?s = "start_hub ''Hub/'' started (ZclEndpoint_ctor 1) (mqtt_start Disconnected)"
  let ?run = "system_run example_ids example_reader example_env (example_settings ClusterDb_ctor)"
  have "length (client_calls (the_mqtt (?run [Broker (Conn_ack False accepted), Broker Connection_error] ?s))) = 2"
    by (simp add: system_run_def system_step_def Let_def forward_def hub_run_def start_hub_def mqtt_step_def ConnAckHandler_def
      ErrorHandler_def StartReconnectTimer_def example_run topic_filters_def hub_ctor_def)
  then show ?thesis
    using commands_reach_hub [where cfg = "example_settings ClusterDb_ctor" and ids = example_ids and reader = example_reader
        and evs = "[Broker (Conn_ack False accepted), Broker Connection_error]" and later = "[Broker (Pub_ack 1)]" and sp = True
        and a = started and ep = "ZclEndpoint_ctor 1" and w = "mqtt_start Disconnected", OF _ _ example_permit_join]
    by (simp add: plain_level_def connection_lost_def Let_def system_run_def example_settings_def)
qed

section \<open>Publications of the running hub\<close>

lemma in_step_started:
  assumes "never_throws ids" "api_run a" "flowing w" "messages_taken w = []"
  shows "in_step (start_hub p a ep w)"
proof -
  have "in_step (system_start a ep Disconnected)" by (rule start_in_step [OF assms(2)])
  then show ?thesis
    using step_order [OF assms(3,1), of undefined "Subscribe_called (fset_of_list (topic_filters p))"] assms(4)
    by (simp add: in_step_def start_hub_def system_start_def mqtt_step_def asked_def) (simp add: hub_ctor_def)
qed

text \<open>
  C7: From the start of the programme on, whatever happens on the serial line and on the connection to the
  broker, before and after the start-up has completed, the messages handed to the MQTT client are the
  publications of the hub in their order, up to those that wait for the connection, and with a connection
  they are all of them.
\<close>

theorem programme_publications_sent:
  assumes "never_throws ids" "set read_order \<subseteq> {..<8}" "set write_order \<subseteq> {..<8}" "asked early = []"
    and "main_run read_order write_order loop l (mqtt_run ids reader early (mqtt_start state)) started = (a, Running_hub s)"
    and "\<forall>ev \<in> set evs. \<forall>t m q r. ev \<noteq> Broker (Publish_called t m q r)"
  shows "let s' = system_run ids reader env cfg evs s
    in messages_sent (the_mqtt s') @ map item_of (publish_queue (the_mqtt s')) = map message_of (published (the_hub s')) \<and>
      (connection (the_mqtt s') = Connected \<longrightarrow> messages_sent (the_mqtt s') = map message_of (published (the_hub s')))"
proof -
  let ?w = "mqtt_run ids reader early (mqtt_start state)"
  obtain ep where run: "Run (Initialize read_order write_order loop (launch_pan_id l) (launch_channels l) (launch_psk l)) started
      = (a, Some (Inr ep))" and s: "s = start_hub (mqtt_prefix (launch_settings l)) a ep ?w"
    using assms(5) by (auto simp: main_run_def split: prod.splits option.splits sum.splits if_splits)
  have "api_run a" using runs.I_Run [OF assms(2,3) _ started_run run] by (simp add: list_all_iff)
  moreover have "flowing ?w" "messages_taken ?w = []"
    using run_order [OF start_facts(1) assms(1), of reader early state] start_facts(2) [of state] assms(4) by simp_all
  ultimately have "in_step s" unfolding s by (intro in_step_started [OF assms(1)])
  from run_in_step [OF assms(1) this assms(6), of reader env cfg] show ?thesis
    by (auto simp: Let_def in_step_def messages_taken_def flowing_def)
qed

text \<open>The programme starts while the broker is away; the dongle reports that joining is open.\<close>

theorem programme_publications_sent_witness:
  "\<exists>l a s. main_start example_machine (Inr example_variables) = Launched l \<and>
    main_run [0..<8] [0..<8] (dongle [0..<8] [0..<8] 5 unset_example False [0, 2, 0, 2, 6, 3] DeviceState_INIT) l
      (mqtt_run example_ids example_reader [Connection_error] (mqtt_start Connecting)) started = (a, Running_hub s) \<and>
    (let s' = system_run example_ids example_reader example_env (launch_settings l)
        [Dongle (Frame_received ZnpCommandType_AREQ (ZdoCmd ZdoCommand_PERMIT_JOIN_IND) [60]), Broker (Conn_ack False accepted)] s
     in messages_sent (the_mqtt s') @ map item_of (publish_queue (the_mqtt s')) = map message_of (published (the_hub s')))"
proof -
  obtain l where l: "main_start example_machine (Inr example_variables) = Launched l" "launch_channels l = 0x800"
    "length (launch_psk l) = 16"
    using example_launch by auto
  let ?desired = "desired_configuration (launch_pan_id l) (launch_channels l) (launch_psk l) 5"
  have "\<not> same_configuration unset_example ?desired"
    by (simp add: same_configuration_def desired_configuration_def unset_example_def unset_configuration_def l(2))
  then have loop: "dongle [0..<8] [0..<8] 5 unset_example False [0, 2, 0, 2, 6, 3] DeviceState_INIT =
      dongle [0..<8] [0..<8] 5 unset_example (same_configuration unset_example ?desired) [0, 2, 0, 2, 6, 3] DeviceState_INIT"
    by simp
  obtain a s where run: "main_run [0..<8] [0..<8] (dongle [0..<8] [0..<8] 5 unset_example False [0, 2, 0, 2, 6, 3] DeviceState_INIT) l
      (mqtt_run example_ids example_reader [Connection_error] (mqtt_start Connecting)) started = (a, Running_hub s)"
    using main_run_answered [OF l(3) _ _ _ _ _ loop, of "mqtt_run example_ids example_reader [Connection_error] (mqtt_start Connecting)"]
    by (auto simp: unset_example_def atLeast0LessThan)
  from programme_publications_sent [OF example_ids_ok _ _ _ run,
      of "[Dongle (Frame_received ZnpCommandType_AREQ (ZdoCmd ZdoCommand_PERMIT_JOIN_IND) [60]), Broker (Conn_ack False accepted)]"
        example_env "launch_settings l"] l(1) run
  show ?thesis by (auto simp: asked_def Let_def atLeast0LessThan)
qed

end
