(* ===== verification/DynamicIntegers.thy ===== *)
theory DynamicIntegers
  imports DynamicEncoding
begin

text \<open>
  The integers and bit masks of the dynamic encoding: what \<open>EncodeInteger\<close> accepts, what
  \<open>DecodeInteger\<close> makes of the bytes, and where the two disagree.
\<close>

section \<open>Words and their low bytes\<close>

lemma le_bytes_map: "map (\<lambda>byte. ucast (drop_bit (byte * 8) (w :: 'a::len word) AND 0xFF)) [0..<n] = le_bytes n w"
proof -
  have "map (\<lambda>byte. ucast (drop_bit (byte * 8) w AND 0xFF)) [i..<n] = le_bytes (n - i) (drop_bit (8 * i) w)" for i
  proof (induction "n - i" arbitrary: i)
    case (Suc m)
    then have i: "i < n" and m: "n - Suc i = m" and n: "n - i = Suc m" by auto
    have "drop_bit 8 (drop_bit (8 * i) w) = drop_bit (8 * Suc i) w" by (simp add: drop_bit_drop_bit)
    with Suc.hyps(1) [of "Suc i"] m show ?case
      by (simp add: n upt_shift_Cons [OF i] ucast_and_FF mult.commute)
  qed simp
  from this [of 0] show ?thesis by simp
qed

lemma drop_bit_zero_iff: "drop_bit n (w :: 'a::len word) = 0 \<longleftrightarrow> take_bit n w = w"
proof
  assume "drop_bit n w = 0"
  then show "take_bit n w = w" using bits_ident [of n w] by simp
next
  assume "take_bit n w = w"
  then have "drop_bit n w = drop_bit n (take_bit n w)" by simp
  then show "drop_bit n w = 0" by (simp add: drop_bit_take_bit)
qed

lemma EncodeInteger_unsigned:
  "bytes * 8 < max 32 LENGTH('a) \<Longrightarrow> EncodeInteger False (w :: 'a::len word) bytes =
     (if drop_bit (bytes * 8) w = 0 then Inr (le_bytes bytes w)
      else Inl (Runtime_error ''Value %d does not fit in %d bits''))"
  by (simp only: EncodeInteger_def le_bytes_map Let_def not_le [symmetric] if_False if_True simp_thms) simp

lemma EncodeInteger_unsigned_iff:
  "EncodeInteger False (w :: 'a::len word) bytes = Inr bs \<longleftrightarrow>
     bytes * 8 < max 32 LENGTH('a) \<and> take_bit (bytes * 8) w = w \<and> bs = le_bytes bytes w"
proof (cases "bytes * 8 < max 32 LENGTH('a)")
  case True
  from EncodeInteger_unsigned [OF True, of w] True show ?thesis by (auto simp: drop_bit_zero_iff)
next
  case False
  then have "bytes * 8 \<ge> max 32 LENGTH('a)" by (rule leI)
  then have "EncodeInteger False w bytes = Inl Undefined_behaviour"
    unfolding EncodeInteger_def by (rule if_P)
  with False show ?thesis by simp
qed

lemma EncodeInteger_signed_iff:
  "EncodeInteger True (w :: 'a::len word) bytes = Inr bs \<longleftrightarrow>
     bytes * 8 < max 32 LENGTH('a) \<and> bs = le_bytes bytes w \<and>
     (drop_bit (bytes * 8) w = 0 \<or> drop_bit (bytes * 8) w = drop_bit (bytes * 8) (NOT 0))"
  by (auto simp: EncodeInteger_def Let_def le_bytes_map)

lemma DecodeInteger_unsigned:
  "8 * n \<le> LENGTH('a) \<Longrightarrow> DecodeInteger False n bs =
     (if n \<le> length bs then Inr (of_le_bytes (take n bs) :: 'a::len word, drop n bs)
      else Inl (Runtime_error ''Not enough data to decode integer''))"
  by (simp add: DecodeInteger_def DecodeUnsigned_loop_eq)

lemma DecodeInteger_unsigned_iff:
  assumes "8 * n \<le> LENGTH('a)"
  shows "DecodeInteger False n bs = Inr (w :: 'a::len word, rest) \<longleftrightarrow>
     bs = le_bytes n w @ rest \<and> take_bit (8 * n) w = w"
proof
  assume "DecodeInteger False n bs = Inr (w, rest)"
  then have n: "n \<le> length bs" and w: "w = of_le_bytes (take n bs)" and rest: "rest = drop n bs"
    by (auto simp: DecodeInteger_unsigned [OF assms] split: if_splits)
  have "le_bytes n w = take n bs"
    using le_bytes_of_le_bytes [of "take n bs", where 'a = 'a] n assms by (simp add: w)
  moreover from this have "take_bit (8 * n) w = w"
    using of_le_bytes_le_bytes [of n w] by (simp add: w)
  ultimately show "bs = le_bytes n w @ rest \<and> take_bit (8 * n) w = w" by (simp add: rest)
next
  assume "bs = le_bytes n w @ rest \<and> take_bit (8 * n) w = w"
  then show "DecodeInteger False n bs = Inr (w, rest)"
    by (simp add: DecodeInteger_unsigned [OF assms] of_le_bytes_le_bytes)
qed

lemma DecodeInteger_signed:
  assumes "0 < n" "8 * n < LENGTH('a)"
  shows "DecodeInteger True n (le_bytes n (w :: 'a::len word) @ rest) = Inr (signed_take_bit (8 * n - 1) w, rest)"
proof -
  have read: "DecodeUnsigned_loop (byte_shifts n) 0 (le_bytes n w @ rest) = Inr (take_bit (8 * n) w, rest)"
    using assms by (simp add: DecodeUnsigned_loop_eq of_le_bytes_le_bytes)
  have top: "drop_bit (n * 8 - 1) (take_bit (8 * n) w) = 1 \<longleftrightarrow> bit w (8 * n - 1)"
  proof -
    have "drop_bit (n * 8 - 1) (take_bit (8 * n) w) = take_bit 1 (drop_bit (8 * n - 1) w)"
      using assms by (simp add: drop_bit_take_bit mult.commute)
    also have "\<dots> = of_bool (bit w (8 * n - 1))"
      by (simp add: take_bit_Suc bit_iff_odd_drop_bit mod2_eq_if)
    finally show ?thesis by simp
  qed
  have sign: "take_bit (8 * n) w OR push_bit (n * 8) (NOT 0) = signed_take_bit (8 * n - 1) w" if "bit w (8 * n - 1)"
    using that assms by (intro bit_word_eqI) (auto simp: bit_simps min_def le_less_Suc_eq less_diff_conv mult.commute
        dest: le_antisym)
  have plain: "take_bit (8 * n) w = signed_take_bit (8 * n - 1) w" if "\<not> bit w (8 * n - 1)"
  proof (rule bit_word_eqI)
    fix k assume k: "k < LENGTH('a)"
    have "k = 8 * n - 1" if "k < 8 * n" "8 * n - 1 \<le> k" using that by simp
    with that k assms show "bit (take_bit (8 * n) w) k \<longleftrightarrow> bit (signed_take_bit (8 * n - 1) w) k"
      by (auto simp: bit_simps min_def)
  qed
  have "\<not> n * 8 \<ge> LENGTH('a)" using assms by simp
  with sign plain show ?thesis
    unfolding DecodeInteger_def read res_bind_Inr prod.case top by simp
qed

section \<open>Signed values\<close>

text \<open>The check of \<open>EncodeInteger\<close>: all the bits from \<open>k\<close> on are the same.\<close>

lemma same_high_bits:
  assumes "k < LENGTH('a)"
  shows "drop_bit k (w :: 'a::len word) = 0 \<or> drop_bit k w = drop_bit k (NOT 0) \<longleftrightarrow>
    (\<forall>j. k \<le> j \<longrightarrow> j < LENGTH('a) \<longrightarrow> bit w j = bit w k)"
proof -
  have zero: "drop_bit k w = 0 \<longleftrightarrow> (\<forall>j. k \<le> j \<longrightarrow> j < LENGTH('a) \<longrightarrow> \<not> bit w j)"
  proof
    assume h: "drop_bit k w = 0"
    show "\<forall>j. k \<le> j \<longrightarrow> j < LENGTH('a) \<longrightarrow> \<not> bit w j"
    proof (intro allI impI)
      fix j assume "k \<le> j"
      have "\<not> bit (drop_bit k w) (j - k)" using h by simp
      with \<open>k \<le> j\<close> show "\<not> bit w j" by (simp add: bit_drop_bit_eq)
    qed
  next
    assume h: "\<forall>j. k \<le> j \<longrightarrow> j < LENGTH('a) \<longrightarrow> \<not> bit w j"
    have "\<not> bit w (k + n)" for n using h bit_imp_le_length [of w "k + n"] by auto
    then show "drop_bit k w = 0" by (intro bit_word_eqI) (simp add: bit_drop_bit_eq)
  qed
  have ones: "drop_bit k w = drop_bit k (NOT 0) \<longleftrightarrow> (\<forall>j. k \<le> j \<longrightarrow> j < LENGTH('a) \<longrightarrow> bit w j)"
  proof
    assume h: "drop_bit k w = drop_bit k (NOT 0)"
    show "\<forall>j. k \<le> j \<longrightarrow> j < LENGTH('a) \<longrightarrow> bit w j"
    proof (intro allI impI)
      fix j assume j: "k \<le> j" "j < LENGTH('a)"
      have "bit (drop_bit k w) (j - k) = bit (drop_bit k (NOT 0 :: 'a word)) (j - k)" using h by simp
      with j show "bit w j" by (auto simp: bit_drop_bit_eq bit_not_iff bit_mask_iff)
    qed
  next
    assume h: "\<forall>j. k \<le> j \<longrightarrow> j < LENGTH('a) \<longrightarrow> bit w j"
    show "drop_bit k w = drop_bit k (NOT 0)"
    proof (rule bit_word_eqI)
      fix n
      have "bit w (k + n) \<longleftrightarrow> k + n < LENGTH('a)" using h bit_imp_le_length [of w "k + n"] by auto
      then show "bit (drop_bit k w) n \<longleftrightarrow> bit (drop_bit k (NOT 0 :: 'a word)) n"
        by (simp add: bit_drop_bit_eq bit_not_iff bit_mask_iff less_diff_conv add.commute) arith
    qed
  qed
  show ?thesis unfolding zero ones using assms by (metis le_refl)
qed

lemma same_high_bits_sint:
  assumes "k < LENGTH('a)"
  shows "(\<forall>j. k \<le> j \<longrightarrow> j < LENGTH('a) \<longrightarrow> bit (w :: 'a::len word) j = bit w k) \<longleftrightarrow>
    - (2 ^ k) \<le> sint w \<and> sint w < 2 ^ k"
proof -
  have bits: "bit (sint w) j = bit w (min j (LENGTH('a) - 1))" for j
    by (auto simp: bit_sint_iff min_def dest: bit_imp_le_length)
  have "signed_take_bit k (sint w) = sint w \<longleftrightarrow> (\<forall>j. k \<le> j \<longrightarrow> bit (sint w) j = bit (sint w) k)"
    by (auto simp: bit_eq_iff bit_signed_take_bit_iff min_def)
  also have "\<dots> \<longleftrightarrow> (\<forall>j. k \<le> j \<longrightarrow> j < LENGTH('a) \<longrightarrow> bit w j = bit w k)"
  proof
    assume h: "\<forall>j. k \<le> j \<longrightarrow> bit (sint w) j = bit (sint w) k"
    show "\<forall>j. k \<le> j \<longrightarrow> j < LENGTH('a) \<longrightarrow> bit w j = bit w k"
    proof (intro allI impI)
      fix j assume "k \<le> j" "j < LENGTH('a)"
      with h assms bits [of j] bits [of k] show "bit w j = bit w k" by (simp add: min_def split: if_splits)
    qed
  next
    assume h: "\<forall>j. k \<le> j \<longrightarrow> j < LENGTH('a) \<longrightarrow> bit w j = bit w k"
    show "\<forall>j. k \<le> j \<longrightarrow> bit (sint w) j = bit (sint w) k"
    proof (intro allI impI)
      fix j assume "k \<le> j"
      with assms have k: "min k (LENGTH('a) - 1) = k" and m: "k \<le> min j (LENGTH('a) - 1)"
        "min j (LENGTH('a) - 1) < LENGTH('a)" by auto
      from h [rule_format, OF m] show "bit (sint w) j = bit (sint w) k"
        by (simp only: bits [of j] bits [of k] k)
    qed
  qed
  finally show ?thesis unfolding signed_take_bit_int_eq_self_iff by (rule sym)
qed

lemma EncodeInteger_signed_range:
  "0 < n \<Longrightarrow> n < 8 \<Longrightarrow> EncodeInteger True (v :: 64 word) n = Inr bs \<longleftrightarrow>
     - (2 ^ (8 * n)) \<le> sint v \<and> sint v < 2 ^ (8 * n) \<and> bs = le_bytes n v"
  unfolding EncodeInteger_signed_iff
  by (subst same_high_bits, simp, subst same_high_bits_sint, simp) (auto simp: mult.commute)

section \<open>Bit masks\<close>

lemma bit_shifted_one:
  "i < 32 \<Longrightarrow> bit (scast (push_bit i (1 :: 32 word)) :: 64 word) k \<longleftrightarrow> k < 64 \<and> (k = i \<or> i = 31 \<and> 31 \<le> k)"
  by (auto simp: bit_simps min_def le_less_Suc_eq)

lemma bitmask_loop_bits:
  assumes "library_laws lib"
  shows "bitmask_loop lib i m (map JBool bs) = Inr w \<longleftrightarrow>
    (\<forall>j < length bs. bs ! j \<longrightarrow> i + j < 32) \<and>
    (\<forall>k < 64. bit w k \<longleftrightarrow> bit m k \<or> (\<exists>j < length bs. bs ! j \<and> (k = i + j \<or> i + j = 31 \<and> 31 \<le> k)))"
proof (induction bs arbitrary: i m)
  case Nil
  have "w = m \<longleftrightarrow> (\<forall>k < 64. bit w k = bit m k)" by (auto intro!: bit_word_eqI)
  then show ?case by auto
next
  case (Cons b bs)
  have as_bool: "as_bool lib (JBool c) = Inr c" for c using assms by (simp add: library_laws_def)
  have all: "(\<forall>j < length (b # bs). (b # bs) ! j \<longrightarrow> P j) \<longleftrightarrow> (b \<longrightarrow> P 0) \<and> (\<forall>j < length bs. bs ! j \<longrightarrow> P (Suc j))" for P
    by (simp add: All_less_Suc2)
  have ex: "(\<exists>j < length (b # bs). (b # bs) ! j \<and> P j) \<longleftrightarrow> b \<and> P 0 \<or> (\<exists>j < length bs. bs ! j \<and> P (Suc j))" for P
    by (simp add: Ex_less_Suc2)
  show ?case
  proof (cases "b \<and> 32 \<le> i")
    case True
    then show ?thesis unfolding all ex by (simp add: as_bool)
  next
    case False
    let ?m = "if b then m OR scast (push_bit i (1 :: 32 word)) else m"
    have "bitmask_loop lib i m (map JBool (b # bs)) = bitmask_loop lib (Suc i) ?m (map JBool bs)"
      using False by (simp add: as_bool)
    moreover have "bit ?m k \<longleftrightarrow> bit m k \<or> b \<and> (k = i \<or> i = 31 \<and> 31 \<le> k)" if "k < 64" for k
      using False that bit_shifted_one [of i k] by (auto simp: bit_or_iff)
    ultimately show ?thesis
      unfolding all ex using False by (simp only: Cons.IH) auto
  qed
qed

lemma take_bit_word_iff: "take_bit n (w :: 'a::len word) = w \<longleftrightarrow> (\<forall>k. n \<le> k \<longrightarrow> k < LENGTH('a) \<longrightarrow> \<not> bit w k)"
proof
  assume h: "take_bit n w = w"
  show "\<forall>k. n \<le> k \<longrightarrow> k < LENGTH('a) \<longrightarrow> \<not> bit w k"
  proof (intro allI impI)
    fix k assume "n \<le> k"
    then have "\<not> bit (take_bit n w) k" by (simp add: bit_take_bit_iff)
    then show "\<not> bit w k" by (simp add: h)
  qed
next
  assume h: "\<forall>k. n \<le> k \<longrightarrow> k < LENGTH('a) \<longrightarrow> \<not> bit w k"
  show "take_bit n w = w"
  proof (rule bit_word_eqI)
    fix k assume "k < LENGTH('a)"
    with h show "bit (take_bit n w) k \<longleftrightarrow> bit w k" by (auto simp: bit_take_bit_iff) (meson not_le)
  qed
qed

lemma map_bits_alt: "map_bits n w = JArray (map JBool (map (bit w) [0..<n * 8]))"
proof -
  have "(drop_bit k w AND 1 \<noteq> 0) = bit w k" for k
    by (metis and_one_eq bit_iff_odd_drop_bit odd_iff_mod_2_eq_one of_bool_eq_0_iff parity_cases zero_neq_one)
  then show ?thesis by (simp add: map_bits_def comp_def)
qed

lemma map_JBool_eq: "map JBool xs = map JBool ys \<longleftrightarrow> xs = ys"
  by (rule inj_map_eq_map) (simp add: inj_def)

lemma encode_map_iff:
  assumes "library_laws lib" "0 < n" "n < 8"
  shows "encode_map lib n (JArray (map JBool bs)) = Inr out \<longleftrightarrow>
    (\<exists>w. map_bits n w = JArray (map JBool bs) \<and> take_bit (8 * n) w = w \<and> drop_bit 31 w = 0 \<and> out = le_bytes n w)"
proof (cases "length bs = n * 8")
  case True
  have "encode_map lib n (JArray (map JBool bs)) = Inr out \<longleftrightarrow>
      (\<exists>w. bitmask_loop lib 0 0 (map JBool bs) = Inr w \<and> take_bit (8 * n) w = w \<and> out = le_bytes n w)"
    using True assms(2,3) by (auto simp: encode_map_def res_bind_eq_Inr EncodeInteger_unsigned_iff mult.commute)
  moreover have "bitmask_loop lib 0 0 (map JBool bs) = Inr w \<longleftrightarrow>
      map_bits n w = JArray (map JBool bs) \<and> drop_bit 31 w = 0" if w: "take_bit (8 * n) w = w" for w
  proof
    assume "bitmask_loop lib 0 0 (map JBool bs) = Inr w"
    then have b32: "\<forall>j < length bs. bs ! j \<longrightarrow> j < 32"
      and bits: "\<forall>k < 64. bit w k \<longleftrightarrow> (\<exists>j < length bs. bs ! j \<and> (k = j \<or> j = 31 \<and> 31 \<le> k))"
      by (simp_all add: bitmask_loop_bits [OF assms(1)])
    have "\<not> bit w 63" using w assms(3) by (simp add: take_bit_word_iff)
    with bits have b31: "\<not> (31 < length bs \<and> bs ! 31)" by auto
    have eq: "bit w k \<longleftrightarrow> k < length bs \<and> bs ! k" if "k < 64" for k
      using bits [rule_format, OF that] b31 by auto
    have "bs = map (bit w) [0..<n * 8]"
      using True eq assms(3) by (intro nth_equalityI) auto
    then have "map_bits n w = JArray (map JBool bs)" by (simp add: map_bits_alt)
    moreover have "take_bit 31 w = w"
      unfolding take_bit_word_iff
    proof (intro allI impI)
      fix k assume "31 \<le> k" "k < LENGTH(64)"
      with b31 b32 eq [of k] show "\<not> bit w k" by (cases "k = 31") auto
    qed
    ultimately show "map_bits n w = JArray (map JBool bs) \<and> drop_bit 31 w = 0"
      by (simp add: take_bit_eq_self_iff_drop_bit_eq_0)
  next
    assume h: "map_bits n w = JArray (map JBool bs) \<and> drop_bit 31 w = 0"
    then have bs: "bs = map (bit w) [0..<n * 8]" by (simp only: map_bits_alt json.inject map_JBool_eq)
    have high: "\<not> bit w k" if "31 \<le> k" for k
      using h that bit_imp_le_length [of w k] by (auto simp: take_bit_word_iff simp flip: take_bit_eq_self_iff_drop_bit_eq_0)
    have low: "\<not> bit w k" if "n * 8 \<le> k" for k
      using w that bit_imp_le_length [of w k] by (auto simp: take_bit_word_iff mult.commute)
    show "bitmask_loop lib 0 0 (map JBool bs) = Inr w"
      unfolding bitmask_loop_bits [OF assms(1)] bs
    proof (intro conjI allI impI)
      have low: "k < 31 \<and> k < n * 8" if "bit w k" for k using that high low by (meson not_le)
      show "0 + j < 32" if "j < length (map (bit w) [0..<n * 8])" "map (bit w) [0..<n * 8] ! j" for j
        using that low [of j] by simp
      show "bit w k \<longleftrightarrow> bit 0 k \<or> (\<exists>j < length (map (bit w) [0..<n * 8]). map (bit w) [0..<n * 8] ! j \<and>
          (k = 0 + j \<or> 0 + j = 31 \<and> 31 \<le> k))" for k
        using low [of k] low [of 31] by auto
    qed
  qed
  ultimately show ?thesis by blast
next
  case False
  then show ?thesis by (auto simp: encode_map_def map_bits_alt dest: arg_cong [of _ _ length])
qed

section \<open>Properties\<close>

text \<open>
  C36: an integer of one to seven bytes: an unsigned value is encoded exactly when it fits, as its
  low bytes; the bytes of any value are decoded to the value modulo the width, and with a signed
  type to the signed number those bytes stand for.
\<close>

theorem dynamic_integer_format:
  assumes "0 < n" "n < 8"
  shows "(EncodeInteger False (w :: 64 word) n = Inr bs \<longleftrightarrow> unat w < 2 ^ (8 * n) \<and> bs = le_bytes n w)
    \<and> DecodeInteger False n (le_bytes n w @ rest) = Inr (take_bit (8 * n) w, rest)
    \<and> DecodeInteger True n (le_bytes n w @ rest) = Inr (signed_take_bit (8 * n - 1) w, rest)"
proof -
  have "take_bit (8 * n) w = w \<longleftrightarrow> unat w < 2 ^ (8 * n)"
    by (metis take_bit_nat_eq_self_iff unsigned_take_bit_eq unsigned_word_eqI)
  moreover have "DecodeInteger False n (le_bytes n w @ rest) = Inr (take_bit (8 * n) w, rest)"
    using assms by (simp add: DecodeInteger_unsigned of_le_bytes_le_bytes)
  moreover have "n * 8 < max 32 LENGTH(64)" using assms by simp
  ultimately show ?thesis
    using DecodeInteger_signed [of n w rest] assms by (simp add: EncodeInteger_unsigned_iff mult.commute)
qed

lemma signed_take_bit_eq_self:
  assumes "k < 63"
  shows "signed_take_bit k v = v \<longleftrightarrow> - (2 ^ k) \<le> sint v \<and> sint (v :: 64 word) < 2 ^ k"
proof -
  have "signed_take_bit (k) v = v \<longleftrightarrow> (\<forall>j. k \<le> j \<longrightarrow> j < 64 \<longrightarrow> bit v j = bit v (k))"
  proof
    assume h: "signed_take_bit (k) v = v"
    show "\<forall>j. k \<le> j \<longrightarrow> j < 64 \<longrightarrow> bit v j = bit v (k)"
    proof (intro allI impI)
      fix j assume "k \<le> j" "j < 64"
      moreover have "bit v j = bit (signed_take_bit (k) v) j" by (simp only: h)
      ultimately show "bit v j = bit v (k)" using assms by (simp add: bit_signed_take_bit_iff min_def)
    qed
  next
    assume h: "\<forall>j. k \<le> j \<longrightarrow> j < 64 \<longrightarrow> bit v j = bit v (k)"
    show "signed_take_bit (k) v = v"
    proof (rule bit_word_eqI)
      fix j assume "j < LENGTH(64)"
      with h [rule_format, of j] assms show "bit (signed_take_bit (k) v) j = bit v j"
        by (auto simp: bit_signed_take_bit_iff min_def)
    qed
  qed
  also have "\<dots> \<longleftrightarrow> - (2 ^ (k)) \<le> sint v \<and> sint v < 2 ^ (k)"
    using same_high_bits_sint [of "k" v] assms by simp
  finally show ?thesis .
qed

text \<open>What a signed reading has read.\<close>

lemma DecodeInteger_signed_from:
  assumes "0 < n" "8 * n < LENGTH('a)" "DecodeInteger True n bs = Inr (x :: 'a::len word, rest)"
  obtains w :: "'a::len word" where "bs = le_bytes n w @ rest" "x = signed_take_bit (8 * n - 1) w"
proof -
  have "n \<le> length bs"
  proof (rule ccontr)
    assume "\<not> n \<le> length bs"
    with assms(2,3) show False by (simp add: DecodeInteger_def DecodeUnsigned_loop_eq)
  qed
  then have "bs = le_bytes n (of_le_bytes (take n bs) :: 'a word) @ drop n bs"
    using le_bytes_of_le_bytes [of "take n bs", where 'a = 'a] assms(2) by simp
  with DecodeInteger_signed [OF assms(1,2), of "of_le_bytes (take n bs)" "drop n bs"] assms(3) that
  show thesis by auto
qed

text \<open>
  C37: the range check of signed integers is one bit too wide: all of \<open>-2^8n\<close> to \<open>2^8n - 1\<close> is
  encoded in \<open>n\<close> bytes, and exactly the values outside the signed range of \<open>n\<close> bytes are
  decoded to another number.
\<close>

theorem signed_range_too_wide:
  assumes "0 < n" "n < 8"
  shows "((\<exists>bs. EncodeInteger True (v :: 64 word) n = Inr bs) \<longleftrightarrow> - (2 ^ (8 * n)) \<le> sint v \<and> sint v < 2 ^ (8 * n))
    \<and> (DecodeInteger True n (le_bytes n v) = Inr (v, []) \<longleftrightarrow> - (2 ^ (8 * n - 1)) \<le> sint v \<and> sint v < 2 ^ (8 * n - 1))"
proof -
  have "signed_take_bit (8 * n - 1) v = v \<longleftrightarrow> - (2 ^ (8 * n - 1)) \<le> sint v \<and> sint v < 2 ^ (8 * n - 1)"
    using signed_take_bit_eq_self [of "8 * n - 1" v] assms by simp
  then show ?thesis
    using EncodeInteger_signed_range [OF assms, of v] DecodeInteger_signed [of n v "[]"] assms by auto
qed

text \<open>
  A bit map of one to seven bytes is encoded exactly when none of the bits from 31 on is set,
  and then as the bytes that are decoded to the same bits; any other map makes the encoder throw or
  shift too far, although the types up to \<open>map56\<close> have those bits.
\<close>

theorem bit_maps_below_bit_31:
  assumes "library_laws lib" "0 < n" "n < 8"
  shows "encode_map lib n (JArray (map JBool bs)) = Inr out \<longleftrightarrow>
    (\<exists>w. map_bits n w = JArray (map JBool bs) \<and> drop_bit 31 w = 0
      \<and> out = le_bytes n w \<and> DecodeInteger False n out = Inr (w, []))"
  unfolding encode_map_iff [OF assms] using assms DecodeInteger_unsigned_iff [of n _ _ "[]", where 'a = 64]
  by auto

text \<open>
  An integer of eight bytes is never encoded: the check shifts a 64-bit value by 64 bits.
\<close>

theorem eight_bytes_undefined:
  "EncodeInteger is_signed (w :: 64 word) 8 = Inl Undefined_behaviour
   \<and> DecodeInteger True 8 (le_bytes 8 w) = (if bit w 63 then Inl Undefined_behaviour else Inr (w, []))"
proof -
  have "take_bit 64 w = w" by (rule take_bit_length_eq [where 'a = 64, simplified])
  then have "DecodeUnsigned_loop (byte_shifts 8) 0 (le_bytes 8 w) = Inr (w, [])"
    by (simp add: DecodeUnsigned_loop_eq of_le_bytes_le_bytes)
  moreover have "drop_bit 63 w = 1 \<longleftrightarrow> bit w 63"
  proof -
    have "drop_bit 63 w = of_bool (bit w 63)"
    proof (rule bit_word_eqI)
      fix k
      have "\<not> bit w (63 + k)" if "k \<noteq> 0" using that bit_imp_le_length [of w "63 + k"] by auto
      then show "bit (drop_bit 63 w) k \<longleftrightarrow> bit (of_bool (bit w 63) :: 64 word) k"
        by (cases "k = 0") (auto simp: bit_drop_bit_eq bit_1_iff)
    qed
    then show ?thesis by simp
  qed
  ultimately show ?thesis by (simp add: EncodeInteger_def DecodeInteger_def)
qed

section \<open>Examples\<close>

theorem dynamic_integer_format_witness:
  "EncodeInteger False (0x3456 :: 64 word) 3 = Inr (le_bytes 3 (0x3456 :: 64 word))
   \<and> DecodeInteger True 3 (le_bytes 3 (0x3456 :: 64 word)) = Inr (0x3456 :: 64 word, [])"
  using dynamic_integer_format [of 3 "0x3456" "le_bytes 3 (0x3456 :: 64 word)" "[]"]
  by (simp add: signed_take_bit_def)

theorem signed_range_too_wide_witness:
  "(\<exists>bs. EncodeInteger True (200 :: 64 word) 1 = Inr bs) \<and> DecodeInteger True 1 (le_bytes 1 (200 :: 64 word)) \<noteq> Inr (200 :: 64 word, [])"
  using signed_range_too_wide [of 1 200] by simp

theorem bit_maps_below_bit_31_witness:
  "encode_map (strict_library (\<lambda>_. [])) 4 (JArray (map JBool (replicate 31 False @ [True]))) \<noteq> Inr [0, 0, 0, 0x80]"
proof
  assume "encode_map (strict_library (\<lambda>_. [])) 4 (JArray (map JBool (replicate 31 False @ [True]))) = Inr [0, 0, 0, 0x80]"
  then obtain w :: "64 word" where w: "map_bits 4 w = JArray (map JBool (replicate 31 False @ [True]))" "drop_bit 31 w = 0"
    using bit_maps_below_bit_31 [OF strict_library_laws, of 4 _ "replicate 31 False @ [True]"] by auto
  from w(1) have "map (bit w) [0..<32] ! 31 = (replicate 31 False @ [True]) ! 31"
    by (simp only: map_bits_alt json.inject map_JBool_eq) simp
  then have "bit w 31" by (simp add: nth_append)
  then have "bit (drop_bit 31 w) 0" by (simp add: bit_drop_bit_eq)
  with w(2) show False by simp
qed

end
