(* ===== verification/DynamicRoundTrip.thy ===== *)
theory DynamicRoundTrip
  imports DynamicProgress DynamicIntegers
begin

text \<open>
  What is published for a frame and sent back means the same: a decoded value that the encoder
  accepts is encoded to bytes that are decoded to that value again. The bytes may differ from the
  ones received (any non-zero byte is a true \<open>bool\<close>, a NaN is encoded as one fixed NaN), but not
  their number. \<open>rereads\<close> states this of one decoding and one encoding function; there is a lemma
  for each leaf and one for each way of composing them, and the recursion is put together at the end.
\<close>

section \<open>Readings that can be repeated\<close>

definition rereads :: "'a decoding \<Rightarrow> ('a \<Rightarrow> error + byte list) \<Rightarrow> bool" where
  "rereads d e \<longleftrightarrow> (\<forall>bs l v rest l' pre. d (bs, l) = Inr (v, (rest, l')) \<longrightarrow> e v = Inr pre \<longrightarrow>
     length bs = length pre + length rest \<and> (\<forall>s. length s = length rest \<longrightarrow> d (pre @ s, l) = Inr (v, (s, l'))))"

lemma rereadsI:
  assumes "\<And>bs l v rest l' pre. d (bs, l) = Inr (v, (rest, l')) \<Longrightarrow> e v = Inr pre \<Longrightarrow>
     length bs = length pre + length rest \<and> (\<forall>s. length s = length rest \<longrightarrow> d (pre @ s, l) = Inr (v, (s, l')))"
  shows "rereads d e"
  using assms unfolding rereads_def by blast

lemma rereadsD:
  assumes "rereads d e" "d (bs, l) = Inr (v, (rest, l'))" "e v = Inr pre"
  shows "length bs = length pre + length rest" "length s = length rest \<Longrightarrow> d (pre @ s, l) = Inr (v, (s, l'))"
  using assms unfolding rereads_def by blast+


text \<open>What is computed from a repeatable reading.\<close>

lemma rereads_wrap:
  assumes "rereads d e" "\<And>x pre. e' (f x) = Inr pre \<Longrightarrow> e x = Inr pre"
  shows "rereads (\<lambda>s. res_bind (d s) (\<lambda>(x, s). Inr (f x, s))) e'"
proof (rule rereadsI)
  fix bs l v rest l' pre
  assume h: "res_bind (d (bs, l)) (\<lambda>(x, s). Inr (f x, s)) = Inr (v, (rest, l'))" and e: "e' v = Inr pre"
  then obtain x where x: "d (bs, l) = Inr (x, (rest, l'))" and v: "v = f x" by (auto simp: res_bind_eq_Inr)
  from e v have "e x = Inr pre" using assms(2) by blast
  note rereadsD [OF assms(1) x this]
  with v show "length bs = length pre + length rest \<and> (\<forall>s. length s = length rest \<longrightarrow>
      res_bind (d (pre @ s, l)) (\<lambda>(x, s). Inr (f x, s)) = Inr (v, (s, l')))" by simp
qed

text \<open>A value with a fixed representation in front of what depends on it.\<close>

lemma rereads_then:
  assumes canon: "\<And>bs x rest. r bs = Inr (x, rest) \<longleftrightarrow> bs = w x @ rest \<and> ok x"
    and parts: "\<And>x s v s' pre. ok x \<Longrightarrow> k x s = Inr (v, s') \<Longrightarrow> e v = Inr pre \<Longrightarrow>
      \<exists>pre'. ek x v = Inr pre' \<and> pre = w x @ pre'"
    and k: "\<And>x. ok x \<Longrightarrow> rereads (k x) (ek x)"
  shows "rereads (\<lambda>(bs, l). res_bind (r bs) (\<lambda>(x, bs). k x (bs, l))) e"
proof (rule rereadsI)
  fix bs l v rest l' pre
  assume h: "(\<lambda>(bs, l). res_bind (r bs) (\<lambda>(x, bs). k x (bs, l))) (bs, l) = Inr (v, (rest, l'))" and e: "e v = Inr pre"
  then obtain x bs' where "r bs = Inr (x, bs')" and kx: "k x (bs', l) = Inr (v, (rest, l'))"
    by (auto simp: res_bind_eq_Inr)
  then have bs: "bs = w x @ bs'" and ok: "ok x" by (simp_all add: canon)
  obtain pre' where pre': "ek x v = Inr pre'" "pre = w x @ pre'" using parts [OF ok kx e] by blast
  have again: "r (w x @ s) = Inr (x, s)" for s using ok by (simp add: canon)
  from rereadsD [OF k [OF ok] kx pre'(1)] bs pre'(2) again
  show "length bs = length pre + length rest \<and> (\<forall>s. length s = length rest \<longrightarrow>
      (\<lambda>(bs, l). res_bind (r bs) (\<lambda>(x, bs). k x (bs, l))) (pre @ s, l) = Inr (v, (s, l')))"
    by simp
qed

lemma rereads_reading:
  assumes canon: "\<And>bs x rest. r bs = Inr (x, rest) \<longleftrightarrow> bs = w x @ rest \<and> ok x"
    and e: "\<And>x pre. ok x \<Longrightarrow> e (f x) = Inr pre \<Longrightarrow> \<exists>x'. ok x' \<and> f x' = f x \<and> pre = w x' \<and> length (w x') = length (w x)"
  shows "rereads (reading r f) e"
proof (rule rereadsI)
  fix bs l v rest l' pre
  assume h: "reading r f (bs, l) = Inr (v, (rest, l'))" and ev: "e v = Inr pre"
  then obtain x where x: "r bs = Inr (x, rest)" and v: "v = f x" and l: "l' = l"
    by (auto simp: reading_def res_bind_eq_Inr)
  from x have bs: "bs = w x @ rest" and ok: "ok x" by (simp_all add: canon)
  from e [OF ok, of pre] ev v obtain x' where x': "ok x'" "f x' = f x" "pre = w x'" "length (w x') = length (w x)"
    by blast
  have "r (w x' @ s) = Inr (x', s)" for s using x'(1) by (simp add: canon)
  with x' bs v l show "length bs = length pre + length rest \<and> (\<forall>s. length s = length rest \<longrightarrow>
      reading r f (pre @ s, l) = Inr (v, (s, l')))" by (simp add: reading_def)
qed

lemma rereads_const: "(\<And>pre. e v = Inr pre \<Longrightarrow> pre = []) \<Longrightarrow> rereads (\<lambda>s. Inr (v, s)) e"
  by (rule rereadsI) auto

section \<open>Lists\<close>

lemma encode_items_Cons: "encode_items e (x # xs) = Inr pre \<longleftrightarrow>
    (\<exists>p ps. e x = Inr p \<and> encode_items e xs = Inr ps \<and> pre = p @ ps)"
  by (auto simp: res_append_def res_bind_eq_Inr)

lemma decode_times_length: "decode_times n d s = Inr (xs, s') \<Longrightarrow> length xs = n"
  by (induction n arbitrary: xs s s') (fastforce simp: res_bind_eq_Inr)+

lemma rereads_times:
  assumes "rereads d e"
  shows "rereads (decode_times n d) (encode_items e)"
proof (induction n)
  case 0
  show ?case by (rule rereadsI) auto
next
  case (Suc n)
  show ?case
  proof (rule rereadsI)
    fix bs l v rest l' pre
    assume h: "decode_times (Suc n) d (bs, l) = Inr (v, (rest, l'))" and e: "encode_items e v = Inr pre"
    then obtain x bs1 l1 xs where x: "d (bs, l) = Inr (x, (bs1, l1))"
      and xs: "decode_times n d (bs1, l1) = Inr (xs, (rest, l'))" and v: "v = x # xs"
      by (auto simp: res_bind_eq_Inr)
    from e v obtain p ps where p: "e x = Inr p" and ps: "encode_items e xs = Inr ps" and pre: "pre = p @ ps"
      by (auto simp: encode_items_Cons simp del: encode_items.simps)
    from rereadsD [OF assms x p] rereadsD [OF Suc xs ps] v pre
    show "length bs = length pre + length rest \<and> (\<forall>s. length s = length rest \<longrightarrow>
        decode_times (Suc n) d (pre @ s, l) = Inr (v, (s, l')))" by simp
  qed
qed

lemma rereads_until_end:
  assumes "rereads d e"
  shows "rereads (decode_until_end n d) (encode_items e)"
proof (induction n)
  case 0
  show ?case by (rule rereadsI) (auto split: if_splits)
next
  case (Suc n)
  show ?case
  proof (rule rereadsI)
    fix bs l v rest l' pre
    assume h: "decode_until_end (Suc n) d (bs, l) = Inr (v, (rest, l'))" and e: "encode_items e v = Inr pre"
    show "length bs = length pre + length rest \<and> (\<forall>s. length s = length rest \<longrightarrow>
        decode_until_end (Suc n) d (pre @ s, l) = Inr (v, (s, l')))"
    proof (cases "bs = []")
      case True
      with h e show ?thesis by auto
    next
      case False
      with h obtain x bs1 l1 xs where x: "d (bs, l) = Inr (x, (bs1, l1))"
        and xs: "decode_until_end n d (bs1, l1) = Inr (xs, (rest, l'))" and v: "v = x # xs"
        by (auto simp: res_bind_eq_Inr)
      from e v obtain p ps where p: "e x = Inr p" and ps: "encode_items e xs = Inr ps" and pre: "pre = p @ ps"
        by (auto simp: encode_items_Cons simp del: encode_items.simps)
      have len: "length bs = length pre + length rest"
        using rereadsD(1) [OF assms x p] rereadsD(1) [OF Suc xs ps] pre by simp
      then have "pre @ s \<noteq> []" if "length s = length rest" for s using False that by auto
      then have "pre \<noteq> [] \<or> s \<noteq> []" if "length s = length rest" for s using that by auto
      with len rereadsD [OF assms x p] rereadsD [OF Suc xs ps] v pre show ?thesis by auto
    qed
  qed
qed

section \<open>Leaves\<close>

lemmas read_unsigned = DecodeInteger_unsigned_iff [where 'a = 64]

lemma rereads_never: "(\<And>v pre. e v \<noteq> Inr pre) \<Longrightarrow> rereads d e"
  by (simp add: rereads_def)

lemma EncodeInteger_wide: "max 32 LENGTH('a) \<le> n * 8 \<Longrightarrow> EncodeInteger neg (x :: 'a::len word) n = Inl Undefined_behaviour"
  unfolding EncodeInteger_def by (rule if_P)

lemma as_unsigned_byte:
  assumes "library_laws lib"
  shows "as_unsigned_int lib (JUnsigned (ucast (b :: byte))) = Inr (ucast b)"
proof -
  have "(ucast b :: 64 word) = ucast (ucast b :: 32 word)"
    by (rule bit_word_eqI) (auto simp: bit_simps dest: bit_imp_le_length)
  with assms show ?thesis by (simp add: library_laws_def)
qed

lemma encode_byte: "EncodeInteger False (ucast (b :: byte) :: 32 word) 1 = Inr [b]"
proof -
  have "take_bit 8 (ucast b :: 32 word) = ucast b" by (rule bit_word_eqI) (auto simp: bit_simps dest: bit_imp_le_length)
  moreover have "(ucast (ucast b :: 32 word) :: byte) = b" by (rule bit_word_eqI) (auto simp: bit_simps)
  ultimately show ?thesis by (simp add: EncodeInteger_unsigned_iff)
qed

definition encode_octet :: "json_library \<Rightarrow> json \<Rightarrow> error + byte list" where
  "encode_octet lib item = res_bind (as_unsigned_int lib item) (\<lambda>x. EncodeInteger False x 1)"

lemma encode_octets:
  "library_laws lib \<Longrightarrow> encode_items (encode_octet lib) (map (\<lambda>b :: byte. JUnsigned (ucast b)) bs) = Inr bs"
  by (induction bs) (simp_all add: encode_octet_def as_unsigned_byte encode_byte [simplified] res_append_def)

lemma rereads_octet:
  assumes "library_laws lib"
  shows "rereads (reading (DecodeInteger False 1) (\<lambda>x :: 32 word. JUnsigned (ucast x))) (encode_octet lib)"
proof (rule rereads_reading)
  show "DecodeInteger False 1 bs = Inr (x, rest) \<longleftrightarrow> bs = le_bytes 1 x @ rest \<and> take_bit (8 * 1) x = x"
    for bs rest and x :: "32 word" by (rule DecodeInteger_unsigned_iff) simp
  fix x :: "32 word" and pre
  assume "take_bit (8 * 1) x = x" "encode_octet lib (JUnsigned (ucast x)) = Inr pre"
  moreover have "as_unsigned_int lib (JUnsigned (ucast x)) = Inr x" using assms by (simp add: library_laws_def)
  ultimately show "\<exists>x' :: 32 word. take_bit (8 * 1) x' = x' \<and> JUnsigned (ucast x') = JUnsigned (ucast x) \<and> pre = le_bytes 1 x'
      \<and> length (le_bytes 1 x') = length (le_bytes 1 x)"
    by (intro exI [of _ x]) (simp add: encode_octet_def EncodeInteger_unsigned_iff)
qed

lemma rereads_data:
  assumes "library_laws lib"
  shows "rereads (\<lambda>s. res_bind
         (decode_times n (reading (DecodeInteger False 1) (\<lambda>x :: 32 word. JUnsigned (ucast x))) s)
         (\<lambda>(xs, s). Inr (JArray xs, s))) (encode_data lib n)"
  by (rule rereads_wrap [OF rereads_times [OF rereads_octet [OF assms]]])
    (simp add: encode_data_def encode_octet_def [abs_def] split: if_splits)

lemma rereads_unsigned:
  "rereads (reading (DecodeInteger False n) f) e" if
  "\<And>x :: 64 word. \<And>pre. n < 8 \<Longrightarrow> take_bit (8 * n) x = x \<Longrightarrow> e (f x) = Inr pre \<Longrightarrow>
     \<exists>x'. take_bit (8 * n) x' = x' \<and> f x' = f x \<and> pre = le_bytes n x'"
  "\<And>v pre. 8 \<le> n \<Longrightarrow> e v \<noteq> Inr pre"
proof (cases "n < 8")
  case True
  show ?thesis
    by (rule rereads_reading [OF read_unsigned]) (use True that(1) in auto)
next
  case False
  then show ?thesis using that(2) by (intro rereads_never) simp
qed

lemma rereads_uint:
  assumes "library_laws lib"
  shows "rereads (reading (DecodeInteger False n) JUnsigned) (\<lambda>v. res_bind (as_uint64 lib v) (\<lambda>x. EncodeInteger False x n))"
proof (rule rereads_unsigned)
  have law: "as_uint64 lib (JUnsigned x) = Inr x" for x using assms by (simp add: library_laws_def)
  show "\<exists>x'. take_bit (8 * n) x' = x' \<and> JUnsigned x' = JUnsigned x \<and> pre = le_bytes n x'"
    if "res_bind (as_uint64 lib (JUnsigned x)) (\<lambda>x. EncodeInteger False x n) = Inr pre"
      "take_bit (8 * n) x = x" for x pre
    using that by (auto simp: law EncodeInteger_unsigned_iff)
qed (auto simp: res_bind_eq_Inr EncodeInteger_wide)

lemma rereads_enum:
  assumes "library_laws lib"
  shows "rereads (reading (DecodeInteger False n) JUnsigned) (\<lambda>v. res_bind (as_unsigned_int lib v) (\<lambda>x. EncodeInteger False x n))"
proof (cases "n < 4")
  case True
  show ?thesis
  proof (rule rereads_unsigned)
    fix x :: "64 word" and pre
    assume x: "take_bit (8 * n) x = x" and e: "res_bind (as_unsigned_int lib (JUnsigned x)) (\<lambda>x. EncodeInteger False x n) = Inr pre"
    have small: "\<not> bit x k" if "32 \<le> k" for k
      using x True that bit_take_bit_iff [of "8 * n" x k] by auto
    have "ucast (ucast x :: 32 word) = x"
      by (rule bit_word_eqI) (use small in \<open>auto simp: bit_simps simp flip: not_le\<close>)
    moreover have "as_unsigned_int lib (JUnsigned (ucast w)) = Inr w" for w using assms by (simp add: library_laws_def)
    ultimately have "as_unsigned_int lib (JUnsigned x) = Inr (ucast x)" by metis
    with e have "pre = le_bytes n (ucast x :: 32 word)" by (simp add: EncodeInteger_unsigned_iff)
    also have "\<dots> = le_bytes n x" by (rule le_bytes_cong) (use True in \<open>auto simp: bit_simps\<close>)
    finally show "\<exists>x'. take_bit (8 * n) x' = x' \<and> JUnsigned x' = JUnsigned x \<and> pre = le_bytes n x'" using x by auto
  qed (auto simp: res_bind_eq_Inr EncodeInteger_wide)
next
  case False
  then show ?thesis by (intro rereads_never) (auto simp: res_bind_eq_Inr EncodeInteger_wide)
qed

lemma rereads_int:
  assumes "library_laws lib" "0 < n"
  shows "rereads (reading (DecodeInteger True n) JSigned) (\<lambda>v. res_bind (as_int64 lib v) (\<lambda>x. EncodeInteger True x n))"
proof (cases "n < 8")
  case True
  have law: "as_int64 lib (JSigned x) = Inr x" for x using assms(1) by (simp add: library_laws_def)
  show ?thesis
  proof (rule rereadsI)
    fix bs l v rest l' pre
    assume h: "reading (DecodeInteger True n) JSigned (bs, l) = Inr (v, (rest, l'))"
      and e: "res_bind (as_int64 lib v) (\<lambda>x. EncodeInteger True x n) = Inr pre"
    from h obtain x where x: "DecodeInteger True n bs = Inr (x, rest)" and v: "v = JSigned x" and l: "l' = l"
      by (auto simp: reading_def res_bind_eq_Inr)
    obtain w :: "64 word" where bs: "bs = le_bytes n w @ rest" and sx: "x = signed_take_bit (8 * n - 1) w"
      using DecodeInteger_signed_from [OF assms(2) _ x] True by auto
    have pre: "pre = le_bytes n x" using e v law by (simp add: EncodeInteger_signed_iff)
    have "signed_take_bit (8 * n - 1) x = x" by (simp add: sx)
    then have "DecodeInteger True n (pre @ s) = Inr (x, s)" for s
      using DecodeInteger_signed [OF assms(2), of x s] True by (simp add: pre)
    with v l bs pre show "length bs = length pre + length rest \<and> (\<forall>s. length s = length rest \<longrightarrow>
        reading (DecodeInteger True n) JSigned (pre @ s, l) = Inr (v, (s, l')))" by (simp add: reading_def)
  qed
next
  case False
  then show ?thesis by (intro rereads_never) (auto simp: res_bind_eq_Inr EncodeInteger_wide)
qed

lemma rereads_map:
  assumes "library_laws lib" "0 < n"
  shows "rereads (reading (DecodeInteger False n) (map_bits n)) (encode_map lib n)"
proof (rule rereads_unsigned)
  fix x :: "64 word" and pre
  assume "n < 8" and e: "encode_map lib n (map_bits n x) = Inr pre"
  have "map_bits n x = JArray (map JBool (map (bit x) [0..<n * 8]))" by (rule map_bits_alt)
  with e encode_map_iff [OF assms \<open>n < 8\<close>, of "map (bit x) [0..<n * 8]" pre]
  show "\<exists>x'. take_bit (8 * n) x' = x' \<and> map_bits n x' = map_bits n x \<and> pre = le_bytes n x'" by auto
qed (auto simp: encode_map_def res_bind_eq_Inr EncodeInteger_wide split: if_splits)

lemma rereads_bool:
  assumes "library_laws lib"
  shows "rereads (reading (DecodeInteger False 1) (\<lambda>x :: 8 word. if x = 0xFF then JNull else JBool (x \<noteq> 0)))
    (\<lambda>value. if value = JNull then EncodeInteger False (0xFF :: 8 word) 1
         else res_bind (as_bool lib value) (\<lambda>b. EncodeInteger False (if b then 1 else 0 :: 8 word) 1))"
proof (rule rereads_reading)
  show "DecodeInteger False 1 bs = Inr (x, rest) \<longleftrightarrow> bs = le_bytes 1 x @ rest \<and> take_bit (8 * 1) x = x"
    for bs rest and x :: "8 word" by (rule DecodeInteger_unsigned_iff) simp
  have full: "take_bit (8 * 1) x = x" for x :: "8 word" using take_bit_length_eq [of x] by simp
  have law: "as_bool lib (JBool b) = Inr b" for b using assms by (simp add: library_laws_def)
  fix x :: "8 word" and pre
  let ?y = "if x = 0xFF then 0xFF else if x \<noteq> 0 then 1 else 0 :: 8 word"
  assume "(if (if x = 0xFF then JNull else JBool (x \<noteq> 0)) = JNull then EncodeInteger False (0xFF :: 8 word) 1
       else res_bind (as_bool lib (if x = 0xFF then JNull else JBool (x \<noteq> 0)))
         (\<lambda>b. EncodeInteger False (if b then 1 else 0 :: 8 word) 1)) = Inr pre"
  then have "EncodeInteger False ?y 1 = Inr pre" by (simp add: law split: if_splits)
  then have "pre = le_bytes 1 ?y" by (simp only: EncodeInteger_unsigned_iff)
  then show "\<exists>x' :: 8 word. take_bit (8 * 1) x' = x' \<and>
      (if x' = 0xFF then JNull else JBool (x' \<noteq> 0)) = (if x = 0xFF then JNull else JBool (x \<noteq> 0)) \<and>
      pre = le_bytes 1 x' \<and> length (le_bytes 1 x') = length (le_bytes 1 x)"
    using full by (intro exI [of _ ?y]) auto
qed

lemma reading_map: "reading (\<lambda>bs. res_bind (r bs) (\<lambda>(x, rest). Inr (g x, rest))) f = reading r (\<lambda>x. f (g x))"
  by (intro ext) (auto simp: reading_def res_bind_def split: sum.splits)

lemma Encode_float:
  "Encode (float_codec fl MAN EXP TYPE('a::len)) x = res_bind (Float_bits fl MAN EXP x) (Encode (unsigned_codec :: 'a word codec))"
  by (cases "Float_bits fl MAN EXP x :: error + 'a word") (simp_all add: Encode_def float_codec_def unsigned_codec_def)

lemma rereads_float:
  assumes layout: "MAN + EXP + 1 = LENGTH('a::len)" "0 < MAN" "1 < EXP" "8 dvd LENGTH('a)"
    and near: "\<And>x. 0 < x \<Longrightarrow> near_at fl x"
    and as_fp: "\<And>raw :: 'a word. as_fp (JDouble (Float_value MAN EXP raw)) = Inr (Float_value MAN EXP raw)"
  shows "rereads (reading (\<lambda>bs. res_bind (dec unsigned_codec bs) (\<lambda>(raw :: 'a word, rest). Inr (Float_value MAN EXP raw, rest))) JDouble)
    (\<lambda>v. res_bind (as_fp v) (Encode (float_codec fl MAN EXP TYPE('a))))"
  unfolding reading_map
proof (rule rereads_reading)
  show "dec unsigned_codec bs = Inr (x :: 'a word, rest) \<longleftrightarrow> bs = le_bytes (LENGTH('a) div 8) x @ rest \<and> True" for bs x rest
  proof -
    note canonical = unsigned_codec_canonical [OF layout(4)]
    show ?thesis
      using canonical_codec.canonical_law [OF canonical, of bs x rest] codec_laws.read_law [OF canonical_imp_laws [OF canonical], of x rest]
      by auto
  qed
  fix raw :: "'a word" and pre
  assume "res_bind (as_fp (JDouble (Float_value MAN EXP raw))) (Encode (float_codec fl MAN EXP TYPE('a))) = Inr pre"
  then obtain w' :: "'a word" where w': "Float_bits fl MAN EXP (Float_value MAN EXP raw) = Inr w'"
    and pre: "Encode unsigned_codec w' = Inr pre" by (auto simp: as_fp Encode_float res_bind_eq_Inr)
  have "pre = le_bytes (LENGTH('a) div 8) w'"
    using pre codec_laws.encode_img [OF canonical_imp_laws [OF unsigned_codec_canonical [OF layout(4)]], of w'] by simp
  moreover have "Float_value MAN EXP w' = Float_value MAN EXP raw" by (rule Float_reread [OF layout(1-3) near w'])
  ultimately show "\<exists>x' :: 'a word. True \<and> JDouble (Float_value MAN EXP x') = JDouble (Float_value MAN EXP raw)
      \<and> pre = le_bytes (LENGTH('a) div 8) x' \<and> length (le_bytes (LENGTH('a) div 8) x') = length (le_bytes (LENGTH('a) div 8) raw)"
    by auto
qed

section \<open>Strings\<close>

lemma rereads_string:
  assumes n: "0 < n" "n < 8"
    and null: "e JNull = EncodeInteger False (2 ^ (n * 8) - 1 :: 64 word) n"
    and written: "\<And>bs pre. e (f bs) = Inr pre \<Longrightarrow> f bs \<noteq> JNull \<Longrightarrow> \<exists>hd. EncodeInteger False (word_of_nat (length bs) :: 64 word) n = Inr hd \<and> pre = hd @ bs"
    and f: "\<And>bs. f bs \<noteq> JNull"
  shows "rereads (decode_string n f shortage) e"
proof (rule rereadsI)
  fix bs l v rest l' pre
  assume h: "decode_string n f shortage (bs, l) = Inr (v, (rest, l'))" and e: "e v = Inr pre"
  then obtain x :: "64 word" and bs' where x: "DecodeInteger False n bs = Inr (x, bs')"
    and more: "(if unat x = 2 ^ (n * 8) - 1 then Inr (JNull, (bs', l))
        else if length bs' < unat x then Inl (Runtime_error shortage)
        else Inr (f (take (unat x) bs'), (drop (unat x) bs', l))) = Inr (v, (rest, l'))"
    by (auto simp: decode_string_def res_bind_eq_Inr Let_def)
  from x n have bs: "bs = le_bytes n x @ bs'" and ok: "take_bit (8 * n) x = x"
    by (auto simp: read_unsigned)
  have again: "DecodeInteger False n (le_bytes n x @ s) = Inr (x, s)" for s
    using n ok by (simp add: read_unsigned)
  show "length bs = length pre + length rest \<and> (\<forall>s. length s = length rest \<longrightarrow>
      decode_string n f shortage (pre @ s, l) = Inr (v, (s, l')))"
  proof (cases "unat x = 2 ^ (n * 8) - 1")
    case True
    have "word_of_nat (unat x) = (word_of_nat (2 ^ (n * 8) - 1) :: 64 word)" by (simp only: True)
    then have "x = 2 ^ (n * 8) - 1" by (simp add: of_nat_diff)
    moreover have "EncodeInteger False (2 ^ (n * 8) - 1 :: 64 word) n = Inr pre"
      using e null more True by auto
    ultimately have "pre = le_bytes n x" by (simp add: EncodeInteger_unsigned_iff)
    with True more bs again show ?thesis by (simp add: decode_string_def)
  next
    case False
    then have len: "unat x \<le> length bs'" and v: "v = f (take (unat x) bs')" and rest: "rest = drop (unat x) bs'" and l: "l' = l"
      using more by (auto split: if_splits)
    obtain hd where hd: "EncodeInteger False (word_of_nat (length (take (unat x) bs')) :: 64 word) n = Inr hd"
      and pre: "pre = hd @ take (unat x) bs'" using written [of "take (unat x) bs'" pre] e v f by auto
    have "hd = le_bytes n x" using hd len by (simp add: EncodeInteger_unsigned_iff)
    with pre v rest l len bs False again show ?thesis by (simp add: decode_string_def)
  qed
qed

lemma rereads_octstr:
  assumes "library_laws lib" "0 < n"
  shows "rereads (decode_string n (\<lambda>bs. JArray (map (\<lambda>b. JUnsigned (ucast b)) bs)) shortage) (encode_octstr lib n)"
proof (cases "n < 8")
  case True
  show ?thesis
  proof (rule rereads_string [OF assms(2) True])
    fix bs :: "byte list" and pre
    assume "encode_octstr lib n (JArray (map (\<lambda>b. JUnsigned (ucast b)) bs)) = Inr pre"
    then show "\<exists>hd. EncodeInteger False (word_of_nat (length bs) :: 64 word) n = Inr hd \<and> pre = hd @ bs"
      using encode_octets [OF assms(1), of bs]
      by (auto simp: encode_octstr_def res_append_def res_bind_eq_Inr encode_octet_def [abs_def])
  qed (simp_all add: encode_octstr_def)
next
  case False
  then show ?thesis
    by (intro rereads_never) (auto simp: encode_octstr_def res_append_def res_bind_eq_Inr EncodeInteger_wide)
qed

lemma rereads_text:
  assumes "library_laws lib" "0 < n"
  shows "rereads (decode_string n (\<lambda>bs. JString (map byte_char bs)) shortage) (encode_string lib n)"
proof (cases "n < 8")
  case True
  have "as_string lib (JString s) = Inr s" for s using assms(1) by (simp add: library_laws_def)
  then show ?thesis
    by (intro rereads_string [OF assms(2) True])
      (auto simp: encode_string_def res_append_def res_bind_eq_Inr comp_def)
next
  case False
  then show ?thesis
    by (intro rereads_never) (auto simp: encode_string_def res_append_def res_bind_eq_Inr EncodeInteger_wide)
qed

section \<open>Compound values\<close>

fun distinct_names :: "AnyType \<Rightarrow> bool" where
  "distinct_names (ArrayType n t) \<longleftrightarrow> distinct_names t"
| "distinct_names (ObjectType ps) \<longleftrightarrow> distinct (map fst ps) \<and> list_all (\<lambda>p. distinct_names (snd p)) ps"
| "distinct_names (ErrorOrType t) \<longleftrightarrow> distinct_names t"
| "distinct_names _ \<longleftrightarrow> True"

definition coherent :: "(AnyType \<Rightarrow> json decoding) \<Rightarrow> (AnyType \<Rightarrow> json \<Rightarrow> error + byte list) \<Rightarrow> bool" where
  "coherent D E \<longleftrightarrow> (\<forall>t. distinct_names t \<longrightarrow> rereads (D t) (E t))"

lemma coherentD: "coherent D E \<Longrightarrow> distinct_names t \<Longrightarrow> rereads (D t) (E t)"
  by (simp add: coherent_def)

lemma res_append_eq_Inr: "res_append a b = Inr xs \<longleftrightarrow> (\<exists>us vs. a = Inr us \<and> b = Inr vs \<and> xs = us @ vs)"
  by (auto simp: res_append_def res_bind_eq_Inr)

text \<open>A list behind its length.\<close>

lemma rereads_counted:
  assumes "0 < n" "rereads d e"
  shows "rereads (\<lambda>(bs, l). res_bind (DecodeInteger False n bs) (\<lambda>(x :: 64 word, bs). 
      res_bind (decode_times (unat x) d (bs, l)) (\<lambda>(xs, s). Inr (JArray xs, s))))
    (\<lambda>v. res_bind (get_array v) (\<lambda>xs. res_append (EncodeInteger False (word_of_nat (length xs) :: 64 word) n) (encode_items e xs)))"
proof (cases "n < 8")
  case True
  show ?thesis
  proof (rule rereads_then [where w = "le_bytes n" and ok = "\<lambda>x. take_bit (8 * n) x = x"
        and ek = "\<lambda>_ v. res_bind (get_array v) (encode_items e)"])
    show "DecodeInteger False n bs = Inr (x :: 64 word, rest) \<longleftrightarrow> bs = le_bytes n x @ rest \<and> take_bit (8 * n) x = x" for bs x rest
      using True by (intro read_unsigned) simp
    show "rereads (\<lambda>s. res_bind (decode_times (unat x) d s) (\<lambda>(xs, s). Inr (JArray xs, s)))
        (\<lambda>v. res_bind (get_array v) (encode_items e))" for x :: "64 word"
      by (rule rereads_wrap [OF rereads_times [OF assms(2)]]) simp
    fix x :: "64 word" and s s' :: decoder and v pre
    assume "res_bind (decode_times (unat x) d s) (\<lambda>(xs, s). Inr (JArray xs, s)) = Inr (v, s')"
    then obtain xs where "decode_times (unat x) d s = Inr (xs, s')" and v: "v = JArray xs" by (auto simp: res_bind_eq_Inr)
    then have "length xs = unat x" by (simp add: decode_times_length)
    moreover assume "res_bind (get_array v) (\<lambda>xs. res_append (EncodeInteger False (word_of_nat (length xs) :: 64 word) n) (encode_items e xs)) = Inr pre"
    ultimately show "\<exists>pre'. res_bind (get_array v) (encode_items e) = Inr pre' \<and> pre = le_bytes n x @ pre'"
      by (auto simp: v res_append_eq_Inr EncodeInteger_unsigned_iff)
  qed
next
  case False
  then show ?thesis by (intro rereads_never) (auto simp: res_append_eq_Inr res_bind_eq_Inr EncodeInteger_wide)
qed

text \<open>The same with \<open>0xFFFF\<close> for a list that is not there.\<close>

lemma rereads_optional:
  assumes "rereads d e" "\<And>xs pre. e' (f (JArray xs)) = Inr pre \<Longrightarrow>
      res_append (EncodeInteger False (word_of_nat (length xs) :: 64 word) 2) (encode_items e xs) = Inr pre"
    and "\<And>pre. e' (f JNull) = Inr pre \<Longrightarrow> EncodeInteger False (0xFFFF :: 64 word) 2 = Inr pre"
  shows "rereads (\<lambda>(bs, l). res_bind (DecodeInteger False 2 bs) (\<lambda>(x :: 64 word, bs).
      if x = 0xFFFF then Inr (f JNull, (bs, l))
      else res_bind (decode_times (unat x) d (bs, l)) (\<lambda>(xs, s). Inr (f (JArray xs), s)))) e'"
proof (rule rereadsI)
  fix bs l v rest l' pre
  let ?d = "\<lambda>(bs, l). res_bind (DecodeInteger False 2 bs) (\<lambda>(x :: 64 word, bs).
      if x = 0xFFFF then Inr (f JNull, (bs, l))
      else res_bind (decode_times (unat x) d (bs, l)) (\<lambda>(xs, s). Inr (f (JArray xs), s)))"
  assume h: "?d (bs, l) = Inr (v, (rest, l'))" and e: "e' v = Inr pre"
  then obtain x :: "64 word" and bs' where x: "DecodeInteger False 2 bs = Inr (x, bs')"
    and more: "(if x = 0xFFFF then Inr (f JNull, (bs', l))
      else res_bind (decode_times (unat x) d (bs', l)) (\<lambda>(xs, s). Inr (f (JArray xs), s))) = Inr (v, (rest, l'))"
    by (auto simp: res_bind_eq_Inr simp del: if_split_eq1 if_split_eq2)
  from x have bs: "bs = le_bytes 2 x @ bs'" and ok: "take_bit (8 * 2) x = x" by (simp_all add: read_unsigned)
  have again: "DecodeInteger False 2 (le_bytes 2 x @ s) = Inr (x, s)" for s using ok by (simp add: read_unsigned)
  show "length bs = length pre + length rest \<and> (\<forall>s. length s = length rest \<longrightarrow> ?d (pre @ s, l) = Inr (v, (s, l')))"
  proof (cases "x = 0xFFFF")
    case True
    with more e assms(3) have "EncodeInteger False (0xFFFF :: 64 word) 2 = Inr pre" by auto
    then have "pre = le_bytes 2 x" by (simp only: EncodeInteger_unsigned_iff True)
    moreover have "v = f JNull" "rest = bs'" "l' = l" using more True by auto
    ultimately show ?thesis using bs again True by (simp del: le_bytes.simps)
  next
    case False
    with more obtain xs where xs: "decode_times (unat x) d (bs', l) = Inr (xs, (rest, l'))" and v: "v = f (JArray xs)"
      by (auto simp: res_bind_eq_Inr)
    from assms(2) e v obtain hd ps where hd: "EncodeInteger False (word_of_nat (length xs) :: 64 word) 2 = Inr hd"
      and ps: "encode_items e xs = Inr ps" and pre: "pre = hd @ ps" by (fastforce simp: res_append_eq_Inr)
    have "hd = le_bytes 2 x"
      using hd decode_times_length [OF xs] unfolding EncodeInteger_unsigned_iff by (simp del: le_bytes.simps)
    with rereadsD [OF rereads_times [OF assms(1)] xs ps] pre v bs again False show ?thesis
      by (simp del: le_bytes.simps)
  qed
qed

lemma rereads_struct: "coherent D E \<Longrightarrow> rereads (decode_struct D) (encode_struct E)"
  unfolding decode_struct_def [abs_def]
  by (rule rereads_optional [where f = "\<lambda>v. v", OF coherentD]) (simp_all add: encode_struct_def)

lemma append_enum8: "append_enum (x :: 8 word) = Inr (le_bytes 1 x)"
  using uint8.encode_img [of x] by (simp add: append_enum_def enum_codec_eq)

lemma append_enum16: "append_enum (x :: 16 word) = Inr (le_bytes 2 x)"
  using uint16.encode_img [of x] by (simp add: append_enum_def enum_codec_eq)

lemma dec_enum8: "dec enum_codec bs = Inr (x :: 8 word, rest) \<longleftrightarrow> bs = le_bytes 1 x @ rest \<and> True"
  using uint8.canonical_law [of bs x rest] uint8.read_law [of x rest] by (auto simp: enum_codec_eq)

lemma dec_enum16: "dec enum_codec bs = Inr (x :: 16 word, rest) \<longleftrightarrow> bs = le_bytes 2 x @ rest \<and> True"
  using uint16.canonical_law [of bs x rest] uint16.read_law [of x rest] by (auto simp: enum_codec_eq)

lemma member_or_null_list [simp]:
  "member_or_null [] k = JNull"
  "member_or_null ((k', v) # ms) k = (if k = k' then v else member_or_null ms k)"
  by (simp_all add: member_or_null_def)

lemma object_members: "get_object (object ms) = Inr (foldl (\<lambda>acc (k, v). obj_set k v acc) [] ms)"
  by (simp add: object_def)

lemma rereads_collection:
  assumes "coherent D E"
  shows "rereads (decode_collection D) (encode_collection E)"
proof -
  let ?f = "\<lambda>element v. object [(''element_type'', JString (enum_to_string DataType_table element)), (''elements'', v)]"
  let ?k = "\<lambda>(element :: DataType) s. case s of (bs, att) \<Rightarrow> res_bind (DecodeInteger False 2 bs) (\<lambda>(size :: 64 word, bs).
       if size = 0xFFFF then Inr (?f element JNull, (bs, att))
       else res_bind (decode_times (unat size) (D (ZclType element)) (bs, att)) (\<lambda>(xs, s). Inr (?f element (JArray xs), s)))"
  let ?e = "\<lambda>element v. res_bind (get_object v) (\<lambda>ms. 
      let elements_value = member_or_null ms ''elements'' in
            if elements_value = JNull then EncodeInteger False (0xFFFF :: 64 word) 2
            else res_bind (get_array elements_value) (\<lambda>elements_arr.
              res_append (EncodeInteger False (word_of_nat (length elements_arr) :: 64 word) 2)
                (encode_items (E (ZclType element)) elements_arr)))"
  have eq: "decode_collection D = (\<lambda>(bs, l). res_bind (dec enum_codec bs) (\<lambda>(x, bs). ?k x (bs, l)))"
    by (intro ext) (simp add: decode_collection_def)
  show ?thesis
    unfolding eq
  proof (rule rereads_then [where k = ?k and ek = ?e, OF dec_enum8])
  show "rereads (?k x) (?e x)" for x
    by (rule rereads_optional [where f = "?f x", OF coherentD [OF assms]]) (simp_all add: object_members member_or_null_def Let_def)
  fix x :: DataType and s s' :: decoder and v pre
  assume "?k x s = Inr (v, s')"
  then obtain u where v: "v = ?f x u"
    by (auto simp: res_bind_eq_Inr split: prod.splits if_splits)
  assume "encode_collection E v = Inr pre"
  then show "\<exists>pre'. ?e x v = Inr pre' \<and> pre = le_bytes 1 x @ pre'"
    by (auto simp: v encode_collection_def object_members data_type.parse_printed append_enum8 res_append_eq_Inr)
  qed
qed

lemma rereads_attribute_id:
  assumes lib: "library_laws lib"
    and ctx: "\<And>c. context_cluster ctx = Some c \<Longrightarrow> list_ok attribute_id attribute_name (attributes c)"
  shows "rereads (decode_attribute_id ctx) (encode_attribute_id lib ctx)"
proof (rule rereadsI)
  fix bs l v rest l' pre
  let ?v = "\<lambda>i. case Option.bind (context_cluster ctx) (\<lambda>c. FindById i (attributes c)) of
      Some info \<Rightarrow> JString (attribute_name info) | None \<Rightarrow> JUnsigned (ucast i)"
  assume h: "decode_attribute_id ctx (bs, l) = Inr (v, (rest, l'))" and e: "encode_attribute_id lib ctx v = Inr pre"
  then obtain i :: ZclAttributeId where "dec enum_codec bs = Inr (i, rest)" and v: "v = ?v i" and l': "l' = Some i"
    by (auto simp: decode_attribute_id_def res_bind_eq_Inr)
  then have bs: "bs = le_bytes 2 i @ rest" by (simp only: dec_enum16)
  have "pre = le_bytes 2 i"
  proof (cases "Option.bind (context_cluster ctx) (\<lambda>c. FindById i (attributes c))")
    case None
    have "(ucast i :: 64 word) = ucast (ucast i :: 32 word)"
      by (rule bit_word_eqI) (auto simp: bit_simps dest: bit_imp_le_length)
    then have "as_unsigned_int lib (JUnsigned (ucast i)) = Inr (ucast i)" using lib by (simp add: library_laws_def)
    with e None v have "pre = le_bytes 2 (ucast i :: 32 word)"
      by (simp add: encode_attribute_id_def is_integer_def EncodeInteger_unsigned_iff)
    then show ?thesis by (simp only:) (rule le_bytes_cong, auto simp: bit_simps)
  next
    case (Some info)
    then obtain c where c: "context_cluster ctx = Some c" and found: "FindById i (attributes c) = Some info"
      by (auto simp: Option.bind_eq_Some_conv)
    with ctx [OF c] have "FindByName (attribute_name info) (attributes c) = Some info" "attribute_id info = i"
      by (simp_all add: attribute_list.find_id_law attribute_list.find_name_law)
    with e v Some c show ?thesis by (simp add: encode_attribute_id_def append_enum16)
  qed
  moreover have "dec enum_codec (le_bytes 2 i @ s) = Inr (i, s)" for s by (simp only: dec_enum16 simp_thms)
  ultimately show "length bs = length pre + length rest \<and> (\<forall>s. length s = length rest \<longrightarrow>
      decode_attribute_id ctx (pre @ s, l) = Inr (v, (s, l')))"
    using bs v l' by (simp add: decode_attribute_id_def del: le_bytes.simps)
qed

lemma xiaomi_has_no_type: "string_to_enum DataType_table ''xiaomi_ff01'' = None"
proof -
  have "''xiaomi_ff01'' \<notin> snd ` set DataType_table" by (simp add: DataType_table_def)
  then have "map_of (names_table DataType_table) ''xiaomi_ff01'' = None" by (simp add: names_table_None)
  moreover have "stoul ''xiaomi_ff01'' 16 = Inl Invalid_argument"
    by (simp add: stoul_def Let_def is_space_def is_digit_in_def digit_value_def strtoul_base_def)
  ultimately show ?thesis by (simp add: string_to_enum_def)
qed

lemma rereads_variant:
  assumes lib: "library_laws lib" and co: "coherent D E"
    and xiaomi: "\<And>s v s'. D XiaomiFF01Type s = Inr (v, s') \<Longrightarrow> \<exists>u. v = object [(''type'', JString ''xiaomi_ff01''), (''value'', u)]"
  shows "rereads (decode_variant D) (encode_variant lib E)"
proof (rule rereadsI)
  fix bs l v rest l' pre
  have as_string: "as_string lib (JString s) = Inr s" for s using lib by (simp add: library_laws_def)
  assume h: "decode_variant D (bs, l) = Inr (v, (rest, l'))" and e: "encode_variant lib E v = Inr pre"
  then obtain type bs' where type: "dec enum_codec bs = Inr (type :: DataType, bs')"
    and more: "(if type = DataType_string \<and> l = Some 0xFF01 then D XiaomiFF01Type (bs', l)
      else res_bind (D (ZclType type) (bs', l)) (\<lambda>(v, s).
        Inr (object [(''type'', JString (enum_to_string DataType_table type)), (''value'', v)], s))) = Inr (v, (rest, l'))"
    by (auto simp: decode_variant_def res_bind_eq_Inr simp del: if_split_eq1 if_split_eq2)
  from type have bs: "bs = le_bytes 1 type @ bs'" by (simp only: dec_enum8)
  have plain: "\<not> (type = DataType_string \<and> l = Some 0xFF01)"
  proof
    assume "type = DataType_string \<and> l = Some 0xFF01"
    with more have "D XiaomiFF01Type (bs', l) = Inr (v, (rest, l'))" by (simp only: if_True simp_thms)
    then obtain u where "v = object [(''type'', JString ''xiaomi_ff01''), (''value'', u)]" using xiaomi by blast
    with e show False
      by (simp add: encode_variant_def object_def map_of_obj_set as_string xiaomi_has_no_type)
  qed
  with more obtain u where u: "D (ZclType type) (bs', l) = Inr (u, (rest, l'))"
    and v: "v = object [(''type'', JString (enum_to_string DataType_table type)), (''value'', u)]"
    by (auto simp: res_bind_eq_Inr)
  from e obtain pre' where pre': "E (ZclType type) u = Inr pre'" and pre: "pre = le_bytes 1 type @ pre'"
    by (auto simp: v encode_variant_def object_def map_of_obj_set as_string data_type.parse_printed append_enum8 res_append_eq_Inr)
  have again: "dec enum_codec (le_bytes 1 type @ s) = Inr (type, s)" for s by (simp only: dec_enum8 simp_thms)
  have "decode_variant D (pre @ s, l) = Inr (v, (s, l'))" if "length s = length rest" for s
    unfolding decode_variant_def prod.case pre append_assoc again res_bind_Inr if_not_P [OF plain]
    using rereadsD(2) [OF coherentD [OF co] u pre' that] v by simp
  with rereadsD(1) [OF coherentD [OF co] u pre'] bs pre
  show "length bs = length pre + length rest \<and> (\<forall>s. length s = length rest \<longrightarrow> decode_variant D (pre @ s, l) = Inr (v, (s, l')))"
    by simp
qed

lemma decode_properties_member:
  "decode_properties D ps ret s = Inr (ret', s') \<Longrightarrow> name \<notin> fst ` set ps \<Longrightarrow> member_or_null ret' name = member_or_null ret name"
  by (induction D ps ret s rule: decode_properties.induct) (fastforce simp: res_bind_eq_Inr)+

lemma rereads_properties:
  assumes co: "coherent D E"
  shows "decode_properties D ps ret (bs, l) = Inr (ret', (rest, l')) \<Longrightarrow>
    encode_items (\<lambda>(name, type). E type (member_or_null ret' name)) ps = Inr pre \<Longrightarrow>
    distinct (map fst ps) \<Longrightarrow> list_all (\<lambda>p. distinct_names (snd p)) ps \<Longrightarrow>
    length bs = length pre + length rest \<and>
    (\<forall>s. length s = length rest \<longrightarrow> decode_properties D ps ret (pre @ s, l) = Inr (ret', (s, l')))"
proof (induction ps arbitrary: ret bs l pre)
  case (Cons p ps)
  obtain name type where p: "p = (name, type)" by force
  from Cons.prems(1) obtain v bs1 l1 where v: "D type (bs, l) = Inr (v, (bs1, l1))"
    and more: "decode_properties D ps (obj_set name v ret) (bs1, l1) = Inr (ret', (rest, l'))"
    by (auto simp: p res_bind_eq_Inr)
  have "name \<notin> fst ` set ps" using Cons.prems(3) p by simp
  from decode_properties_member [OF more this] have "member_or_null ret' name = v" by simp
  with Cons.prems(2) obtain p1 p2 where p1: "E type v = Inr p1"
    and p2: "encode_items (\<lambda>(name, type). E type (member_or_null ret' name)) ps = Inr p2" and pre: "pre = p1 @ p2"
    by (auto simp: p res_append_eq_Inr)
  have "distinct_names type" using Cons.prems(4) p by simp
  from rereadsD [OF coherentD [OF co this] v p1] Cons.IH [OF more p2] Cons.prems(3,4) pre p show ?case by simp
qed auto

lemma rereads_object:
  assumes "coherent D E" "distinct_names (ObjectType ps)"
  shows "rereads (decode_object D ps) (encode_object E ps)"
proof (rule rereadsI)
  fix bs l v rest l' pre
  assume h: "decode_object D ps (bs, l) = Inr (v, (rest, l'))" and e: "encode_object E ps v = Inr pre"
  then obtain ret where ret: "decode_properties D ps [] (bs, l) = Inr (ret, (rest, l'))" and v: "v = JObject ret"
    by (auto simp: decode_object_def res_bind_eq_Inr)
  from e v have "encode_items (\<lambda>(name, type). E type (member_or_null ret name)) ps = Inr pre"
    by (simp add: encode_object_def)
  from rereads_properties [OF assms(1) ret this] assms(2) v
  show "length bs = length pre + length rest \<and> (\<forall>s. length s = length rest \<longrightarrow> decode_object D ps (pre @ s, l) = Inr (v, (s, l')))"
    by (simp add: decode_object_def)
qed

lemma rereads_array:
  assumes "coherent D E" "distinct_names t"
  shows "rereads (decode_array fuel D n t) (encode_array E n t)"
proof (cases "n = 0")
  case True
  then have "decode_array fuel D n t = (\<lambda>s. res_bind (decode_until_end fuel (D t) s) (\<lambda>(xs, s). Inr (JArray xs, s)))"
    by (intro ext) (simp add: decode_array_def)
  then show ?thesis
    by (simp only:) (rule rereads_wrap [OF rereads_until_end [OF coherentD [OF assms]]], simp add: encode_array_def True res_append_eq_Inr)
next
  case False
  then have "decode_array fuel D n t = (\<lambda>(bs, l). res_bind (DecodeInteger False n bs) (\<lambda>(x :: 64 word, bs).
      res_bind (decode_times (unat x) (D t) (bs, l)) (\<lambda>(xs, s). Inr (JArray xs, s))))"
    by (intro ext) (simp add: decode_array_def)
  moreover have "encode_array E n t = (\<lambda>v. res_bind (get_array v)
      (\<lambda>xs. res_append (EncodeInteger False (word_of_nat (length xs) :: 64 word) n) (encode_items (E t) xs)))"
    using False by (intro ext) (simp add: encode_array_def)
  ultimately show ?thesis using rereads_counted [OF _ coherentD [OF assms], of n] False by simp
qed

lemma rereads_error_or:
  assumes "coherent D E" "distinct_names t"
  shows "rereads (decode_error_or D t) (encode_error_or E t)"
proof (rule rereadsI)
  fix bs l v rest l' pre
  assume h: "decode_error_or D t (bs, l) = Inr (v, (rest, l'))" and e: "encode_error_or E t v = Inr pre"
  then obtain status :: "32 word" and bs' where status: "DecodeInteger False 1 bs = Inr (status, bs')"
    and more: "(if status \<noteq> 0 then Inr (object [(''error'', JUnsigned (ucast status))], (bs', l))
       else res_bind (D t (bs', l)) (\<lambda>(v, s). Inr (object [(''success'', v)], s))) = Inr (v, (rest, l'))"
    by (auto simp: decode_error_or_def res_bind_eq_Inr simp del: if_split_eq1 if_split_eq2)
  have canon: "DecodeInteger False 1 bs = Inr (status, r) \<longleftrightarrow> bs = le_bytes 1 status @ r \<and> take_bit (8 * 1) status = status" for bs r
    by (rule DecodeInteger_unsigned_iff) simp
  have small: "take_bit (8 * 1) status = status" and bs: "bs = le_bytes 1 status @ bs'" using status by (simp_all only: canon)
  have again: "DecodeInteger False 1 (le_bytes 1 status @ s) = Inr (status, s)" for s by (simp only: canon small simp_thms)
  have head: "EncodeInteger False status 1 = Inr hd \<longleftrightarrow> hd = le_bytes 1 status" for hd
    using small by (simp add: EncodeInteger_unsigned_iff)
  show "length bs = length pre + length rest \<and> (\<forall>s. length s = length rest \<longrightarrow> decode_error_or D t (pre @ s, l) = Inr (v, (s, l')))"
  proof (cases "status = 0")
    case False
    then have v: "v = object [(''error'', JUnsigned (ucast status))]" "rest = bs'" "l' = l" using more by auto
    have "ucast (ucast status :: 64 word) = status" by (rule bit_word_eqI) (auto simp: bit_simps)
    with e v False have "EncodeInteger False status 1 = Inr pre"
      by (auto simp: encode_error_or_def object_members res_append_eq_Inr Let_def)
    then have "pre = le_bytes 1 status" by (simp only: head)
    with bs v False again show ?thesis by (simp add: decode_error_or_def del: le_bytes.simps)
  next
    case True
    with more obtain u where u: "D t (bs', l) = Inr (u, (rest, l'))" and v: "v = object [(''success'', u)]"
      by (auto simp: res_bind_eq_Inr)
    from e True v head obtain pre' where pre': "E t u = Inr pre'" "pre = le_bytes 1 status @ pre'"
      by (auto simp: encode_error_or_def object_members res_append_eq_Inr Let_def member_or_null_def)
    from rereadsD [OF coherentD [OF assms] u pre'(1)] bs pre'(2) again True v show ?thesis
      by (simp add: decode_error_or_def del: le_bytes.simps)
  qed
qed

section \<open>The whole codec\<close>

lemma rereads_zcl:
  assumes lib: "library_laws lib" and co: "coherent D E" and near: "\<And>x. 0 < x \<Longrightarrow> near_at fl x"
    and ctx: "\<And>c. context_cluster ctx = Some c \<Longrightarrow> list_ok attribute_id attribute_name (attributes c)"
  shows "rereads (decode_zcl D ctx d) (encode_zcl fl lib ctx E d)"
proof -
  note nonzero = type_case_lengths
  have fp: "as_float lib (JDouble (Float_value 10 5 (w :: 16 word))) = Inr (Float_value 10 5 w)"
      "as_float lib (JDouble (Float_value 23 8 (w' :: 32 word))) = Inr (Float_value 23 8 w')"
      "as_double lib (JDouble x) = Inr x" for w w' x
    using lib by (simp_all add: library_laws_def)
  show ?thesis
  proof (cases "type_case d")
    case Semi_case
    show ?thesis
      unfolding decode_zcl_def encode_zcl_def [abs_def] Semi_case type_case.case by (intro rereads_float near fp) simp_all
  next
    case Single_case
    show ?thesis
      unfolding decode_zcl_def encode_zcl_def [abs_def] Single_case type_case.case by (intro rereads_float near fp) simp_all
  next
    case Double_case
    show ?thesis
      unfolding decode_zcl_def encode_zcl_def [abs_def] Double_case type_case.case by (intro rereads_float near fp) simp_all
  next
    case Default_case
    then show ?thesis by (simp add: decode_zcl_def rereads_def)
  next
    case Nodata_case
    then show ?thesis by (simp add: decode_zcl_def encode_zcl_def rereads_def)
  next
    case Unk_case
    then show ?thesis by (simp add: decode_zcl_def encode_zcl_def rereads_def)
  next
    case Bool_case
    then show ?thesis using rereads_bool [OF lib] by (simp add: decode_zcl_def encode_zcl_def [abs_def])
  qed (auto simp: decode_zcl_def encode_zcl_def [abs_def] intro: rereads_data [simplified] rereads_map rereads_uint rereads_int rereads_enum
      rereads_octstr rereads_text rereads_struct rereads_collection rereads_attribute_id lib co ctx nonzero)
qed

lemma decode_xiaomi_value: "decode_xiaomi fuel f D s = Inr (v, s') \<Longrightarrow> \<exists>u. v = object [(''type'', JString ''xiaomi_ff01''), (''value'', u)]"
  by (auto simp: decode_xiaomi_def res_bind_eq_Inr Let_def split: prod.splits)

lemma coherent_codec:
  assumes lib: "library_laws lib" and near: "\<And>x. 0 < x \<Longrightarrow> near_at fl x"
    and ctx: "\<And>c. context_cluster ctx = Some c \<Longrightarrow> list_ok attribute_id attribute_name (attributes c)"
  shows "coherent (decode f lib ctx) (encode g fl lib ctx)"
proof (induction f arbitrary: g)
  case 0
  show ?case by (simp add: coherent_def rereads_def)
next
  case (Suc f)
  show ?case
  proof (cases g)
    case 0
    then show ?thesis by (simp add: coherent_def rereads_def)
  next
    case (Suc g')
    note co = Suc.IH [of g']
    show ?thesis
      unfolding coherent_def
    proof (intro allI impI)
      fix t assume t: "distinct_names t"
      have xiaomi: "decode f lib ctx XiaomiFF01Type s = Inr (v, s') \<Longrightarrow>
          \<exists>u. v = object [(''type'', JString ''xiaomi_ff01''), (''value'', u)]" for s v s'
        by (cases f) (auto dest: decode_xiaomi_value)
      show "rereads (decode (Suc f) lib ctx t) (encode g fl lib ctx t)"
      proof (cases t)
        case VariantType
        with rereads_variant [OF lib co xiaomi] Suc show ?thesis by (simp add: rereads_def)
      next
        case XiaomiFF01Type
        with Suc show ?thesis by (simp add: rereads_def)
      next
        case (ZclType d)
        with rereads_zcl [OF lib co near ctx] Suc show ?thesis by (simp add: rereads_def)
      next
        case (ObjectType ps)
        with rereads_object [OF co] t Suc show ?thesis by (simp add: rereads_def)
      next
        case (ArrayType n u)
        with rereads_array [OF co, of u f n] t Suc show ?thesis by (simp add: rereads_def)
      next
        case (ErrorOrType u)
        with rereads_error_or [OF co, of u] t Suc show ?thesis by (simp add: rereads_def)
      qed
    qed
  qed
qed

section \<open>Properties\<close>

text \<open>
  C5: a value that was decoded and is encoded again yields as many bytes as were read, and decoding
  those bytes gives the same value, for every type in which no object has two properties of one
  name. The lookup tables of the cluster have to be consistent, and the logarithm used for
  floating-point numbers may be rounded up to the next integer but not further.
\<close>

theorem decoded_value_re_encoded:
  assumes "library_laws lib" "distinct_names t" "\<And>x. 0 < x \<Longrightarrow> near_at floor_log2 x"
    and "\<And>c. context_cluster ctx = Some c \<Longrightarrow> list_ok attribute_id attribute_name (attributes c)"
    and "Decode_any f lib ctx t bs = Inr (v, rest)" "encode g floor_log2 lib ctx t v = Inr pre"
  shows "length bs = length pre + length rest \<and> Decode_any f lib ctx t (pre @ rest) = Inr (v, rest)"
proof -
  obtain l where "decode f lib ctx t (bs, None) = Inr (v, (rest, l))"
    using assms(5) by (auto simp: Decode_any_def res_bind_eq_Inr)
  note rereadsD [OF coherentD [OF coherent_codec [OF assms(1,3,4)] assms(2)] this assms(6)]
  then show ?thesis by (simp add: Decode_any_def)
qed

section \<open>Example\<close>

lemma floor_log2_near:
  assumes "0 < x"
  shows "near_at (\<lambda>x. \<lfloor>log 2 (real_of_rat x)\<rfloor>) x"
proof -
  let ?k = "\<lfloor>log 2 (real_of_rat x)\<rfloor>"
  have "2 powi ?k \<le> real_of_rat x" "real_of_rat x < 2 powi (?k + 1)"
    using assms floor_log_eq_powr_iff [of "real_of_rat x" 2 ?k] by (simp_all add: powr_real_of_int' add_ac flip: of_int_add)
  moreover have "real_of_rat (2 powi j) = 2 powi j" for j by (simp add: power_int_def of_rat_power of_rat_inverse of_rat_divide)
  ultimately have "2 powi ?k \<le> x" "x < 2 powi (?k + 1)"
    by (metis of_rat_less_eq, metis of_rat_less)
  moreover have "2 powi (?k - 1) \<le> (2 powi ?k :: rat)" by (rule power_int_increasing) simp_all
  ultimately show ?thesis by (simp add: near_at_def)
qed

text \<open>The byte 2 is a true \<open>bool\<close> and comes back as the byte 1.\<close>

theorem decoded_value_re_encoded_witness:
  "Decode_any 1 (strict_library (\<lambda>_. [])) \<lparr> context_cluster = None \<rparr> (ZclType DataType_bool) ([1] @ [9]) = Inr (JBool True, [9])"
proof -
  have read: "Decode_any 1 (strict_library (\<lambda>_. [])) \<lparr> context_cluster = None \<rparr> (ZclType DataType_bool) [2, 9] = Inr (JBool True, [9])"
    by (simp add: Decode_any_def decode_zcl_def type_case_def reading_def DecodeInteger_unsigned)
  have written: "encode 1 (\<lambda>x. \<lfloor>log 2 (real_of_rat x)\<rfloor>) (strict_library (\<lambda>_. [])) \<lparr> context_cluster = None \<rparr>
      (ZclType DataType_bool) (JBool True) = Inr [1]"
    by (simp add: encode_zcl_def type_case_def strict_library_def EncodeInteger_unsigned)
  show ?thesis
    using decoded_value_re_encoded [OF strict_library_laws _ floor_log2_near _ read written] by simp
qed

end
