(* ===== verification/DynamicTyping.thy ===== *)
theory DynamicTyping
  imports DynamicRoundTrip
begin

text \<open>
  The JSON values of a type. \<open>typed ctx t v\<close> says which values the decoder may return for the type
  \<open>t\<close>, and the decoder returns no other: what the hub publishes for a command has exactly the
  members the cluster file names, each a value of its type, with every integer in its range.
\<close>

section \<open>The values of a type\<close>

definition byte_value :: "json \<Rightarrow> bool" where
  "byte_value v = (case v of JUnsigned w \<Rightarrow> unat w < 256 | _ \<Rightarrow> False)"

definition is_bool :: "json \<Rightarrow> bool" where
  "is_bool v = (case v of JBool b \<Rightarrow> True | _ \<Rightarrow> False)"

definition unsigned_value :: "nat \<Rightarrow> json \<Rightarrow> bool" where
  "unsigned_value n v = (case v of JUnsigned w \<Rightarrow> unat w < 2 ^ (8 * n) | _ \<Rightarrow> False)"

definition signed_value :: "nat \<Rightarrow> json \<Rightarrow> bool" where
  "signed_value n v = (case v of JSigned w \<Rightarrow> - (2 ^ (8 * n - 1)) \<le> sint w \<and> sint w < 2 ^ (8 * n - 1) | _ \<Rightarrow> False)"

definition attribute_value :: "Context \<Rightarrow> json \<Rightarrow> bool" where
  "attribute_value ctx v = (case v of
       JString name \<Rightarrow> \<exists>c i info. context_cluster ctx = Some c \<and> FindById i (attributes c) = Some info \<and> name = attribute_name info
     | JUnsigned w \<Rightarrow> unat w < 65536
     | _ \<Rightarrow> False)"

definition scalar :: "Context \<Rightarrow> type_case \<Rightarrow> json \<Rightarrow> bool" where
  "scalar ctx c v = (case c of
       Nodata_case \<Rightarrow> v = JNull
     | Unk_case \<Rightarrow> v = JNull
     | Data_case n \<Rightarrow> (case v of JArray xs \<Rightarrow> length xs = n \<and> list_all byte_value xs | _ \<Rightarrow> False)
     | Bool_case \<Rightarrow> v = JNull \<or> is_bool v
     | Map_case n \<Rightarrow> (case v of JArray xs \<Rightarrow> length xs = 8 * n \<and> list_all is_bool xs | _ \<Rightarrow> False)
     | Uint_case n \<Rightarrow> unsigned_value n v
     | Enum_case n \<Rightarrow> unsigned_value n v
     | Int_case n \<Rightarrow> signed_value n v
     | Octstr_case n \<Rightarrow> v = JNull \<or> (case v of JArray xs \<Rightarrow> length xs < 2 ^ (8 * n) - 1 \<and> list_all byte_value xs | _ \<Rightarrow> False)
     | String_case n \<Rightarrow> v = JNull \<or> (case v of JString s \<Rightarrow> length s < 2 ^ (8 * n) - 1 | _ \<Rightarrow> False)
     | AttribId_case \<Rightarrow> attribute_value ctx v
     | Struct_case \<Rightarrow> False
     | Array_case \<Rightarrow> False
     | Default_case \<Rightarrow> False
     | _ \<Rightarrow> (case v of JDouble x \<Rightarrow> True | _ \<Rightarrow> False))"

definition tagged :: "string \<Rightarrow> json \<Rightarrow> string \<Rightarrow> json \<Rightarrow> json" where
  "tagged k v k' v' = object [(k, v), (k', v')]"

definition type_text :: "DataType \<Rightarrow> json" where
  "type_text d = JString (enum_to_string DataType_table d)"

text \<open>Of entries with the same name the last one counts.\<close>

inductive typed :: "Context \<Rightarrow> AnyType \<Rightarrow> json \<Rightarrow> bool" for ctx :: Context where
  typed_scalar: "scalar ctx (type_case d) v \<Longrightarrow> typed ctx (ZclType d) v"
| typed_no_struct: "type_case d = Struct_case \<Longrightarrow> typed ctx (ZclType d) JNull"
| typed_struct: "type_case d = Struct_case \<Longrightarrow> length xs < 0xFFFF \<Longrightarrow> (\<And>x. x \<in> set xs \<Longrightarrow> typed ctx VariantType x) \<Longrightarrow>
    typed ctx (ZclType d) (JArray xs)"
| typed_no_collection: "type_case d = Array_case \<Longrightarrow>
    typed ctx (ZclType d) (tagged ''element_type'' (type_text element) ''elements'' JNull)"
| typed_collection: "type_case d = Array_case \<Longrightarrow> length xs < 0xFFFF \<Longrightarrow>
    (\<And>x. x \<in> set xs \<Longrightarrow> typed ctx (ZclType element) x) \<Longrightarrow>
    typed ctx (ZclType d) (tagged ''element_type'' (type_text element) ''elements'' (JArray xs))"
| typed_variant: "typed ctx (ZclType d) v \<Longrightarrow> typed ctx VariantType (tagged ''type'' (type_text d) ''value'' v)"
| typed_variant_xiaomi: "typed ctx XiaomiFF01Type v \<Longrightarrow> typed ctx VariantType v"
| typed_xiaomi: "(\<And>k x. (k, x) \<in> set ms \<Longrightarrow> typed ctx VariantType x) \<Longrightarrow>
    typed ctx XiaomiFF01Type (tagged ''type'' (JString ''xiaomi_ff01'') ''value'' (object ms))"
| typed_object: "(\<And>k. map_of ms k = None \<longleftrightarrow> map_of (rev properties) k = None) \<Longrightarrow>
    (\<And>k t x. map_of (rev properties) k = Some t \<Longrightarrow> map_of ms k = Some x \<Longrightarrow> typed ctx t x) \<Longrightarrow>
    typed ctx (ObjectType properties) (JObject ms)"
| typed_array: "length_size = 0 \<or> length xs < 2 ^ (8 * length_size) \<Longrightarrow> (\<And>x. x \<in> set xs \<Longrightarrow> typed ctx element x) \<Longrightarrow>
    typed ctx (ArrayType length_size element) (JArray xs)"
| typed_error: "unat status \<in> {1..255} \<Longrightarrow> typed ctx (ErrorOrType t) (object [(''error'', JUnsigned status)])"
| typed_success: "typed ctx t v \<Longrightarrow> typed ctx (ErrorOrType t) (object [(''success'', v)])"

section \<open>Integers in their range\<close>

lemma unat_take_bit: "take_bit k w = w \<Longrightarrow> unat (w :: 'a::len word) < 2 ^ k"
  by (metis take_bit_nat_less_exp unsigned_take_bit_eq)

lemma DecodeInteger_unsigned_range:
  assumes "DecodeInteger False n bs = Inr (x :: 'a::len word, rest)"
  shows "unat x < 2 ^ (8 * n)"
proof (cases "8 * n \<le> LENGTH('a)")
  case True
  then show ?thesis using assms DecodeInteger_unsigned_iff unat_take_bit by blast
next
  case False
  have "unat x < 2 ^ LENGTH('a)" by (rule unsigned_less)
  also have "(2 :: nat) ^ LENGTH('a) \<le> 2 ^ (8 * n)" using False by (intro power_increasing) simp_all
  finally show ?thesis .
qed

lemma DecodeInteger_signed_range:
  assumes "0 < n" "DecodeInteger True n bs = Inr (x :: 64 word, rest)"
  shows "- (2 ^ (8 * n - 1)) \<le> sint x \<and> sint x < 2 ^ (8 * n - 1)"
proof (cases "8 * n < 64")
  case True
  then obtain w where "x = signed_take_bit (8 * n - 1) w"
    using DecodeInteger_signed_from [OF assms(1) _ assms(2)] by auto
  then have "signed_take_bit (8 * n - 1) x = x" by simp
  then show ?thesis using signed_take_bit_eq_self [of "8 * n - 1" x] True by simp
next
  case False
  have "- (2 ^ 63) \<le> sint x" "sint x < 2 ^ 63" using sint_ge [of x] sint_lt [of x] by simp_all
  moreover have "(2 :: int) ^ 63 \<le> 2 ^ (8 * n - 1)" using False by (intro power_increasing) simp_all
  ultimately show ?thesis by linarith
qed

section \<open>The decoder returns values of the type\<close>

definition sound :: "Context \<Rightarrow> (AnyType \<Rightarrow> json decoding) \<Rightarrow> bool" where
  "sound ctx D \<longleftrightarrow> (\<forall>t s v s'. D t s = Inr (v, s') \<longrightarrow> typed ctx t v)"

lemma soundD: "sound ctx D \<Longrightarrow> D t s = Inr (v, s') \<Longrightarrow> typed ctx t v"
  unfolding sound_def by blast

lemma decode_times_all:
  "decode_times n d s = Inr (xs, s') \<Longrightarrow> x \<in> set xs \<Longrightarrow> \<exists>s s'. d s = Inr (x, s')"
proof (induction n arbitrary: s xs)
  case (Suc n)
  then obtain y s1 ys where "d s = Inr (y, s1)" "decode_times n d s1 = Inr (ys, s')" "xs = y # ys"
    by (auto simp: res_bind_eq_Inr)
  with Suc.IH [of s1 ys] Suc.prems(2) show ?case by (cases "x = y") (blast, simp)
qed simp

lemma decode_until_end_all:
  "decode_until_end n d s = Inr (xs, s') \<Longrightarrow> x \<in> set xs \<Longrightarrow> \<exists>s s'. d s = Inr (x, s')"
proof (induction n arbitrary: s xs)
  case (Suc n)
  then obtain y s1 ys where "d s = Inr (y, s1)" "decode_until_end n d s1 = Inr (ys, s')" "xs = y # ys"
    by (auto simp: res_bind_eq_Inr split: if_splits)
  with Suc.IH [of s1 ys] Suc.prems(2) show ?case by (cases "x = y") (blast, simp)
qed (simp split: if_splits)

lemma times_sound:
  assumes "sound ctx D" "decode_times n (D t) s = Inr (xs, s')" "x \<in> set xs"
  shows "typed ctx t x"
  using decode_times_all [OF assms(2,3)] soundD [OF assms(1)] by blast

text \<open>Scalars.\<close>

lemma unat_ucast_up:
  assumes "LENGTH('a) \<le> LENGTH('b)"
  shows "unat (ucast (w :: 'a::len word) :: 'b::len word) = unat w"
proof -
  have "unat w < 2 ^ LENGTH('a)" by (rule unsigned_less)
  also have "(2 :: nat) ^ LENGTH('a) \<le> 2 ^ LENGTH('b)" using assms by (intro power_increasing) simp_all
  finally show ?thesis by (simp add: unsigned_ucast_eq take_bit_nat_eq_self_iff)
qed

lemma byte_value_ucast: "byte_value (JUnsigned (ucast (b :: byte)))"
  using unat_byte_less [of b] by (simp add: byte_value_def unat_ucast_up)

lemma octets_read:
  assumes "decode_times n (reading (DecodeInteger False 1) (\<lambda>x :: 32 word. JUnsigned (ucast x))) s = Inr (xs, s')"
  shows "length xs = n \<and> list_all byte_value xs"
proof -
  have "byte_value x" if x: "x \<in> set xs" for x
  proof -
    obtain bs :: "byte list" and rest w where "DecodeInteger False 1 bs = Inr (w :: 32 word, rest)" "x = JUnsigned (ucast w)"
      using decode_times_all [OF assms x] by (auto simp: reading_def res_bind_eq_Inr)
    with DecodeInteger_unsigned_range [of 1 bs w rest] show ?thesis by (simp add: byte_value_def unat_ucast_up)
  qed
  then show ?thesis using decode_times_length [OF assms] by (simp add: list_all_iff)
qed

lemma decode_string_read:
  assumes "decode_string n f e s = Inr (v, s')"
  shows "v = JNull \<or> (\<exists>bs. v = f bs \<and> length bs < 2 ^ (8 * n) - 1)"
proof -
  obtain bs att where s: "s = (bs, att)" by (cases s)
  obtain w :: "64 word" and rest where w: "DecodeInteger False n bs = Inr (w, rest)"
    using assms by (auto simp: decode_string_def s res_bind_eq_Inr)
  have "unat w < 2 ^ (8 * n)" by (rule DecodeInteger_unsigned_range [OF w])
  then show ?thesis
    using assms by (auto simp: decode_string_def s w Let_def mult.commute split: if_splits)
qed

lemma attribute_read:
  assumes "decode_attribute_id ctx s = Inr (v, s')"
  shows "attribute_value ctx v"
proof -
  obtain i :: "16 word" where "v = (case Option.bind (context_cluster ctx) (\<lambda>c. FindById i (attributes c)) of
      Some info \<Rightarrow> JString (attribute_name info) | None \<Rightarrow> JUnsigned (ucast i))"
    using assms by (auto simp: decode_attribute_id_def res_bind_eq_Inr split: prod.splits)
  moreover have "unat i < 65536" using unsigned_less [of i, where 'a = nat] by simp
  ultimately show ?thesis
    by (auto simp: attribute_value_def unat_ucast_up split: option.splits Option.bind_splits)
qed

lemma scalar_sound:
  assumes "decode_zcl D ctx d s = Inr (v, s')" "type_case d \<notin> {Struct_case, Array_case}"
  shows "scalar ctx (type_case d) v"
proof (cases "type_case d")
  case (Data_case n)
  with assms(1) show ?thesis by (auto simp: decode_zcl_def scalar_def res_bind_eq_Inr dest!: octets_read [simplified])
next
  case (Map_case n)
  with assms(1) show ?thesis
    by (auto simp: decode_zcl_def scalar_def reading_def res_bind_eq_Inr map_bits_def is_bool_def list_all_iff split: prod.splits)
next
  case (Uint_case n)
  with assms(1) DecodeInteger_unsigned_range show ?thesis
    by (fastforce simp: decode_zcl_def scalar_def reading_def res_bind_eq_Inr unsigned_value_def split: prod.splits)
next
  case (Enum_case n)
  with assms(1) DecodeInteger_unsigned_range show ?thesis
    by (fastforce simp: decode_zcl_def scalar_def reading_def res_bind_eq_Inr unsigned_value_def split: prod.splits)
next
  case (Int_case n)
  with assms(1) DecodeInteger_signed_range [OF type_case_lengths(4) [OF Int_case]] show ?thesis
    by (fastforce simp: decode_zcl_def scalar_def reading_def res_bind_eq_Inr signed_value_def split: prod.splits)
next
  case (Octstr_case n)
  with assms(1) show ?thesis
    by (auto simp: decode_zcl_def scalar_def list_all_iff byte_value_ucast dest!: decode_string_read)
next
  case (String_case n)
  with assms(1) show ?thesis by (auto simp: decode_zcl_def scalar_def dest!: decode_string_read)
next
  case AttribId_case
  with assms(1) attribute_read show ?thesis by (simp add: decode_zcl_def scalar_def)
qed (use assms in \<open>auto simp: decode_zcl_def scalar_def reading_def res_bind_eq_Inr is_bool_def split: prod.splits if_splits\<close>)

text \<open>Compound types.\<close>

lemma counted_read:
  assumes "DecodeInteger False 2 bs = Inr (w :: 64 word, rest)" "w \<noteq> 0xFFFF"
  shows "unat w < 0xFFFF"
  using DecodeInteger_unsigned_range [OF assms(1)] assms(2) by (simp add: word_unat_eq_iff)

lemma struct_sound:
  assumes "sound ctx D" "type_case d = Struct_case" "decode_struct D s = Inr (v, s')"
  shows "typed ctx (ZclType d) v"
proof -
  obtain bs att where s: "s = (bs, att)" by (cases s)
  obtain w :: "64 word" and rest where w: "DecodeInteger False 2 bs = Inr (w, rest)"
    using assms(3) by (auto simp: decode_struct_def s res_bind_eq_Inr)
  show ?thesis
  proof (cases "w = 0xFFFF")
    case True
    with assms(3) have "v = JNull" by (simp add: decode_struct_def s w)
    with typed_no_struct [OF assms(2)] show ?thesis by simp
  next
    case False
    then obtain xs where xs: "decode_times (unat w) (D VariantType) (rest, att) = Inr (xs, s')" "v = JArray xs"
      using assms(3) by (auto simp: decode_struct_def s w res_bind_eq_Inr)
    have "length xs < 0xFFFF" using decode_times_length [OF xs(1)] counted_read [OF w False] by simp
    then show ?thesis unfolding xs(2) using times_sound [OF assms(1) xs(1)] by (intro typed_struct [OF assms(2)])
  qed
qed

lemma collection_sound:
  assumes "sound ctx D" "type_case d = Array_case" "decode_collection D s = Inr (v, s')"
  shows "typed ctx (ZclType d) v"
proof -
  obtain bs att where s: "s = (bs, att)" by (cases s)
  obtain element :: DataType and bs1 where e: "dec enum_codec bs = Inr (element, bs1)"
    using assms(3) by (auto simp: decode_collection_def s res_bind_eq_Inr)
  obtain w :: "64 word" and rest where w: "DecodeInteger False 2 bs1 = Inr (w, rest)"
    using assms(3) by (auto simp: decode_collection_def s e res_bind_eq_Inr)
  show ?thesis
  proof (cases "w = 0xFFFF")
    case True
    with assms(3) have "v = tagged ''element_type'' (type_text element) ''elements'' JNull"
      by (simp add: decode_collection_def s e w tagged_def type_text_def)
    with typed_no_collection [OF assms(2)] show ?thesis by simp
  next
    case False
    then obtain xs where xs: "decode_times (unat w) (D (ZclType element)) (rest, att) = Inr (xs, s')"
      "v = tagged ''element_type'' (type_text element) ''elements'' (JArray xs)"
      using assms(3) by (auto simp: decode_collection_def s e w res_bind_eq_Inr tagged_def type_text_def)
    have "length xs < 0xFFFF" using decode_times_length [OF xs(1)] counted_read [OF w False] by simp
    then show ?thesis unfolding xs(2) using times_sound [OF assms(1) xs(1)] by (intro typed_collection [OF assms(2)])
  qed
qed

lemma variant_sound:
  assumes "sound ctx D" "decode_variant D s = Inr (v, s')"
  shows "typed ctx VariantType v"
proof -
  obtain bs att where s: "s = (bs, att)" by (cases s)
  obtain d :: DataType and rest where d: "dec enum_codec bs = Inr (d, rest)"
    using assms(2) by (auto simp: decode_variant_def s res_bind_eq_Inr)
  show ?thesis
  proof (cases "d = DataType_string \<and> att = Some 0xFF01")
    case True
    with assms(2) have "D XiaomiFF01Type (rest, att) = Inr (v, s')" by (simp add: decode_variant_def s d)
    then show ?thesis by (intro typed_variant_xiaomi soundD [OF assms(1)])
  next
    case False
    then obtain x where "D (ZclType d) (rest, att) = Inr (x, s')" "v = tagged ''type'' (type_text d) ''value'' x"
      using assms(2) by (auto simp: decode_variant_def s d res_bind_eq_Inr tagged_def type_text_def)
    with soundD [OF assms(1)] show ?thesis by (simp add: typed_variant)
  qed
qed

lemma properties_members:
  assumes "decode_properties D properties ret s = Inr (ms, s')"
  shows "case map_of (rev properties) k of
      None \<Rightarrow> map_of ms k = map_of ret k
    | Some t \<Rightarrow> \<exists>x s s'. map_of ms k = Some x \<and> D t s = Inr (x, s')"
  using assms
proof (induction properties arbitrary: ret s)
  case (Cons e properties)
  obtain name t where e: "e = (name, t)" by (cases e)
  then obtain x s1 where x: "D t s = Inr (x, s1)" "decode_properties D properties (obj_set name x ret) s1 = Inr (ms, s')"
    using Cons.prems by (auto simp: res_bind_eq_Inr)
  from Cons.IH [OF x(2)] x(1) show ?case
    by (auto simp: e map_add_def map_of_obj_set simp del: split_paired_Ex split: option.splits if_splits) blast
qed simp

lemma object_sound:
  assumes "sound ctx D" "decode_object D properties s = Inr (v, s')"
  shows "typed ctx (ObjectType properties) v"
proof -
  obtain ms where ms: "decode_properties D properties [] s = Inr (ms, s')" "v = JObject ms"
    using assms(2) by (auto simp: decode_object_def res_bind_eq_Inr)
  show ?thesis unfolding ms(2)
  proof (rule typed_object)
    show "map_of ms k = None \<longleftrightarrow> map_of (rev properties) k = None" for k
      using properties_members [OF ms(1), of k] by (auto split: option.splits)
    show "typed ctx t x" if "map_of (rev properties) k = Some t" "map_of ms k = Some x" for k t x
      using properties_members [OF ms(1), of k] that soundD [OF assms(1)] by auto
  qed
qed

lemma array_sound:
  assumes "sound ctx D" "decode_array fuel D length_size element s = Inr (v, s')"
  shows "typed ctx (ArrayType length_size element) v"
proof (cases "length_size = 0")
  case True
  then obtain xs where xs: "decode_until_end fuel (D element) s = Inr (xs, s')" "v = JArray xs"
    using assms(2) by (auto simp: decode_array_def res_bind_eq_Inr)
  have "typed ctx element x" if "x \<in> set xs" for x
    using decode_until_end_all [OF xs(1) that] soundD [OF assms(1)] by blast
  then show ?thesis unfolding xs(2) by (intro typed_array) (simp_all add: True)
next
  case False
  obtain bs att where s: "s = (bs, att)" by (cases s)
  obtain w :: "64 word" and rest xs where w: "DecodeInteger False length_size bs = Inr (w, rest)"
    and xs: "decode_times (unat w) (D element) (rest, att) = Inr (xs, s')" "v = JArray xs"
    using assms(2) False by (auto simp: decode_array_def s res_bind_eq_Inr)
  show ?thesis unfolding xs(2)
    using DecodeInteger_unsigned_range [OF w] decode_times_length [OF xs(1)] times_sound [OF assms(1) xs(1)]
    by (intro typed_array) simp_all
qed

lemma xiaomi_sound:
  assumes "sound ctx D" "decode_xiaomi fuel text_of D s = Inr (v, s')"
  shows "typed ctx XiaomiFF01Type v"
proof -
  obtain bs att where s: "s = (bs, att)" by (cases s)
  let ?item = "decoded_then (D (ZclType DataType_uint8)) (\<lambda>item_key.
    decoded_then (D VariantType) (\<lambda>item_value s. Inr ((text_of item_key, item_value), s)))"
  obtain start ms end_state where ms: "decode_until_end fuel ?item start = Inr (ms, end_state)"
    "v = tagged ''type'' (JString ''xiaomi_ff01'') ''value'' (object ms)"
    using assms(2) by (auto simp: decode_xiaomi_def s res_bind_eq_Inr Let_def tagged_def)
  have "typed ctx VariantType x" if "(k, x) \<in> set ms" for k x
    using decode_until_end_all [OF ms(1) that] soundD [OF assms(1)]
    by (auto simp: decoded_then_def res_bind_eq_Inr)
  then show ?thesis unfolding ms(2) by (rule typed_xiaomi)
qed

lemma error_or_sound:
  assumes "sound ctx D" "decode_error_or D t s = Inr (v, s')"
  shows "typed ctx (ErrorOrType t) v"
proof -
  obtain bs att where s: "s = (bs, att)" by (cases s)
  obtain w :: "32 word" and rest where w: "DecodeInteger False 1 bs = Inr (w, rest)"
    using assms(2) by (auto simp: decode_error_or_def s res_bind_eq_Inr)
  show ?thesis
  proof (cases "w = 0")
    case True
    then obtain x where "D t (rest, att) = Inr (x, s')" "v = object [(''success'', x)]"
      using assms(2) by (auto simp: decode_error_or_def s w [simplified] res_bind_eq_Inr)
    with soundD [OF assms(1)] show ?thesis by (simp add: typed_success)
  next
    case False
    then have "v = object [(''error'', JUnsigned (ucast w))]"
      using assms(2) by (simp add: decode_error_or_def s w [simplified])
    moreover have "unat w \<noteq> 0" using False by (simp add: unat_eq_0)
    ultimately show ?thesis
      using DecodeInteger_unsigned_range [OF w] by (simp add: typed_error unat_ucast_up)
  qed
qed

lemma zcl_sound:
  assumes "sound ctx D" "decode_zcl D ctx d s = Inr (v, s')"
  shows "typed ctx (ZclType d) v"
proof (cases "type_case d")
  case Struct_case
  with assms(2) struct_sound [OF assms(1) Struct_case] show ?thesis by (simp add: decode_zcl_def)
next
  case Array_case
  with assms(2) collection_sound [OF assms(1) Array_case] show ?thesis by (simp add: decode_zcl_def)
qed (use scalar_sound [OF assms(2)] in \<open>auto intro: typed_scalar\<close>)

lemma decode_sound: "sound ctx (decode fuel lib ctx)"
proof (induction fuel)
  case (Suc fuel)
  show ?case unfolding sound_def
  proof (intro allI impI)
    fix t s v s'
    assume d: "decode (Suc fuel) lib ctx t s = Inr (v, s')"
    show "typed ctx t v"
      by (cases t) (use d variant_sound [OF Suc] xiaomi_sound [OF Suc] zcl_sound [OF Suc] object_sound [OF Suc]
        array_sound [OF Suc] error_or_sound [OF Suc] in auto)
  qed
qed (simp add: sound_def)

text \<open>
  C6: Whatever the bytes, the value that is decoded for a type is a value of that type: an object has
  exactly the members of the type and each is a value of the member's type, integers are in the range of
  their width, strings and lists have at most the length their prefix can announce, and every variant
  carries the type its value has.
\<close>

theorem decoded_value_typed:
  assumes "Decode_any fuel lib ctx t bs = Inr (v, rest)"
  shows "typed ctx t v"
proof -
  obtain s' where "decode fuel lib ctx t (bs, None) = Inr (v, s')"
    using assms by (auto simp: Decode_any_def res_bind_eq_Inr)
  then show ?thesis by (rule soundD [OF decode_sound])
qed

text \<open>The attribute report of a temperature: a signed value and nothing else.\<close>

theorem decoded_value_typed_witness:
  "typed \<lparr> context_cluster = None \<rparr> (ArrayType 0 (ObjectType [(''attribute'', ZclType DataType_attribId), (''value'', VariantType)]))
     (JArray [JObject [(''attribute'', JUnsigned 0), (''value'', tagged ''type'' (type_text DataType_int16) ''value'' (JSigned (-100)))]])"
proof -
  have "Decode_any 5 (strict_library (\<lambda>_. [])) \<lparr> context_cluster = None \<rparr>
      (ArrayType 0 (ObjectType [(''attribute'', ZclType DataType_attribId), (''value'', VariantType)])) [0, 0, 0x29, 0x9C, 0xFF]
    = Inr (JArray [JObject [(''attribute'', JUnsigned 0), (''value'', tagged ''type'' (type_text DataType_int16) ''value'' (JSigned (-100)))]], [])"
    by code_simp
  then show ?thesis by (rule decoded_value_typed)
qed

end
