(* ===== verification/HubReports.thy ===== *)
theory HubReports
  imports DynamicTyping HubTopics
begin

text \<open>
  Attribute reports: a command whose payload is a list of objects that start with an attribute
  identifier is published once more for each element, under the name of the attribute. Because the
  decoded value has the type of the command, every look-up of \<open>OnZclCommand\<close> in it succeeds.
\<close>

inductive_cases typed_ObjectE: "typed ctx (ObjectType properties) v"
inductive_cases typed_ArrayE: "typed ctx (ArrayType length_size element) v"
inductive_cases typed_ZclE: "typed ctx (ZclType d) v"

lemma typed_member:
  assumes "typed ctx (ObjectType properties) v" "(name, t) \<in> set properties" "distinct (map fst properties)"
  shows "typed ctx t (JsonGetProperty v name)"
  using assms(1)
proof (rule typed_ObjectE)
  fix ms
  assume v: "v = JObject ms" and same: "\<And>k. (map_of ms k = None) = (map_of (rev properties) k = None)"
    and members: "\<And>k t x. map_of (rev properties) k = Some t \<Longrightarrow> map_of ms k = Some x \<Longrightarrow> typed ctx t x"
  have t: "map_of (rev properties) name = Some t"
    using assms(2,3) by (simp add: rev_map [symmetric])
  with same [of name] obtain x where "map_of ms name = Some x" by auto
  with members [OF t this] show ?thesis by (simp add: v JsonGetProperty_def member_or_null_def)
qed

lemma typed_elements:
  assumes "typed ctx (ArrayType length_size element) v"
  obtains xs where "v = JArray xs" "\<And>x. x \<in> set xs \<Longrightarrow> typed ctx element x"
  using assms by (rule typed_ArrayE) blast

lemma typed_attribute:
  assumes "typed ctx (ZclType DataType_attribId) v"
  shows "attribute_value ctx v"
  using assms by (rule typed_ZclE) (simp_all add: scalar_def type_case_def)

text \<open>
  C3: Every attribute report is published: of a decoded payload that is a list of reports, each report has
  an attribute identifier (the name the cluster gives it, or its number) and a value of its type, and the
  value is published under the topic of the command followed by that identifier.
\<close>

theorem attribute_reports_published:
  assumes "Decode_json env ctx (ObjectType (command_data k)) bs = Inr (payload, rest)"
    and "command_data k = (name, ArrayType n (ObjectType ((id_name, ZclType DataType_attribId) # (value_name, value_type) # more_members))) # more_data"
    and "distinct (map fst (command_data k))" "distinct (id_name # value_name # map fst more_members)"
  shows "\<exists>reports. JsonGetProperty payload name = JArray reports \<and> (\<forall>report \<in> set reports.
      attribute_value ctx (JsonGetProperty report id_name) \<and> typed ctx value_type (JsonGetProperty report value_name) \<and>
      (topic @ ''/'' @ report_subtopic env (JsonGetProperty report id_name),
       to_string (env_json env) (JsonGetProperty report value_name)) \<in> set (command_publications env cfg topic k payload))"
proof -
  have repeated: "repeated_reports k = Some (name, (id_name, ZclType DataType_attribId), (value_name, value_type))"
    by (simp add: repeated_reports_def assms(2))
  obtain s' where "decode (Suc (length bs + depth (ObjectType (command_data k)))) (env_json env) ctx (ObjectType (command_data k)) (bs, None)
      = Inr (payload, s')"
    using assms(1) by (auto simp: Decode_json_def Decode_any_def res_bind_eq_Inr)
  then have "typed ctx (ObjectType (command_data k)) payload" by (rule soundD [OF decode_sound])
  from typed_member [OF this _ assms(3), of name] assms(2)
  have "typed ctx (ArrayType n (ObjectType ((id_name, ZclType DataType_attribId) # (value_name, value_type) # more_members))) (JsonGetProperty payload name)"
    by simp
  then obtain reports where reports: "JsonGetProperty payload name = JArray reports"
    "\<And>x. x \<in> set reports \<Longrightarrow> typed ctx (ObjectType ((id_name, ZclType DataType_attribId) # (value_name, value_type) # more_members)) x"
    by (rule typed_elements) blast
  show ?thesis
  proof (intro exI [of _ reports] conjI ballI reports(1))
    fix report
    assume r: "report \<in> set reports"
    note member = typed_member [OF reports(2) [OF r]]
    show "attribute_value ctx (JsonGetProperty report id_name)"
      by (rule typed_attribute) (use member [of id_name "ZclType DataType_attribId"] assms(4) in simp)
    show "typed ctx value_type (JsonGetProperty report value_name)" using member [of value_name value_type] assms(4) by simp
    show "(topic @ ''/'' @ report_subtopic env (JsonGetProperty report id_name),
        to_string (env_json env) (JsonGetProperty report value_name)) \<in> set (command_publications env cfg topic k payload)"
      using r PublishValue_here [of "topic @ ''/'' @ report_subtopic env (JsonGetProperty report id_name)"
          "to_string (env_json env)" "JsonGetProperty report value_name" "mqtt_recursive_publish cfg"]
      by (auto simp: command_publications_def repeated reports(1) JsonAsArray_def Let_def)
  qed
qed

definition report_command :: CommandInfo where
  "report_command = \<lparr> CommandInfo.command_id = 10, command_name = ''ReportAttributes'', is_global = True,
     command_data = [(''reports'', reports_type)] \<rparr>"

definition report_payload :: json where
  "report_payload = JObject [(''reports'', JArray [JObject [(''Attribute data'', tagged ''type'' (type_text DataType_int16) ''value'' (JSigned (-100))),
     (''Attribute identifier'', JUnsigned 0)]])]"

lemma report_decoded:
  "Decode_json example_env \<lparr> context_cluster = None \<rparr> (ObjectType (command_data report_command)) [0, 0, 0x29, 0x9C, 0xFF]
    = Inr (report_payload, [])"
  by code_simp

text \<open>The report of a temperature is published under the number of its attribute.\<close>

theorem attribute_reports_published_witness:
  "\<exists>reports. JsonGetProperty report_payload ''reports'' = JArray reports \<and> (\<forall>report \<in> set reports.
      (''in'' @ ''/'' @ report_subtopic example_env (JsonGetProperty report ''Attribute identifier''), [])
        \<in> set (command_publications example_env (example_settings ClusterDb_ctor) ''in'' report_command report_payload))"
proof -
  have "command_data report_command = (''reports'', ArrayType 0 (ObjectType ((''Attribute identifier'', ZclType DataType_attribId)
      # (''Attribute data'', VariantType) # []))) # []"
    by (simp add: report_command_def reports_type_def)
  from attribute_reports_published [OF report_decoded this, of "''in''" "example_settings ClusterDb_ctor"]
  show ?thesis by (auto simp: report_command_def example_env_def strict_library_def)
qed

end
