(* ===== verification/HubControl.thy ===== *)
theory HubControl
  imports StartupProtocol
begin

text \<open>
  The control messages from the broker: opening and closing the network for new devices, and joining a
  device directly.
\<close>

section \<open>Requests\<close>

lemma issues_direct_join:
  "issues (ZdoMgmtDirectJoin address device)
     [(ZnpCommandType_SREQ, ZdoCmd ZdoCommand_MGMT_DIRECT_JOIN_REQ, le_bytes 2 address @ le_bytes 8 device)]"
proof -
  have "Encode (pair_codec unsigned_codec unsigned_codec) (address, device) = Inr (le_bytes 2 address @ le_bytes 8 device)"
    using codec_laws.encode_img [OF canonical_imp_laws [OF uint16.pair_codec_canonical [OF uint64.canonical_codec_axioms]],
        of "(address, device)"] by (simp add: pair_img_def pair_ok_def)
  then show ?thesis
    unfolding ZdoMgmtDirectJoin_def
    by (intro issues_then issues_with [where x = "le_bytes 2 address @ le_bytes 8 device"] issues_wait_after issues_request) simp_all
qed

lemma detached_sends:
  assumes "issues m fs"
  shows "sent (hub_api (fst (detached m h))) = sent (hub_api h) @ fs \<and> published (fst (detached m h)) = published h \<and>
    waiting (fst (detached m h)) = waiting h"
proof -
  obtain a x where "m (hub_api h) = (a, Inr x)" "sent a = sent (hub_api h) @ fs" by (rule issuesE [OF assms])
  then show ?thesis by (simp add: detached_def)
qed

section \<open>Control messages\<close>

lemma control_topic: "OnPublish_try env cfg (mqtt_prefix cfg @ controlTopic @ topic) message = OnPublish_control env cfg topic message"
  by (simp add: OnPublish_try_def starts_with_def controlTopic_def)

text \<open>
  C16: A message on the topic \<open>control/permitjoin\<close> opens the network for the number of seconds it holds,
  at most 254: exactly one request is sent, to all routers, and nothing is published. A text that is not
  wholly a number changes nothing.
\<close>

theorem permit_join_request:
  "let h' = OnPublish env cfg (mqtt_prefix cfg @ ''control/permitjoin'') message h in
   case stoul message 0 of
     Inl e \<Rightarrow> h' = h
   | Inr (seconds, endpos) \<Rightarrow>
       if endpos = length message then
         sent (hub_api h') = sent (hub_api h) @ [(ZnpCommandType_SREQ, ZdoCmd ZdoCommand_MGMT_PERMIT_JOIN_REQ,
           [15, 0xFC, 0xFF, word_of_nat (min seconds 254), 0])] \<and> published h' = published h \<and> waiting h' = waiting h
       else h' = h"
proof -
  have "OnPublish env cfg (mqtt_prefix cfg @ ''control/permitjoin'') message h = fst (OnPublishPermitJoin message h)"
    using control_topic [of env cfg "''permitjoin''" message]
    by (simp add: OnPublish_def controlTopic_def OnPublish_control_def Let_def)
  moreover have "(if seconds \<ge> 0xFF then 0xFE else seconds) = min seconds (254 :: nat)" for seconds by simp
  moreover have "le_bytes 2 (0xFFFC :: 16 word) = [0xFC, 0xFF]" by code_simp
  ultimately show ?thesis
    using detached_sends [OF issues_permit_joining [of 15 "0xFFFC" _ 0], of _ h]
    by (auto simp: OnPublishPermitJoin_def step_with_def done_step_def split: sum.split prod.split)
qed

text \<open>
  A message on the topic \<open>control/directjoin\<close> with an address, below the instance name if there is one,
  asks the coordinator to let that device join.
\<close>

lemma direct_join_request:
  assumes "topic = MakePrefixEndWithSlash (instance_id cfg) @ ''directjoin/'' @ show_address device"
    and "full_match env (MakePrefixEndWithSlash (instance_id cfg) @ ''permitjoin'') topic = Inr None"
    and "full_match env (MakePrefixEndWithSlash (instance_id cfg) @ ''directjoin/([0-9a-fA-F]+)'') topic = Inr (Some [show_address device])"
  shows "sent (hub_api (OnPublish env cfg (mqtt_prefix cfg @ ''control/'' @ topic) message h)) = sent (hub_api h) @
    [(ZnpCommandType_SREQ, ZdoCmd ZdoCommand_MGMT_DIRECT_JOIN_REQ, [0, 0] @ le_bytes 8 device)]"
proof -
  have "CHR ''/'' \<in> set topic" by (simp add: assms(1))
  then have "topic \<noteq> ''permitjoin''" by auto
  then have "OnPublish_control env cfg topic message = OnPublishDirectJoin device"
    by (simp add: OnPublish_control_def Let_def assms(2,3) step_with_def [abs_def] stoul_show_address)
  then have "OnPublish env cfg (mqtt_prefix cfg @ ''control/'' @ topic) message h = fst (OnPublishDirectJoin device h)"
    using control_topic [of env cfg topic message] by (simp add: OnPublish_def controlTopic_def)
  moreover have "le_bytes 2 (0 :: 16 word) = [0, 0]" by code_simp
  ultimately show ?thesis
    using detached_sends [OF issues_direct_join [of 0 device], of h] by (simp add: OnPublishDirectJoin_def)
qed

end
