(* ===== verification/Spec2Isabelle.thy ===== *)
theory Spec2Isabelle
  imports ZnpRequests ZnpPromises ZclEndpoint ClusterLookup HubFlow MqttUrl HubMqtt VariantCodec StartedHub HubReports HubControl
begin

text \<open>
  AqaraHub connects a Zigbee network to an MQTT broker. A coordinator (the dongle) hangs on a serial
  line and speaks the ZNP protocol; the programme configures it, turns the commands that devices send
  into JSON messages for the broker, and turns messages from the broker into commands for devices. This
  development models the programme in \<^verbatim>\<open>src/src\<close> and proves what its parts promise, alone and together.

  \<^bold>\<open>The parts and how they interact.\<close> Bytes from the serial line become frames (\<^verbatim>\<open>znp/znp_port.cpp\<close>). A
  frame goes to the list of handlers of the request layer (\<^verbatim>\<open>znp/znp_api.cpp\<close>), where it settles a
  promise or is emitted as an event. The hub (\<^verbatim>\<open>main.cpp\<close>) handles the events: a message from a device
  goes to the endpoint (\<^verbatim>\<open>zcl/zcl_endpoint.cpp\<close>), whose command is looked up in the cluster database
  (\<^verbatim>\<open>clusterdb\<close>), decoded to JSON as the type of the command directs (\<^verbatim>\<open>dynamic_encoding/decoding.cpp\<close>),
  and published on the MQTT connection (\<^verbatim>\<open>mqtt_wrapper_impl.h\<close>). A message from the broker goes the other
  way: topic, lookup, encoding (\<^verbatim>\<open>dynamic_encoding/encoding.cpp\<close>), address request, frame, serial line.
  Before that, \<^verbatim>\<open>main\<close> reads its options and the coroutine \<^verbatim>\<open>Initialize\<close> (over \<^verbatim>\<open>coro.h\<close>) sets the dongle
  up.

  \<^bold>\<open>How the code is modelled.\<close> The programme is single threaded: one event loop runs one handler at a
  time. So the state of a component is a record, a member function a function on it that returns the new
  state, a handler a step, and a run a list of events. A function that may throw has its result in
  \<open>error + 'a\<close>. Integers keep their width. A future is the number of its promise with the decoder of its
  value (\<open>Future p d\<close>), and the promises that were called are a list in the state. Asynchronous
  operations (reads, writes, timers, the client of the mqtt library) are events on one side and entries of
  a log on the other; a theorem about all lists of events speaks of every interleaving. What is not under
  \<^verbatim>\<open>src\<close> is a parameter: the JSON library (\<open>json_library\<close> with \<open>library_laws\<close>), the regular expressions
  that contain the instance name (\<open>full_match\<close>), the rounding of \<open>std::log2\<close>, packet identifiers, the
  reading of files and of the command line (\<open>machine\<close>, \<open>variables\<close>), and the order in which C++ evaluates
  the arguments of \<open>when_all\<close> (\<open>order\<close>).

  \<^bold>\<open>Theories.\<close>

  \<^item> \<open>Prelude\<close>: exceptions as values, sequencing, facts on lists and words. \<open>Text\<close>: numbers as text and back
    (\<open>std::stoul\<close>, \<open>boost::format\<close>). \<open>StringEnum\<close>: \<^verbatim>\<open>string_enum.h\<close>.

  \<^item> \<open>Codec\<close>: the templates of \<^verbatim>\<open>znp/encoding.h\<close> as records of size, encoder and decoder. The locale
    \<open>codec_laws\<close> states what an encoder promises and \<open>canonical_codec\<close> that the bytes are determined by the
    value; all combinators are shown to keep them, and every base type is an interpretation. \<open>Floats\<close>:
    \<open>FloatEncodeHelper\<close> over exact numbers.

  \<^item> \<open>ZnpEnums\<close>, \<open>ZnpTypes\<close>: the enumerations, commands and structures of \<^verbatim>\<open>znp/znp.h\<close> and the printers of
    \<^verbatim>\<open>znp/znp.cpp\<close>. \<open>ZnpPort\<close>: \<^verbatim>\<open>znp/znp_port.cpp\<close>; framing round trips, resynchronisation after a damaged
    frame, order and progress of the writes.

  \<^item> \<open>ZnpApi\<close>: \<^verbatim>\<open>znp/znp_api.cpp\<close>, every request and the loop over the handlers. \<open>ZnpDispatch\<close>,
    \<open>ZnpRequests\<close>: which handler a frame reaches and what a caller observes, from the request to the
    response, the awaited indication or the timeout. \<open>ZnpPromises\<close>: the runs of the layer as an inductive
    predicate (\<open>api_run\<close>) and the invariant that no promise is called twice, or owed after it was called.

  \<^item> \<open>ZclTypes\<close>: frames and enumerations of \<^verbatim>\<open>zcl/zcl.h\<close>. \<open>ZclEndpoint\<close>: \<^verbatim>\<open>zcl/zcl_endpoint.cpp\<close>.
    \<open>Variants\<close>, \<open>VariantCodec\<close>: \<open>ZclVariant\<close> with its printer (\<^verbatim>\<open>zcl/zcl.cpp\<close>) and its encoders
    (\<^verbatim>\<open>zcl/encoding.cpp\<close>), whose round trip holds for the supported types only.

  \<^item> \<open>ClusterDb\<close>, \<open>ClusterLookup\<close>: \<^verbatim>\<open>clusterdb\<close> and the type expressions of \<^verbatim>\<open>dynamic_encoding/common.cpp\<close>;
    what is accepted, that it is found again, and that all lookups agree.

  \<^item> \<open>Json\<close>, \<open>DynamicDecoding\<close>, \<open>DynamicEncoding\<close>: the two interpreters of types. \<open>DynamicProgress\<close>: their
    termination. \<open>DynamicIntegers\<close>: the ranges of integers and bit maps. \<open>DynamicRoundTrip\<close>: encoding a
    decoded value again. \<open>DynamicTyping\<close>: the decoder returns values of its type.

  \<^item> \<open>Hub\<close>: the handlers of \<^verbatim>\<open>main.cpp\<close>. \<open>HubTopics\<close>: topics and recursive publishing. \<open>HubInvariants\<close>: the
    locale \<open>hub_invariant\<close> of what a handler can do, with three interpretations (two here, one in
    \<open>HubMqtt\<close>). \<open>HubFlow\<close>: commands from the broker to the device and back. \<open>HubReports\<close>: the publication of
    attribute reports. \<open>HubControl\<close>: the messages that open the network or let a device join.

  \<^item> \<open>MqttWrapper\<close>, \<open>MqttDelivery\<close>: \<^verbatim>\<open>mqtt_wrapper_impl.h\<close>, order and loss of messages, callbacks,
    subscriptions, reconnects. \<open>Uri\<close>, \<open>MqttUrl\<close>: \<^verbatim>\<open>uri_parser.cpp\<close> and \<^verbatim>\<open>mqtt_wrapper.cpp\<close>. \<open>HubMqtt\<close>: hub and
    connection as one system.

  \<^item> \<open>Coroutine\<close>: \<^verbatim>\<open>coro.h\<close>; a coroutine over an event loop that handles a given list of events during each
    wait. \<open>CoroutineSends\<close>: a calculus of what a coroutine sends. \<open>HubStartup\<close>: the options of \<^verbatim>\<open>main\<close>, the
    configuration of the dongle and \<open>Initialize\<close>. \<open>StartupProtocol\<close>: its frames, whatever the dongle does, for the values it has read.
    \<open>StartupAnswers\<close>: its completion with a dongle that answers. \<open>StartupRun\<close>: from the options to the
    running hub, with the locale \<open>startup_invariant\<close> and two interpretations. \<open>StartedHub\<close>: the running
    hub, its subscriptions and its publications.

  \<^bold>\<open>What is shown of the whole.\<close> Options that launch the programme lead, with any configuration of a dongle
  that answers, to the running hub (\<open>programme_starts\<close>, by way of the sequence of \<open>startup_follows_protocol\<close>);
  from then on every topic the hub acts on is subscribed (\<open>commands_reach_hub\<close>), a command published for a
  device becomes its frame (\<open>published_command_sent\<close>), a command of a device is published
  (\<open>received_command_published\<close>), its value has the type of the command (\<open>decoded_value_typed\<close>) and keeps
  its meaning when it is sent back (\<open>decoded_value_re_encoded\<close>), and nothing that is published is lost while
  the broker is away (\<open>programme_publications_sent\<close>). Below that, framing, codecs and lookups are inverse
  where they should be, promises and callbacks are called at most once, and the loops end.

  \<^bold>\<open>Fuel.\<close> Three recursions of the source need not end, or end for a reason that is no structural one.
  \<open>decode\<close> has fuel because a type that repeats an element without bytes never ends
  (\<open>idle_repetition_never_ends\<close>); for all other types fuel above the number of bytes plus the depth of the
  type is enough and does not matter (\<open>decoder_terminates\<close>), and the hub runs it with that
  (\<open>Decode_json\<close>). \<open>encode\<close> ends with fuel above the depth of the type plus the size of the value
  (\<open>encoder_terminates\<close>, \<open>Encode_json\<close>). The decoder of variants ends with fuel above the number of
  bytes (\<open>variant_decoder_total\<close>). Running out of fuel is the error \<open>Out_of_fuel\<close>, which no other branch
  returns. In the hub it stands for a programme that hangs (\<open>hangs\<close>).

  \<^bold>\<open>Deviations found.\<close> Where the code does not do what it means to, the theorem states what it does:
  \<open>abandoned_handler_takes_response\<close>, \<open>unacknowledged_not_resent\<close>, \<open>signed_range_too_wide\<close>,
  \<open>narrow_integers_changed\<close>, \<open>string16_lost\<close>, \<open>semi_overflow_not_saturated\<close>, \<open>rounded_log2_refused\<close> and others.

  \<^bold>\<open>Not modelled.\<close> Logging writes to the console only. The adapters of \<^verbatim>\<open>asio_executor.h\<close>, \<^verbatim>\<open>weak_bind.h\<close> and
  \<^verbatim>\<open>polyfill/apply.h\<close> connect boost::asio with the futures of stlab; their effect is the events of the
  models. \<^verbatim>\<open>coroutines.h\<close> is not included by any file, and \<^verbatim>\<open>znp_raw_interface.h\<close> is an abstract class with one
  implementation. The serial line settings, TLS and the wire format of MQTT belong to libraries. The lifetime
  of objects is not modelled: the hub, the request layer and the connection live until the end of
  the programme, as they do in \<^verbatim>\<open>main\<close>.
\<close>

end
